(* ===== verification/Prelude.thy ===== *)
theory Prelude
  imports Main "HOL-Library.Word"
begin

text \<open>
  Shared vocabulary of the development.

  Go strings and byte slices are byte sequences; both are modelled by HOL's \<^typ>\<open>string\<close>
  (a list of 8-bit characters). This theory models the part of Go's standard library that the
  components use on strings (package strings, net.SplitHostPort, strconv), the 64-bit signed
  wrap-around of Go's \<open>int\<close> and \<open>int64\<close>, and \<open>http.Header\<close>, with the
  generic lemmas about them that the component theories share.

  Case mapping and white-space trimming of text that is not pure ASCII consult the tables of Go's
  package unicode. Those tables are not part of the repository: the record \<open>unicode\<close>
  carries the two functions as a parameter, and the model computes the ASCII case itself. No
  theorem assumes anything about the non-ASCII case unless it says so.
\<close>

section \<open>Collections of simplification rules\<close>

named_theorems go_strings \<open>facts about Go string functions\<close>
named_theorems go_ints \<open>facts about 64-bit Go integers\<close>
named_theorems go_headers \<open>facts about http.Header\<close>

section \<open>Bytes and strings\<close>

type_synonym bytes = "char list"

definition is_ascii :: "char \<Rightarrow> bool" where
  "is_ascii c \<longleftrightarrow> (of_char c :: nat) < 128"

definition ascii_lower :: "char \<Rightarrow> char" where
  "ascii_lower c = (let n = (of_char c :: nat) in if 65 \<le> n \<and> n \<le> 90 then char_of (n + 32) else c)"

definition ascii_space :: "char \<Rightarrow> bool" where
  "ascii_space c \<longleftrightarrow> (let n = (of_char c :: nat) in n = 32 \<or> (9 \<le> n \<and> n \<le> 13))"

record unicode =
  uni_ToLower :: "string \<Rightarrow> string"
  uni_TrimSpace :: "string \<Rightarrow> string"

text \<open>\<open>strings.ToLower\<close> and \<open>strings.TrimSpace\<close>.\<close>

definition ToLower :: "unicode \<Rightarrow> string \<Rightarrow> string" where
  "ToLower u s = (if list_all is_ascii s then map ascii_lower s else uni_ToLower u s)"

definition TrimSpace :: "unicode \<Rightarrow> string \<Rightarrow> string" where
  "TrimSpace u s =
     (if list_all is_ascii s
      then rev (dropWhile ascii_space (rev (dropWhile ascii_space s)))
      else uni_TrimSpace u s)"

text \<open>\<open>strings.HasPrefix(s, p)\<close>, \<open>HasSuffix\<close>, \<open>TrimPrefix\<close>, \<open>TrimSuffix\<close>, \<open>CutPrefix\<close>, \<open>Contains\<close>.\<close>

definition HasPrefix :: "string \<Rightarrow> string \<Rightarrow> bool" where
  "HasPrefix s p \<longleftrightarrow> take (length p) s = p"

definition HasSuffix :: "string \<Rightarrow> string \<Rightarrow> bool" where
  "HasSuffix s p \<longleftrightarrow> length p \<le> length s \<and> drop (length s - length p) s = p"

definition TrimPrefix :: "string \<Rightarrow> string \<Rightarrow> string" where
  "TrimPrefix s p = (if HasPrefix s p then drop (length p) s else s)"

definition TrimSuffix :: "string \<Rightarrow> string \<Rightarrow> string" where
  "TrimSuffix s p = (if HasSuffix s p then take (length s - length p) s else s)"

definition CutPrefix :: "string \<Rightarrow> string \<Rightarrow> string \<times> bool" where
  "CutPrefix s p = (if HasPrefix s p then (drop (length p) s, True) else (s, False))"

fun Contains :: "string \<Rightarrow> string \<Rightarrow> bool" where
  "Contains [] sub = (sub = [])"
| "Contains (c # s) sub = (HasPrefix (c # s) sub \<or> Contains s sub)"

text \<open>\<open>strings.Split\<close> with a one-byte separator, and its inverse \<open>strings.Join\<close>.\<close>

fun Split :: "char \<Rightarrow> string \<Rightarrow> string list" where
  "Split c [] = [[]]"
| "Split c (x # xs) =
     (if x = c then [] # Split c xs
      else (case Split c xs of [] \<Rightarrow> [[x]] | l # ls \<Rightarrow> (x # l) # ls))"

fun Join :: "char \<Rightarrow> string list \<Rightarrow> string" where
  "Join c [] = []"
| "Join c [l] = l"
| "Join c (l # ls) = l @ c # Join c ls"

text \<open>\<open>strings.IndexByte\<close>, \<open>strings.LastIndexByte\<close>; \<open>None\<close> is Go's \<open>-1\<close>.\<close>

fun IndexByte :: "string \<Rightarrow> char \<Rightarrow> nat option" where
  "IndexByte [] c = None"
| "IndexByte (x # xs) c = (if x = c then Some 0 else map_option Suc (IndexByte xs c))"

definition LastIndexByte :: "string \<Rightarrow> char \<Rightarrow> nat option" where
  "LastIndexByte s c = map_option (\<lambda>i. length s - 1 - i) (IndexByte (rev s) c)"

text \<open>\<open>strings.ReplaceAll\<close> with a one-byte pattern.\<close>

definition ReplaceAll :: "string \<Rightarrow> char \<Rightarrow> string \<Rightarrow> string" where
  "ReplaceAll s old new = concat (map (\<lambda>c. if c = old then new else [c]) s)"

text \<open>
  \<open>net.SplitHostPort\<close>: \<open>None\<close> is any of its address errors. The bracketed
  branch expects the first closing bracket right before the last colon.
\<close>

definition SplitHostPort :: "string \<Rightarrow> (string \<times> string) option" where
  "SplitHostPort hp =
     (case LastIndexByte hp CHR '':'' of
        None \<Rightarrow> None
      | Some i \<Rightarrow>
          (if take 1 hp = ''['' then
             (case IndexByte hp CHR '']'' of
                None \<Rightarrow> None
              | Some e \<Rightarrow>
                  if e + 1 = length hp then None
                  else if e + 1 \<noteq> i then None
                  else if IndexByte (drop 1 hp) CHR ''['' \<noteq> None then None
                  else if IndexByte (drop (e + 1) hp) CHR '']'' \<noteq> None then None
                  else Some (drop 1 (take e hp), drop (i + 1) hp))
           else
             (let host = take i hp in
              if IndexByte host CHR '':'' \<noteq> None then None
              else if IndexByte hp CHR ''['' \<noteq> None then None
              else if IndexByte hp CHR '']'' \<noteq> None then None
              else Some (host, drop (i + 1) hp))))"

section \<open>Numbers and their text\<close>

text \<open>The value of a Go \<open>int\<close> or \<open>int64\<close> expression: two's complement, 64 bits.\<close>

definition wrap64 :: "int \<Rightarrow> int" where
  "wrap64 x = (x + 2 ^ 63) mod 2 ^ 64 - 2 ^ 63"

definition int64 :: "int \<Rightarrow> bool" where
  "int64 x \<longleftrightarrow> - (2 ^ 63) \<le> x \<and> x < 2 ^ 63"

definition digit_char :: "nat \<Rightarrow> char" where
  "digit_char d = ''0123456789abcdef'' ! d"

fun digits :: "nat \<Rightarrow> nat \<Rightarrow> string" where
  "digits b n = (if n < b \<or> b < 2 then [digit_char (n mod 16)] else digits b (n div b) @ [digit_char (n mod b mod 16)])"

declare digits.simps [simp del]

text \<open>\<open>fmt\<close>'s verbs \<open>%d\<close> and (on a non-negative number) \<open>%x\<close>.\<close>

definition fmt_d :: "int \<Rightarrow> string" where
  "fmt_d i = (if i < 0 then CHR ''-'' # digits 10 (nat (- i)) else digits 10 (nat i))"

definition fmt_x :: "nat \<Rightarrow> string" where
  "fmt_x n = digits 16 n"

definition is_digit :: "char \<Rightarrow> bool" where
  "is_digit c \<longleftrightarrow> (let n = (of_char c :: nat) in 48 \<le> n \<and> n \<le> 57)"

definition digit_val :: "char \<Rightarrow> int" where
  "digit_val c = int (of_char c) - 48"

text \<open>
  \<open>strconv.ParseInt(s, 10, 64)\<close> as its callers use it: the value with the error dropped,
  0 on a syntax error and the nearest bound on a range error. \<open>strconv.Atoi\<close> agrees with
  it on a 64-bit platform.
\<close>

definition parse_digits :: "string \<Rightarrow> int" where
  "parse_digits s = fold (\<lambda>c v. 10 * v + digit_val c) s 0"

definition ParseInt :: "string \<Rightarrow> int" where
  "ParseInt s =
     (let neg = (take 1 s = ''-'');
          ds = (if neg \<or> take 1 s = ''+'' then drop 1 s else s)
      in if ds = [] \<or> \<not> list_all is_digit ds then 0
         else if neg then max (- (2 ^ 63)) (- parse_digits ds)
         else min (2 ^ 63 - 1) (parse_digits ds))"

section \<open>HTTP headers\<close>

text \<open>
  \<open>http.Header\<close> maps canonical names to value lists. Go iterates a map in an unspecified
  order, so the model is an association list whose order is the order one iteration takes.
\<close>

type_synonym header = "(string \<times> string list) list"

definition Header_Get :: "header \<Rightarrow> string \<Rightarrow> string" where
  "Header_Get h k = (case map_of h k of Some (v # _) \<Rightarrow> v | _ \<Rightarrow> [])"

definition Header_Del :: "header \<Rightarrow> string \<Rightarrow> header" where
  "Header_Del h k = filter (\<lambda>(k', _). k' \<noteq> k) h"

definition Header_Set :: "header \<Rightarrow> string \<Rightarrow> string \<Rightarrow> header" where
  "Header_Set h k v = Header_Del h k @ [(k, [v])]"

section \<open>Lemmas\<close>

subsection \<open>Prefixes and suffixes\<close>

lemma HasPrefix_iff [go_strings]: "HasPrefix s p \<longleftrightarrow> (\<exists>r. s = p @ r)"
proof
  assume "HasPrefix s p"
  then have "s = p @ drop (length p) s"
    unfolding HasPrefix_def by (metis append_take_drop_id)
  then show "\<exists>r. s = p @ r" ..
qed (auto simp: HasPrefix_def)

lemma HasPrefix_append [simp]: "HasPrefix (p @ r) p"
  by (simp add: HasPrefix_def)

lemma HasSuffix_iff [go_strings]: "HasSuffix s p \<longleftrightarrow> (\<exists>r. s = r @ p)"
proof
  assume "HasSuffix s p"
  then have "s = take (length s - length p) s @ p"
    unfolding HasSuffix_def by (metis append_take_drop_id)
  then show "\<exists>r. s = r @ p" ..
qed (auto simp: HasSuffix_def)

lemma HasSuffix_append [simp]: "HasSuffix (r @ p) p"
  by (simp add: HasSuffix_def)

lemma TrimPrefix_append [simp]: "TrimPrefix (p @ r) p = r"
  by (simp add: TrimPrefix_def)

lemma TrimSuffix_append [simp]: "TrimSuffix (r @ p) p = r"
  by (simp add: TrimSuffix_def)

lemma CutPrefix_True_iff [go_strings]: "CutPrefix s p = (t, True) \<longleftrightarrow> s = p @ t"
  by (auto simp: CutPrefix_def HasPrefix_iff)

lemma Contains_iff [go_strings]: "Contains s sub \<longleftrightarrow> (\<exists>a b. s = a @ sub @ b)"
proof (induction s)
  case Nil
  show ?case by simp
next
  case (Cons c s)
  have "(\<exists>a b. c # s = a @ sub @ b) \<longleftrightarrow> (\<exists>b. c # s = sub @ b) \<or> (\<exists>a b. s = a @ sub @ b)"
    (is "?l \<longleftrightarrow> ?r")
  proof
    assume ?l
    then obtain a b where ab: "c # s = a @ sub @ b" by blast
    then show ?r by (cases a) auto
  next
    assume ?r
    then show ?l by (metis append_Cons append_Nil)
  qed
  then show ?case by (simp add: Cons.IH HasPrefix_iff)
qed

subsection \<open>Splitting and joining\<close>

lemma Split_not_Nil [simp]: "Split c s \<noteq> []"
  by (cases s) (auto split: list.splits)

lemma Join_Cons: "ls \<noteq> [] \<Longrightarrow> Join c (l # ls) = l @ c # Join c ls"
  by (cases ls) auto

lemma Join_Split [simp, go_strings]: "Join c (Split c s) = s"
proof (induction s)
  case (Cons x s)
  obtain l ls where ls: "Split c s = l # ls"
    by (cases "Split c s") auto
  show ?case
    using Cons.IH ls by (cases ls) (auto simp: Join_Cons)
qed simp

lemma Split_no_sep [simp]: "c \<notin> set s \<Longrightarrow> Split c s = [s]"
  by (induction s) auto

lemma Split_pieces [simp]: "l \<in> set (Split c s) \<Longrightarrow> c \<notin> set l"
  by (induction s arbitrary: l) (auto split: if_splits list.splits)

lemma Split_append_sep [go_strings]: "Split c (a @ c # b) = Split c a @ Split c b"
proof (induction a)
  case (Cons x a)
  show ?case
    by (cases "Split c a") (auto simp: Cons.IH)
qed simp

lemma Split_inject: "Split c a = Split c b \<longleftrightarrow> a = b"
  by (metis Join_Split)

text \<open>
  A split ends with the pieces of \<open>b\<close> after at least one other piece exactly when the
  string is \<open>b\<close> behind a separator.
\<close>

lemma Split_eq_append_iff:
  assumes "pre \<noteq> []"
  shows "Split c s = pre @ Split c b \<Longrightarrow> s = Join c pre @ c # b"
proof -
  assume eq: "Split c s = pre @ Split c b"
  have "Join c (pre @ ls) = Join c pre @ c # Join c ls" if "ls \<noteq> []" for ls
    using assms that by (induction pre rule: list_nonempty_induct) (simp_all add: Join_Cons)
  then have "Join c (Split c s) = Join c pre @ c # Join c (Split c b)"
    by (simp add: eq)
  then show "s = Join c pre @ c # b" by simp
qed

lemma Split_suffix_iff [go_strings]:
  "(\<exists>pre. pre \<noteq> [] \<and> Split c s = pre @ Split c b) \<longleftrightarrow> (\<exists>p. s = p @ c # b)"
  by (metis Split_append_sep Split_eq_append_iff Split_not_Nil)

subsection \<open>Byte positions\<close>

lemma IndexByte_None_iff [simp]: "IndexByte s c = None \<longleftrightarrow> c \<notin> set s"
  by (induction s) auto

lemma IndexByte_absent [simp]: "c \<notin> set s \<Longrightarrow> IndexByte s c = None"
  by simp

lemma IndexByte_append [simp]: "c \<notin> set a \<Longrightarrow> IndexByte (a @ c # b) c = Some (length a)"
  by (induction a) auto

lemma LastIndexByte_None_iff [simp]: "LastIndexByte s c = None \<longleftrightarrow> c \<notin> set s"
  by (simp add: LastIndexByte_def)

lemma LastIndexByte_absent [simp]: "c \<notin> set s \<Longrightarrow> LastIndexByte s c = None"
  by simp

lemma LastIndexByte_append [simp]: "c \<notin> set b \<Longrightarrow> LastIndexByte (a @ c # b) c = Some (length a)"
  by (simp add: LastIndexByte_def)

lemma SplitHostPort_no_colon [simp]: "CHR '':'' \<notin> set h \<Longrightarrow> SplitHostPort h = None"
  by (simp add: SplitHostPort_def)

lemma SplitHostPort_plain [go_strings]:
  assumes "set h \<inter> {CHR '':'', CHR ''['', CHR '']''} = {}" "set p \<inter> {CHR '':'', CHR ''['', CHR '']''} = {}"
  shows "SplitHostPort (h @ CHR '':'' # p) = Some (h, p)"
proof -
  have "take 1 (h @ CHR '':'' # p) \<noteq> ''[''"
    using assms(1) by (cases h) auto
  then show ?thesis
    using assms by (simp add: SplitHostPort_def Let_def)
qed

subsection \<open>ASCII case and space\<close>

lemma of_char_char_of_256 [simp]: "n < 256 \<Longrightarrow> (of_char (char_of n) :: nat) = n"
  by simp

lemma is_ascii_ascii_lower [simp]: "is_ascii (ascii_lower c) = is_ascii c"
  by (simp add: is_ascii_def ascii_lower_def Let_def)

lemma ascii_lower_idem [simp]: "ascii_lower (ascii_lower c) = ascii_lower c"
  by (simp add: ascii_lower_def Let_def)

lemma ToLower_ascii [simp]: "list_all is_ascii s \<Longrightarrow> ToLower u s = map ascii_lower s"
  by (simp add: ToLower_def)

lemma ToLower_idem [go_strings]: "list_all is_ascii s \<Longrightarrow> ToLower u (ToLower u s) = ToLower u s"
  by (simp add: list.pred_map comp_def)

subsection \<open>64-bit integers\<close>

lemma wrap64_id [simp, go_ints]: "int64 x \<Longrightarrow> wrap64 x = x"
  by (simp add: int64_def wrap64_def)

lemma int64_wrap64 [simp, go_ints]: "int64 (wrap64 x)"
  by (simp add: int64_def wrap64_def)

lemma int64_nonneg [go_ints]: "0 \<le> x \<Longrightarrow> x < 2 ^ 63 \<Longrightarrow> int64 x"
  by (simp add: int64_def)

lemma parse_digits_nonneg [go_ints]: "list_all is_digit ds \<Longrightarrow> 0 \<le> parse_digits ds"
proof -
  have "0 \<le> fold (\<lambda>c v. 10 * v + digit_val c) ds v"
    if "list_all is_digit ds" "0 \<le> v" for v
    using that
    by (induction ds arbitrary: v) (auto simp: is_digit_def digit_val_def Let_def)
  then show "list_all is_digit ds \<Longrightarrow> 0 \<le> parse_digits ds"
    by (simp add: parse_digits_def)
qed

lemma int64_ParseInt [go_ints]: "int64 (ParseInt s)"
  using parse_digits_nonneg [of s] parse_digits_nonneg [of "drop 1 s"]
  by (auto simp: ParseInt_def int64_def Let_def)

subsection \<open>Headers\<close>

lemma map_of_filter_ne [simp]: "map_of (filter (\<lambda>(k', _). k' \<noteq> k) h) = (map_of h)(k := None)"
  by (induction h) (auto simp: fun_eq_iff)

lemma Header_Get_Del [simp, go_headers]: "Header_Get (Header_Del h k) k' = (if k' = k then [] else Header_Get h k')"
  by (simp add: Header_Get_def Header_Del_def)

lemma Header_Get_Set [simp, go_headers]: "Header_Get (Header_Set h k v) k' = (if k' = k then v else Header_Get h k')"
  by (simp add: Header_Get_def Header_Set_def Header_Del_def map_add_def split: option.split)

lemma Header_keys_Del [simp, go_headers]: "fst ` set (Header_Del h k) = fst ` set h - {k}"
  by (force simp: Header_Del_def)

end
