(* ===== verification/Http_Types.thy ===== *)
theory Http_Types
  imports Prelude
begin

text \<open>
  The parts of \<open>net/http\<close> and \<open>net/url\<close> values that the proxy reads and writes.

  A parsed URL keeps its scheme and host, which the proxy rewrites, and the decoded path and query
  it inspects. \<open>u_Tail\<close> is the text \<open>URL.String\<close> prints after the host and
  \<open>u_RequestURI\<close> the value of \<open>URL.RequestURI\<close>; both are fixed when the
  request is parsed. User information in URLs is left out.
\<close>

record URL =
  u_Scheme :: string
  u_Host :: string
  u_Path :: string
  u_Query :: "(string \<times> string list) list"
  u_RequestURI :: string
  u_Tail :: string

definition URL_String :: "URL \<Rightarrow> string" where
  "URL_String u =
     (if u_Scheme u = [] then [] else u_Scheme u @ '':'') @
     (if u_Host u = [] then [] else ''//'' @ u_Host u) @ u_Tail u"

text \<open>\<open>URL.Query().Get(key)\<close>.\<close>

definition Query_Get :: "URL \<Rightarrow> string \<Rightarrow> string" where
  "Query_Get u k = (case map_of (u_Query u) k of Some (v # _) \<Rightarrow> v | _ \<Rightarrow> [])"

record Request =
  rq_Method :: string
  rq_URL :: URL
  rq_Host :: string
  rq_Header :: header
  rq_RemoteAddr :: string
  rq_Close :: bool

record 'b Response =
  rs_StatusCode :: int
  rs_Status :: string
  rs_ProtoMajor :: int
  rs_ProtoMinor :: int
  rs_Header :: header
  rs_Body :: 'b
  rs_ContentLength :: int
  rs_Close :: bool

section \<open>Replies of a handler\<close>

text \<open>
  What a handler wrote to its \<open>ResponseWriter\<close>. A value passed to a JSON encoder is kept
  as the value; its text is the business of encoding/json.
\<close>

datatype json =
    JNull
  | JBool bool
  | JNum int
  | JStr string
  | JArr "json list"
  | JObj "(string \<times> json) list"

datatype rbody = BytesBody bytes | JsonBody json

record reply =
  rp_code :: int
  rp_header :: header
  rp_body :: rbody

text \<open>\<open>http.Error\<close> and \<open>http.NotFound\<close>.\<close>

definition httpError :: "bytes \<Rightarrow> int \<Rightarrow> reply" where
  "httpError msg code =
     \<lparr>rp_code = code,
      rp_header = [(''Content-Type'', [''text/plain; charset=utf-8'']), (''X-Content-Type-Options'', [''nosniff''])],
      rp_body = BytesBody (msg @ [CHR 0x0A])\<rparr>"

definition NotFound :: reply where
  "NotFound = httpError ''404 page not found'' 404"

text \<open>The UTF-8 bytes of a source literal that is not ASCII.\<close>

definition utf8 :: "nat list \<Rightarrow> bytes" where
  "utf8 ns = map char_of ns"

end
