(* ===== verification/Scan_Config.thy ===== *)
theory Scan_Config
  imports Prelude
begin

text \<open>
  The runtime scan policy, \<^verbatim>\<open>internal/scan/config.go\<close>: the MIME allowlist, the
  decision whether a Content-Type is scanned, and the size limit in bytes with the 64-bit
  wrap-around of Go's shift.
\<close>

section \<open>Model\<close>

record MimeRule =
  Pattern :: string
  IsPrefix :: bool
  rule_Enabled :: bool

record ScanConfig =
  cfg_Enabled :: bool
  MaxSizeMB :: int
  Rules :: "MimeRule list"

definition MaxSizeBytes :: "ScanConfig \<Rightarrow> int" where
  "MaxSizeBytes c = wrap64 (MaxSizeMB c * 2 ^ 20)"

text \<open>The Content-Type with its parameters cut off, trimmed and in lower case.\<close>

definition mediaType :: "unicode \<Rightarrow> string \<Rightarrow> string" where
  "mediaType u ct =
     (let ct = (case IndexByte ct CHR '';'' of Some i \<Rightarrow> take i ct | None \<Rightarrow> ct)
      in TrimSpace u (ToLower u ct))"

fun scanRules :: "string \<Rightarrow> MimeRule list \<Rightarrow> bool" where
  "scanRules ct [] = False"
| "scanRules ct (r # rs) =
     (if \<not> rule_Enabled r then scanRules ct rs
      else if IsPrefix r then
        (let prefix = TrimSuffix (Pattern r) ''*'' in
         if HasPrefix ct prefix then True else scanRules ct rs)
      else if ct = Pattern r then True
      else scanRules ct rs)"

definition IsScannable :: "unicode \<Rightarrow> ScanConfig \<Rightarrow> string \<Rightarrow> bool" where
  "IsScannable u c ct = (if \<not> cfg_Enabled c then False else scanRules (mediaType u ct) (Rules c))"

abbreviation exactRule :: "string \<Rightarrow> MimeRule" where
  "exactRule p \<equiv> \<lparr>Pattern = p, IsPrefix = False, rule_Enabled = True\<rparr>"

definition DefaultScanConfig :: ScanConfig where
  "DefaultScanConfig = \<lparr>
     cfg_Enabled = True,
     MaxSizeMB = 100,
     Rules = map exactRule
      [''application/zip'',
       ''application/x-zip-compressed'',
       ''application/vnd.rar'',
       ''application/x-7z-compressed'',
       ''application/x-tar'',
       ''application/gzip'',
       ''application/x-bzip2'',
       ''application/x-xz'',
       ''application/x-lzma'',
       ''application/x-lzip'',
       ''application/x-zstd'',
       ''application/x-cab'',
       ''application/vnd.ms-cab-compressed'',
       ''application/x-iso9660-image'',
       ''application/x-apple-diskimage'',
       ''application/octet-stream'',
       ''binary/octet-stream'',
       ''application/x-msdownload'',
       ''application/x-dosexec'',
       ''application/x-executable'',
       ''application/x-msi'',
       ''application/x-ms-installer'',
       ''application/vnd.microsoft.portable-executable'',
       ''application/pdf'',
       ''application/rtf'',
       ''text/rtf'',
       ''application/msword'',
       ''application/vnd.ms-excel'',
       ''application/vnd.ms-powerpoint'',
       ''application/vnd.ms-office'',
       ''application/vnd.openxmlformats-officedocument.wordprocessingml.document'',
       ''application/vnd.openxmlformats-officedocument.spreadsheetml.sheet'',
       ''application/vnd.openxmlformats-officedocument.presentationml.presentation'',
       ''application/java-archive'',
       ''application/x-java-archive'',
       ''application/vnd.android.package-archive'',
       ''message/rfc822'',
       ''application/vnd.ms-outlook'']
      @ [\<lparr>Pattern = ''application/x-*'', IsPrefix = True, rule_Enabled = True\<rparr>]\<rparr>"

section \<open>Specification and correctness\<close>

text \<open>What one rule promises: a wildcard covers every type that extends its stem.\<close>

definition ruleCovers :: "MimeRule \<Rightarrow> string \<Rightarrow> bool" where
  "ruleCovers r ct \<longleftrightarrow>
     rule_Enabled r \<and>
     (if IsPrefix r then \<exists>rest. ct = TrimSuffix (Pattern r) ''*'' @ rest else ct = Pattern r)"

lemma scanRules_iff: "scanRules ct rs \<longleftrightarrow> (\<exists>r \<in> set rs. ruleCovers r ct)"
  by (induction rs) (auto simp: ruleCovers_def HasPrefix_iff Let_def)

lemma mediaType_param:
  assumes "CHR '';'' \<notin> set t"
  shows "mediaType u (t @ CHR '';'' # params) = mediaType u t"
  using assms by (simp add: mediaType_def)

lemma MaxSizeBytes_exact: "0 \<le> MaxSizeMB c \<Longrightarrow> MaxSizeMB c < 2 ^ 43 \<Longrightarrow> MaxSizeBytes c = MaxSizeMB c * 2 ^ 20"
  by (simp add: MaxSizeBytes_def int64_def)

section \<open>Properties\<close>


text \<open>
  The limit in bytes is always a 64-bit value and is the configured number of
  mebibytes exactly below \<open>2 ^ 43\<close>; at \<open>2 ^ 43\<close> the shift wraps to the most
  negative number.
\<close>

lemma MaxSizeBytes_bounds:
  "int64 (MaxSizeBytes c) \<and>
   (0 \<le> MaxSizeMB c \<and> MaxSizeMB c < 2 ^ 43 \<longrightarrow> MaxSizeBytes c = MaxSizeMB c * 2 ^ 20) \<and>
   (MaxSizeMB c = 2 ^ 43 \<longrightarrow> MaxSizeBytes c = - (2 ^ 63))"
proof (intro conjI impI)
  show "int64 (MaxSizeBytes c)" by (simp add: MaxSizeBytes_def)
  show "MaxSizeBytes c = MaxSizeMB c * 2 ^ 20" if "0 \<le> MaxSizeMB c \<and> MaxSizeMB c < 2 ^ 43"
    using that by (simp only: MaxSizeBytes_exact)
  show "MaxSizeBytes c = - (2 ^ 63)" if "MaxSizeMB c = 2 ^ 43"
    using that by (simp add: MaxSizeBytes_def wrap64_def)
qed

end
