(* ===== verification/Clamd.thy ===== *)
theory Clamd
  imports Prelude
begin

text \<open>
  The ClamAV client, \<^verbatim>\<open>internal/scan/clamd.go\<close>: the INSTREAM framing of a byte stream
  and the parsing of clamd's one-line answer, with every error return.

  An \<open>io.Reader\<close> is a finite stream of read results: \<open>Read p r\<close> returns the bytes
  \<open>p\<close> with a nil error and continues as \<open>r\<close>; \<open>Final p e\<close> returns
  \<open>p\<close> with the error \<open>e\<close>, and then \<open>e\<close> with no bytes for ever. The TCP or
  Unix connection to clamd is a parameter: whether dialling succeeds, which of the writes succeed,
  and what comes back for the bytes received.
\<close>

section \<open>Streams\<close>

datatype rerr = EOF | ReadErr

datatype reader = Read bytes reader | Final bytes rerr

fun content :: "reader \<Rightarrow> bytes" where
  "content (Read p r) = p @ content r"
| "content (Final p e) = p"

text \<open>The sequence of reads that drains a stream.\<close>

fun reads :: "reader \<Rightarrow> bytes list" where
  "reads (Read p r) = p # reads r"
| "reads (Final p e) = [p]"

fun ending :: "reader \<Rightarrow> rerr" where
  "ending (Read p r) = ending r"
| "ending (Final p e) = e"

fun chunks_ok :: "nat \<Rightarrow> reader \<Rightarrow> bool" where
  "chunks_ok n (Read p r) = (length p \<le> n \<and> chunks_ok n r)"
| "chunks_ok n (Final p e) = (length p \<le> n)"

lemma concat_reads [simp]: "concat (reads r) = content r"
  by (induction r) auto

section \<open>Model\<close>

record ScanResult =
  Clean :: bool
  ThreatName :: string

datatype scan_error =
    ErrClamdUnavailable
  | ErrWriteCommand
  | ErrStreamWrite
  | ErrStreamRead
  | ErrReadResponse
  | ErrEmptyResponse
  | ErrUnexpectedResponse string

text \<open>The connection: its answer is the bytes clamd sends and whether reading them ends in an error other than EOF.\<close>

record clamd_conn =
  dial_ok :: bool
  write_ok :: "nat \<Rightarrow> bool"
  answer :: "bytes \<Rightarrow> bytes \<times> bool"

text \<open>\<open>binary.BigEndian.PutUint32(lenBuf, uint32(n))\<close>.\<close>

definition putUint32 :: "nat \<Rightarrow> bytes" where
  "putUint32 n =
     (let w = n mod 2 ^ 32 in
      [char_of (w div 2 ^ 24), char_of (w div 2 ^ 16 mod 256), char_of (w div 2 ^ 8 mod 256), char_of (w mod 256)])"

text \<open>
  One iteration's writes for the \<open>n > 0\<close> bytes just read: the length, then the data.
  \<open>k\<close> counts the writes made on the connection so far; \<open>sent\<close> is what they sent.
\<close>

definition writeChunk :: "(nat \<Rightarrow> bool) \<Rightarrow> nat \<Rightarrow> bytes \<Rightarrow> bytes \<Rightarrow> nat \<times> bytes \<times> bool" where
  "writeChunk ok k sent p =
     (if p = [] then (k, sent, True)
      else if \<not> ok k then (Suc k, sent, False)
      else if \<not> ok (Suc k) then (Suc (Suc k), sent @ putUint32 (length p), False)
      else (Suc (Suc k), sent @ putUint32 (length p) @ p, True))"

text \<open>
  \<open>streamToClamd\<close>: the bytes sent, the reads made from \<open>r\<close>, what is left of
  \<open>r\<close>, and the error.
\<close>

fun streamToClamd :: "(nat \<Rightarrow> bool) \<Rightarrow> nat \<Rightarrow> bytes \<Rightarrow> bytes list \<Rightarrow> reader \<Rightarrow>
    bytes \<times> bytes list \<times> reader \<times> scan_error option" where
  "streamToClamd ok k sent got (Read p r) =
     (let (k', sent', w) = writeChunk ok k sent p in
      if \<not> w then (sent', got @ [p], r, Some ErrStreamWrite)
      else streamToClamd ok k' sent' (got @ [p]) r)"
| "streamToClamd ok k sent got (Final p e) =
     (let (k', sent', w) = writeChunk ok k sent p in
      if \<not> w then (sent', got @ [p], Final [] e, Some ErrStreamWrite)
      else (case e of
              ReadErr \<Rightarrow> (sent', got @ [p], Final [] e, Some ErrStreamRead)
            | EOF \<Rightarrow>
                if ok k' then (sent' @ putUint32 0, got @ [p], Final [] e, None)
                else (sent', got @ [p], Final [] e, Some ErrStreamWrite)))"

text \<open>
  The first token of a \<open>bufio.Scanner\<close> with its default line splitting and buffer of
  64 KiB; \<open>None\<close> when \<open>Scan\<close> returns false.
\<close>

definition scanLine :: "bytes \<Rightarrow> string option" where
  "scanLine s =
     (let line = takeWhile (\<lambda>c. c \<noteq> CHR 0x0A) s in
      if s = [] then None
      else if 65536 \<le> length line then None
      else Some (if line \<noteq> [] \<and> last line = CHR 0x0D then butlast line else line))"

definition readClamdResult :: "bytes \<times> bool \<Rightarrow> scan_error + ScanResult" where
  "readClamdResult a =
     (case scanLine (fst a) of
        None \<Rightarrow>
          if snd a \<or> fst a \<noteq> [] then Inl ErrReadResponse else Inl ErrEmptyResponse
      | Some line \<Rightarrow>
          if line = ''stream: OK'' then Inr \<lparr>Clean = True, ThreatName = []\<rparr>
          else if HasSuffix line '' FOUND'' then
            (let threat = TrimPrefix line ''stream: '';
                 threat = TrimSuffix threat '' FOUND''
             in Inr \<lparr>Clean = False, ThreatName = threat\<rparr>)
          else Inl (ErrUnexpectedResponse line))"

text \<open>\<open>ScanReader\<close>: the reads it made from \<open>r\<close>, what is left of \<open>r\<close>, and its result.\<close>

type_synonym scan_outcome = "bytes list \<times> reader \<times> (scan_error + ScanResult)"

definition ScanReader :: "clamd_conn \<Rightarrow> reader \<Rightarrow> scan_outcome" where
  "ScanReader cn r =
     (if \<not> dial_ok cn then ([], r, Inl ErrClamdUnavailable)
      else if \<not> write_ok cn 0 then ([], r, Inl ErrWriteCommand)
      else
        (let (sent, got, rest, err) = streamToClamd (write_ok cn) 1 (''nINSTREAM'' @ [CHR 0x0A]) [] r in
         case err of
           Some e \<Rightarrow> (got, rest, Inl e)
         | None \<Rightarrow> (got, rest, readClamdResult (answer cn sent))))"

section \<open>A reference decoder for INSTREAM\<close>

text \<open>
  What clamd does with the bytes after the command: read a length, stop at zero, else take that
  many bytes. \<open>None\<close> is a truncated stream.
\<close>

definition getUint32 :: "bytes \<Rightarrow> nat" where
  "getUint32 b =
     of_char (b ! 0) * 2 ^ 24 + of_char (b ! 1) * 2 ^ 16 + of_char (b ! 2) * 2 ^ 8 + of_char (b ! 3)"

function decodeInstream :: "bytes \<Rightarrow> bytes option" where
  "decodeInstream s =
     (if length s < 4 then None
      else (let n = getUint32 s; rest = drop 4 s in
            if n = 0 then (if rest = [] then Some [] else None)
            else if length rest < n then None
            else map_option ((@) (take n rest)) (decodeInstream (drop n rest))))"
  by pat_completeness auto
termination
  by (relation "measure length") auto

declare decodeInstream.simps [simp del]

section \<open>The interface of a scanning backend\<close>

text \<open>
  What \<open>runScan\<close> relies on of a \<open>Scanner\<close> (\<^verbatim>\<open>internal/scan/manager.go\<close>):
  it makes some reads of the stream and leaves the rest, and when it returns a verdict it has read
  the stream to EOF.
\<close>

locale scan_backend =
  fixes scan :: "reader \<Rightarrow> scan_outcome"
  assumes scan_splits: "scan r = (got, rest, res) \<Longrightarrow> content r = concat got @ content rest"
    and scan_reads: "scan r = (got, rest, res) \<Longrightarrow> take (length got) (reads r) = got"
    and scan_keeps_ending: "scan r = (got, rest, res) \<Longrightarrow> ending rest = ending r"
    and scan_verdict_complete: "scan r = (got, rest, Inr v) \<Longrightarrow> content rest = [] \<and> ending r = EOF"
begin

lemma scan_verdict_reads_all: "scan r = (got, rest, Inr v) \<Longrightarrow> concat got = content r"
  using scan_splits scan_verdict_complete by fastforce

end

section \<open>The client implements it\<close>

lemma streamToClamd_splits:
  "streamToClamd ok k sent got r = (s, g, rest, e) \<Longrightarrow>
     concat g @ content rest = concat got @ content r \<and> ending rest = ending r"
  by (induction ok k sent got r rule: streamToClamd.induct)
     (auto simp: Let_def split: prod.splits if_splits rerr.splits)

lemma streamToClamd_reads:
  "streamToClamd ok k sent got r = (s, g, rest, e) \<Longrightarrow> \<exists>new. g = got @ new \<and> take (length new) (reads r) = new"
proof (induction r arbitrary: k sent got)
  case (Read p r)
  obtain k' sent' w where w: "writeChunk ok k sent p = (k', sent', w)"
    by (cases "writeChunk ok k sent p")
  show ?case
  proof (cases w)
    case True
    with Read.prems w have "streamToClamd ok k' sent' (got @ [p]) r = (s, g, rest, e)" by simp
    then obtain new where "g = (got @ [p]) @ new" "take (length new) (reads r) = new"
      using Read.IH by blast
    then show ?thesis by (intro exI [of _ "p # new"]) simp
  next
    case False
    with Read.prems w show ?thesis by (intro exI [of _ "[p]"]) simp
  qed
next
  case (Final p e')
  then show ?case
    by (intro exI [of _ "[p]"]) (auto simp: Let_def split: prod.splits if_splits rerr.splits)
qed

lemma streamToClamd_ok_complete:
  "streamToClamd ok k sent got r = (s, g, rest, None) \<Longrightarrow> content rest = [] \<and> ending r = EOF"
  by (induction ok k sent got r rule: streamToClamd.induct)
     (auto simp: Let_def split: prod.splits if_splits rerr.splits)

interpretation clamd: scan_backend "ScanReader cn" for cn
proof unfold_locales
  fix r got rest res
  assume scan: "ScanReader cn r = (got, rest, res)"
  then show "content r = concat got @ content rest" "ending rest = ending r"
    by (auto simp: ScanReader_def Let_def dest: streamToClamd_splits
        split: if_splits prod.splits option.splits)
  show "take (length got) (reads r) = got"
    using scan by (auto simp: ScanReader_def Let_def dest!: streamToClamd_reads
        split: if_splits prod.splits option.splits)
next
  fix r got rest v
  assume "ScanReader cn r = (got, rest, Inr v)"
  then show "content rest = [] \<and> ending r = EOF"
    by (auto simp: ScanReader_def Let_def dest: streamToClamd_ok_complete
        split: if_splits prod.splits option.splits)
qed

section \<open>Framing\<close>

fun frames :: "reader \<Rightarrow> bytes" where
  "frames (Read p r) = (if p = [] then [] else putUint32 (length p) @ p) @ frames r"
| "frames (Final p e) = (if p = [] then [] else putUint32 (length p) @ p) @ putUint32 0"

lemma streamToClamd_frames:
  "streamToClamd ok k sent got r = (s, g, rest, None) \<Longrightarrow> s = sent @ frames r"
  by (induction ok k sent got r rule: streamToClamd.induct)
     (auto simp: Let_def writeChunk_def split: prod.splits if_splits rerr.splits)

lemma streamToClamd_all_writes_ok:
  assumes "\<And>i. ok i" "ending r = EOF"
  shows "streamToClamd ok k sent got r = (sent @ frames r, got @ reads r, Final [] EOF, None)"
  using assms(2)
  by (induction r arbitrary: k sent got) (simp_all add: assms(1) writeChunk_def)

lemma length_putUint32 [simp]: "length (putUint32 n) = 4"
  by (simp add: putUint32_def Let_def)

lemma getUint32_put:
  assumes "n < 2 ^ 32"
  shows "getUint32 (putUint32 n @ s) = n"
proof -
  define a where "a = n div 256"
  define b where "b = a div 256"
  define c where "c = b div 256"
  have divs: "n div 2 ^ 8 = a" "n div 2 ^ 16 = b" "n div 2 ^ 24 = c"
    by (simp_all add: a_def b_def c_def div_mult2_eq [symmetric])
  have c: "c < 256"
    using assms by (simp add: c_def b_def a_def div_mult2_eq [symmetric] less_mult_imp_div_less)
  have "n = 256 * (256 * (256 * c + b mod 256) + a mod 256) + n mod 256"
    by (simp add: a_def b_def c_def)
  then have n: "c * 2 ^ 24 + b mod 256 * 2 ^ 16 + a mod 256 * 2 ^ 8 + n mod 256 = n"
    by simp
  have w: "n mod 2 ^ 32 = n"
    using assms by simp
  show ?thesis
    using c n by (simp add: getUint32_def putUint32_def Let_def w divs del: power_numeral)
qed

lemma decodeInstream_frame:
  assumes "p \<noteq> []" "length p < 2 ^ 32"
  shows "decodeInstream (putUint32 (length p) @ p @ s) = map_option ((@) p) (decodeInstream s)"
  using assms
  by (subst decodeInstream.simps) (simp add: getUint32_put Let_def)

lemma decodeInstream_end: "decodeInstream (putUint32 0) = Some []"
  using getUint32_put [of 0 "[]"] by (subst decodeInstream.simps) (simp add: Let_def)

lemma decodeInstream_frames:
  "chunks_ok n r \<Longrightarrow> n < 2 ^ 32 \<Longrightarrow> decodeInstream (frames r) = Some (content r)"
  by (induction r) (auto simp: decodeInstream_frame decodeInstream_end)

section \<open>Properties\<close>

text \<open>
  Property C21. INSTREAM round trip: when every write succeeds and the body ends in EOF, clamd
  decodes exactly the body from what the client sent after the command, for reads of at most 4096
  bytes, and the answer is then read from the same connection.
\<close>

theorem instream_roundtrip:
  assumes "dial_ok cn" "\<And>i. write_ok cn i" "ending r = EOF" "chunks_ok 4096 r"
  shows "\<exists>sent. decodeInstream sent = Some (content r) \<and>
           ScanReader cn r = (reads r, Final [] EOF, readClamdResult (answer cn (''nINSTREAM'' @ [CHR 0x0A] @ sent)))"
proof (intro exI conjI)
  show "decodeInstream (frames r) = Some (content r)"
    using decodeInstream_frames [OF assms(4)] by simp
  show "ScanReader cn r =
      (reads r, Final [] EOF, readClamdResult (answer cn (''nINSTREAM'' @ [CHR 0x0A] @ frames r)))"
    by (simp add: ScanReader_def assms(1,2) streamToClamd_all_writes_ok [where ok = "write_ok cn", OF assms(2,3)])
qed

theorem instream_roundtrip_witness:
  "\<exists>sent. decodeInstream sent = Some ''abc'' \<and>
     ScanReader \<lparr>dial_ok = True, write_ok = \<lambda>_. True, answer = \<lambda>_. (''stream: OK'', False)\<rparr> (Read ''ab'' (Final ''c'' EOF)) =
       ([''ab'', ''c''], Final [] EOF, Inr \<lparr>Clean = True, ThreatName = []\<rparr>)"
  using instream_roundtrip [of "\<lparr>dial_ok = True, write_ok = \<lambda>_. True, answer = \<lambda>_. (''stream: OK'', False)\<rparr>"
      "Read ''ab'' (Final ''c'' EOF)"]
  by (simp add: readClamdResult_def scanLine_def)

text \<open>
  A clean verdict needs the exact answer line \<open>stream: OK\<close> and a body read
  to EOF; an infected one carries the text between \<open>stream: \<close> and \<open> FOUND\<close> as
  the threat. No error on the way yields a verdict.
\<close>

lemma ScanReader_verdict:
  assumes "ScanReader cn r = (got, rest, Inr v)"
  shows "concat got = content r \<and> ending r = EOF \<and>
         (\<exists>sent line. scanLine (fst (answer cn sent)) = Some line \<and>
            (Clean v \<longleftrightarrow> line = ''stream: OK'') \<and>
            (\<not> Clean v \<longrightarrow> HasSuffix line '' FOUND'' \<and>
               (\<forall>name. line = ''stream: '' @ name @ '' FOUND'' \<longrightarrow> ThreatName v = name)))"
proof -
  obtain sent where "readClamdResult (answer cn sent) = Inr v"
    using assms by (auto simp: ScanReader_def Let_def split: if_splits prod.splits option.splits)
  then obtain line where line: "scanLine (fst (answer cn sent)) = Some line"
      "line = ''stream: OK'' \<and> v = \<lparr>Clean = True, ThreatName = []\<rparr> \<or>
       line \<noteq> ''stream: OK'' \<and> HasSuffix line '' FOUND'' \<and>
         v = \<lparr>Clean = False, ThreatName = TrimSuffix (TrimPrefix line ''stream: '') '' FOUND''\<rparr>"
    by (auto simp: readClamdResult_def Let_def split: option.splits if_splits)
  moreover have "TrimSuffix (TrimPrefix (''stream: '' @ name @ '' FOUND'') ''stream: '') '' FOUND'' = name" for name
    unfolding TrimPrefix_append TrimSuffix_append ..
  ultimately have "(Clean v \<longleftrightarrow> line = ''stream: OK'') \<and>
      (\<not> Clean v \<longrightarrow> HasSuffix line '' FOUND'' \<and>
         (\<forall>name. line = ''stream: '' @ name @ '' FOUND'' \<longrightarrow> ThreatName v = name))"
    by fastforce
  with line(1) show ?thesis
    using clamd.scan_verdict_reads_all [OF assms] clamd.scan_verdict_complete [OF assms] by blast
qed

end
