(* ===== verification/Counted_Map.thy ===== *)
theory Counted_Map
  imports Prelude
begin

text \<open>
  The in-memory caches of the proxy (scan results in \<^verbatim>\<open>internal/scan/cache.go\<close>, leaf
  certificates in \<^verbatim>\<open>internal/cert/leaf.go\<close>) are built the same way: a
  \<open>sync.Map\<close> beside an atomic counter of its entries, a cap on the counter, deletion of
  an expired entry at lookup, and a sweep over all entries. This theory models that pair and its
  primitive operations. A \<open>sync.Map\<close> is an association list with distinct keys, in the
  order one \<open>Range\<close> visits it.

  The locale \<open>capped_cache\<close> is the contract of a store operation that respects the
  counter; each cache interprets it with its own \<open>storeMem\<close>.
\<close>

type_synonym 'v cmap = "(string \<times> 'v) list \<times> int"

definition cm_Load :: "string \<Rightarrow> 'v cmap \<Rightarrow> 'v option" where
  "cm_Load k s = map_of (fst s) k"

definition cm_Delete :: "string \<Rightarrow> 'v cmap \<Rightarrow> 'v cmap" where
  "cm_Delete k s = (filter (\<lambda>(k', _). k' \<noteq> k) (fst s), snd s)"

definition cm_Store :: "string \<Rightarrow> 'v \<Rightarrow> 'v cmap \<Rightarrow> 'v cmap" where
  "cm_Store k v s = ((k, v) # fst (cm_Delete k s), snd s)"

definition cm_Add :: "int \<Rightarrow> 'v cmap \<Rightarrow> 'v cmap" where
  "cm_Add d s = (fst s, snd s + d)"

text \<open>Delete an entry that was just loaded and count it out.\<close>

definition cm_Drop :: "string \<Rightarrow> 'v cmap \<Rightarrow> 'v cmap" where
  "cm_Drop k s = cm_Add (-1) (cm_Delete k s)"

text \<open>A sweep: \<open>Range\<close> with \<open>Delete\<close> and \<open>Add(-1)\<close> on the expired entries.\<close>

definition cm_Evict :: "('v \<Rightarrow> bool) \<Rightarrow> 'v cmap \<Rightarrow> 'v cmap" where
  "cm_Evict expired s = fold (\<lambda>(k, v) s. if expired v then cm_Drop k s else s) (fst s) s"

section \<open>The counter is the number of entries\<close>

definition counted :: "'v cmap \<Rightarrow> bool" where
  "counted s \<longleftrightarrow> distinct (map fst (fst s)) \<and> snd s = int (length (fst s))"

lemma filter_key_absent: "k \<notin> fst ` set m \<Longrightarrow> filter (\<lambda>(k', _). k' \<noteq> k) m = m"
  by (induction m) auto

lemma length_filter_key:
  "distinct (map fst m) \<Longrightarrow> map_of m k = Some v \<Longrightarrow>
     Suc (length (filter (\<lambda>(k', _). k' \<noteq> k) m)) = length m"
proof (induction m)
  case (Cons a m)
  show ?case
  proof (cases "fst a = k")
    case True
    with Cons.prems(1) have "filter (\<lambda>(k', _). k' \<noteq> k) m = m"
      by (intro filter_key_absent) simp
    with True show ?thesis by (cases a) simp
  next
    case False
    with Cons show ?thesis by (cases a) auto
  qed
qed simp

lemma distinct_filter_key: "distinct (map fst m) \<Longrightarrow> distinct (map fst (filter P m))"
  by (rule distinct_map_filter)

lemma cm_Load_Drop [simp]: "cm_Load k' (cm_Drop k s) = (if k' = k then None else cm_Load k' s)"
  by (simp add: cm_Load_def cm_Drop_def cm_Add_def cm_Delete_def)

lemma cm_Load_Add [simp]: "cm_Load k' (cm_Add d s) = cm_Load k' s"
  by (simp add: cm_Load_def cm_Add_def)

lemma cm_Load_Store [simp]: "cm_Load k' (cm_Store k v s) = (if k' = k then Some v else cm_Load k' s)"
  by (simp add: cm_Load_def cm_Store_def cm_Delete_def)

lemma counted_Drop: "counted s \<Longrightarrow> cm_Load k s = Some v \<Longrightarrow> counted (cm_Drop k s)"
  using length_filter_key [of "fst s" k v]
  by (auto simp: counted_def cm_Drop_def cm_Add_def cm_Delete_def cm_Load_def distinct_filter_key)

lemma size_Drop: "length (fst (cm_Drop k s)) \<le> length (fst s)"
  by (simp add: cm_Drop_def cm_Add_def cm_Delete_def)

lemma counted_Store_new:
  assumes "counted s" "cm_Load k s = None"
  shows "counted (cm_Add 1 (cm_Store k v s))"
proof -
  have "filter (\<lambda>(k', _). k' \<noteq> k) (fst s) = fst s"
    using assms(2) by (intro filter_key_absent) (simp add: cm_Load_def map_of_eq_None_iff)
  with assms show ?thesis
    by (auto simp: counted_def cm_Add_def cm_Store_def cm_Delete_def cm_Load_def map_of_eq_None_iff)
qed

lemma cm_Evict_aux:
  assumes "counted s" "distinct (map fst todo)" "set todo \<subseteq> set (fst s)"
  shows "counted (fold (\<lambda>(k, v) s. if expired v then cm_Drop k s else s) todo s) \<and>
         length (fst (fold (\<lambda>(k, v) s. if expired v then cm_Drop k s else s) todo s)) \<le> length (fst s) \<and>
         cm_Load key (fold (\<lambda>(k, v) s. if expired v then cm_Drop k s else s) todo s) =
           (if \<exists>v. (key, v) \<in> set todo \<and> expired v then None else cm_Load key s)"
  using assms
proof (induction todo arbitrary: s)
  case (Cons a todo)
  obtain k v where a: "a = (k, v)" by (cases a)
  have load: "cm_Load k s = Some v"
    using Cons.prems a by (auto simp: cm_Load_def counted_def)
  show ?case
  proof (cases "expired v")
    case True
    have sub: "set todo \<subseteq> set (fst (cm_Drop k s))"
      using Cons.prems a by (force simp: cm_Drop_def cm_Add_def cm_Delete_def)
    have d: "counted (cm_Drop k s)"
      using Cons.prems(1) load by (rule counted_Drop)
    show ?thesis
      using Cons.IH [OF d _ sub] Cons.prems(2) True a size_Drop [of k s]
      by (auto split: if_splits)
  next
    case False
    have "\<not> (\<exists>w. (k, w) \<in> set todo)"
      using Cons.prems(2) a by force
    then show ?thesis
      using Cons.IH [OF Cons.prems(1)] Cons.prems(2,3) False a by auto
  qed
qed simp

lemma counted_Evict: "counted s \<Longrightarrow> counted (cm_Evict p s)"
  using cm_Evict_aux [of s "fst s" p] by (simp add: cm_Evict_def counted_def)

lemma size_Evict: "counted s \<Longrightarrow> length (fst (cm_Evict p s)) \<le> length (fst s)"
  using cm_Evict_aux [of s "fst s" p] by (simp add: cm_Evict_def counted_def)

lemma cm_Load_Evict:
  assumes "counted s"
  shows "cm_Load k (cm_Evict p s) = (case cm_Load k s of Some v \<Rightarrow> if p v then None else Some v | None \<Rightarrow> None)"
proof -
  have "distinct (map fst (fst s))"
    using assms by (simp add: counted_def)
  then have "(\<exists>v. (k, v) \<in> set (fst s) \<and> p v) \<longleftrightarrow> (\<exists>v. cm_Load k s = Some v \<and> p v)"
    by (auto simp: cm_Load_def)
  then show ?thesis
    using cm_Evict_aux [of s "fst s" p k] assms
    by (auto simp: cm_Evict_def counted_def split: option.splits)
qed

section \<open>The contract of a capped store\<close>

locale capped_cache =
  fixes cap :: int
    and put :: "string \<Rightarrow> 'v \<Rightarrow> 'v cmap \<Rightarrow> 'v cmap"
  assumes put_counted: "counted s \<Longrightarrow> cm_Load k s = None \<Longrightarrow> counted (put k v s)"
    and put_full: "cap \<le> snd s \<Longrightarrow> put k v s = s"
    and put_size: "snd s < cap \<Longrightarrow> snd (put k v s) \<le> snd s + 1"
    and put_loads: "snd s < cap \<Longrightarrow> cm_Load k s = None \<Longrightarrow> cm_Load k (put k v s) = Some v"
    and put_others: "k' \<noteq> k \<Longrightarrow> cm_Load k' (put k v s) = cm_Load k' s"
begin

definition within :: "'v cmap \<Rightarrow> bool" where
  "within s \<longleftrightarrow> counted s \<and> snd s \<le> max 0 cap"

lemma within_put: "within s \<Longrightarrow> cm_Load k s = None \<Longrightarrow> within (put k v s)"
  using put_counted [of s k v] put_full [of s k v] put_size [of s k v]
  by (cases "cap \<le> snd s") (auto simp: within_def)

lemma within_Drop: "within s \<Longrightarrow> cm_Load k s = Some v \<Longrightarrow> within (cm_Drop k s)"
  using counted_Drop [of s k v] size_Drop [of k s] by (auto simp: within_def counted_def)

lemma within_Evict: "within s \<Longrightarrow> within (cm_Evict p s)"
  using counted_Evict [of s p] size_Evict [of s p] by (auto simp: within_def counted_def)

lemma within_entries: "within s \<Longrightarrow> int (length (fst s)) \<le> max 0 cap"
  by (simp add: within_def counted_def)

end

end
