(* ===== verification/Result_Cache.thy ===== *)
theory Result_Cache
  imports Counted_Map
begin

text \<open>
  The scan result cache, \<^verbatim>\<open>internal/scan/cache.go\<close>: verdicts by URL and by content hash,
  in memory behind a capped counter and, when a Redis client is configured, in Redis.

  Redis, SHA-256 and the JSON codec are parameters: a Redis lookup is the reply function
  \<open>rget\<close> consulted by \<open>cache_get\<close>, and \<open>Store\<close> returns the SET
  commands it issues. Times and durations are integers on one clock; the clock readings of one
  operation are taken as one instant. Operations on the shared maps are modelled first as
  sequential functions, then \<open>cache_step\<close> splits \<open>get\<close> and \<open>storeMem\<close>
  into the atomic map and counter accesses that goroutines interleave.
\<close>

section \<open>Model\<close>

text \<open>\<open>ScanStatus\<close> is an \<open>int\<close> in Go: \<open>StatusOther\<close> is a value outside the six constants (only a foreign Redis payload can hold one).\<close>

datatype ScanStatus =
    StatusPending
  | StatusScanning
  | StatusClean
  | StatusInfected
  | StatusError
  | StatusTooLarge
  | StatusOther int

record cachedScanEntry =
  pay_Status :: ScanStatus
  pay_ThreatName :: string

record cacheEntry =
  ce_status :: ScanStatus
  ce_threatName :: string
  ce_expiresAt :: int

text \<open>Each map carries its counter (\<open>byURL\<close> with \<open>urlCount\<close>, \<open>byHash\<close> with \<open>hashCount\<close>).\<close>

record ResultCache =
  byURL :: "cacheEntry cmap"
  byHash :: "cacheEntry cmap"
  urlTTL :: int
  hashTTL :: int
  maxEntries :: int
  has_rdb :: bool

record json_codec =
  marshal :: "cachedScanEntry \<Rightarrow> bytes"
  unmarshal :: "bytes \<Rightarrow> cachedScanEntry option"

datatype redis_reply = RedisNil | RedisError | RedisBytes bytes

datatype redis_set = RedisSet (rs_key: string) (rs_payload: bytes) (rs_ttl: int)

definition redisPrefixURL :: string where "redisPrefixURL = ''scan:url:''"

definition redisPrefixHash :: string where "redisPrefixHash = ''scan:hash:''"

definition NewResultCache :: "int \<Rightarrow> int \<Rightarrow> int \<Rightarrow> bool \<Rightarrow> ResultCache" where
  "NewResultCache uttl httl maxE rdb =
     \<lparr>byURL = ([], 0), byHash = ([], 0), urlTTL = uttl, hashTTL = httl, maxEntries = maxE, has_rdb = rdb\<rparr>"

text \<open>\<open>fmt.Sprintf("%x", b)\<close> on a byte sequence.\<close>

definition hexEncode :: "bytes \<Rightarrow> string" where
  "hexEncode b = concat (map (\<lambda>c. let n = (of_char c :: nat) in [digit_char (n div 16), digit_char (n mod 16)]) b)"

definition sha256Hex :: "(bytes \<Rightarrow> bytes) \<Rightarrow> string \<Rightarrow> string" where
  "sha256Hex sha s = hexEncode (sha s)"

definition storeMem :: "int \<Rightarrow> int \<Rightarrow> string \<Rightarrow> ScanStatus \<Rightarrow> string \<Rightarrow> int \<Rightarrow> cacheEntry cmap \<Rightarrow> cacheEntry cmap" where
  "storeMem maxE now key status threat ttl m =
     (if maxE \<le> snd m then m
      else (case cm_Load key m of
              Some _ \<Rightarrow> m
            | None \<Rightarrow>
                cm_Add 1 (cm_Store key \<lparr>ce_status = status, ce_threatName = threat, ce_expiresAt = now + ttl\<rparr> m)))"

definition cache_get :: "json_codec \<Rightarrow> bool \<Rightarrow> (string \<Rightarrow> redis_reply) \<Rightarrow> int \<Rightarrow> int \<Rightarrow> string \<Rightarrow> string \<Rightarrow> int \<Rightarrow>
    cacheEntry cmap \<Rightarrow> cacheEntry cmap \<times> (ScanStatus \<times> string) option" where
  "cache_get codec rdb rget maxE now key pfx ttl m =
     (let remote = (\<lambda>m.
        if \<not> rdb then (m, None)
        else (case rget (pfx @ key) of
                RedisBytes val \<Rightarrow>
                  (case unmarshal codec val of
                     Some p \<Rightarrow> (storeMem maxE now key (pay_Status p) (pay_ThreatName p) ttl m,
                                Some (pay_Status p, pay_ThreatName p))
                   | None \<Rightarrow> (m, None))
              | _ \<Rightarrow> (m, None)))
      in case cm_Load key m of
           Some e \<Rightarrow>
             if now < ce_expiresAt e then (m, Some (ce_status e, ce_threatName e))
             else remote (cm_Drop key m)
         | None \<Rightarrow> remote m)"

definition GetByURL :: "(bytes \<Rightarrow> bytes) \<Rightarrow> json_codec \<Rightarrow> (string \<Rightarrow> redis_reply) \<Rightarrow> int \<Rightarrow> ResultCache \<Rightarrow> string \<Rightarrow>
    ResultCache \<times> (ScanStatus \<times> string) option" where
  "GetByURL sha codec rget now c rawURL =
     (let (m, r) = cache_get codec (has_rdb c) rget (maxEntries c) now (sha256Hex sha rawURL) redisPrefixURL (urlTTL c) (byURL c)
      in (c\<lparr>byURL := m\<rparr>, r))"

definition GetByHash :: "json_codec \<Rightarrow> (string \<Rightarrow> redis_reply) \<Rightarrow> int \<Rightarrow> ResultCache \<Rightarrow> bytes \<Rightarrow>
    ResultCache \<times> (ScanStatus \<times> string) option" where
  "GetByHash codec rget now c contentHash =
     (let (m, r) = cache_get codec (has_rdb c) rget (maxEntries c) now (hexEncode contentHash) redisPrefixHash (hashTTL c) (byHash c)
      in (c\<lparr>byHash := m\<rparr>, r))"

definition Store :: "(bytes \<Rightarrow> bytes) \<Rightarrow> json_codec \<Rightarrow> int \<Rightarrow> ResultCache \<Rightarrow> string \<Rightarrow> bytes \<Rightarrow> ScanStatus \<Rightarrow> string \<Rightarrow>
    ResultCache \<times> redis_set list" where
  "Store sha codec now c rawURL contentHash status threat =
     (if status \<noteq> StatusClean \<and> status \<noteq> StatusInfected then (c, [])
      else
        (let urlKey = sha256Hex sha rawURL;
             hashKey = hexEncode contentHash;
             payload = marshal codec \<lparr>pay_Status = status, pay_ThreatName = threat\<rparr>;
             c = c\<lparr>byURL := storeMem (maxEntries c) now urlKey status threat (urlTTL c) (byURL c)\<rparr>;
             c = c\<lparr>byHash := storeMem (maxEntries c) now hashKey status threat (hashTTL c) (byHash c)\<rparr>
         in (c, if has_rdb c
                then [RedisSet (redisPrefixURL @ urlKey) payload (urlTTL c), RedisSet (redisPrefixHash @ hashKey) payload (hashTTL c)]
                else [])))"

definition evict :: "int \<Rightarrow> cacheEntry cmap \<Rightarrow> cacheEntry cmap" where
  "evict now m = cm_Evict (\<lambda>e. ce_expiresAt e < now) m"

text \<open>One tick of the goroutine of \<open>StartCleanup\<close>.\<close>

definition cleanupTick :: "int \<Rightarrow> ResultCache \<Rightarrow> ResultCache" where
  "cleanupTick now c = c\<lparr>byURL := evict now (byURL c), byHash := evict now (byHash c)\<rparr>"

definition mergeResults :: "ScanStatus \<Rightarrow> string \<Rightarrow> ScanStatus \<Rightarrow> string \<Rightarrow> ScanStatus \<times> string" where
  "mergeResults aStatus aThreat bStatus bThreat =
     (if aStatus = StatusInfected then (StatusInfected, aThreat)
      else if bStatus = StatusInfected then (StatusInfected, bThreat)
      else (aStatus, aThreat))"

section \<open>Sequential behaviour\<close>

abbreviation verdict :: "ScanStatus \<Rightarrow> bool" where
  "verdict st \<equiv> st = StatusClean \<or> st = StatusInfected"

text \<open>A map holds verdicts only.\<close>

definition verdicts_only :: "cacheEntry cmap \<Rightarrow> bool" where
  "verdicts_only m \<longleftrightarrow> (\<forall>k e. cm_Load k m = Some e \<longrightarrow> verdict (ce_status e))"

interpretation mem: capped_cache maxE
  "\<lambda>k e. storeMem maxE (ce_expiresAt e) k (ce_status e) (ce_threatName e) 0" for maxE
proof unfold_locales
  fix s :: "cacheEntry cmap" and k k' :: string and v :: cacheEntry
  let ?put = "storeMem maxE (ce_expiresAt v) k (ce_status v) (ce_threatName v) 0 s"
  show "counted ?put" if "counted s" "cm_Load k s = None"
    using that counted_Store_new [OF that] by (simp add: storeMem_def)
  show "?put = s" if "maxE \<le> snd s"
    using that by (simp add: storeMem_def)
  show "snd ?put \<le> snd s + 1" if "snd s < maxE"
    by (simp add: storeMem_def cm_Add_def cm_Store_def cm_Delete_def split: option.split)
  show "cm_Load k ?put = Some v" if "snd s < maxE" "cm_Load k s = None"
    using that by (simp add: storeMem_def)
  show "cm_Load k' ?put = cm_Load k' s" if "k' \<noteq> k"
    using that by (simp add: storeMem_def split: option.split)
qed

lemma storeMem_put: "storeMem maxE now k st th ttl m = storeMem maxE (now + ttl) k st th 0 m"
  by (simp add: storeMem_def split: option.split)

lemma storeMem_present: "cm_Load k m = Some e \<Longrightarrow> storeMem maxE now k st th ttl m = m"
  by (simp add: storeMem_def)

lemma within_storeMem:
  assumes "mem.within maxE m"
  shows "mem.within maxE (storeMem maxE now k st th ttl m)"
proof (cases "cm_Load k m")
  case None
  have "mem.within maxE (storeMem maxE (now + ttl) k st th 0 m)"
    using mem.within_put [OF assms None, of "\<lparr>ce_status = st, ce_threatName = th, ce_expiresAt = now + ttl\<rparr>"]
    by simp
  then show ?thesis by (subst storeMem_put)
qed (simp add: storeMem_present assms)

lemma verdicts_only_storeMem:
  "verdicts_only m \<Longrightarrow> verdict st \<Longrightarrow> verdicts_only (storeMem maxE now k st th ttl m)"
  by (auto simp: verdicts_only_def storeMem_def split: option.splits)

lemma verdicts_only_Drop: "verdicts_only m \<Longrightarrow> verdicts_only (cm_Drop k m)"
  by (auto simp: verdicts_only_def)

text \<open>Redis holds payloads of this cache only: what it returns decodes, if at all, to a verdict.\<close>

definition redis_trusted :: "json_codec \<Rightarrow> (string \<Rightarrow> redis_reply) \<Rightarrow> bool" where
  "redis_trusted codec rget \<longleftrightarrow>
     (\<forall>k b p. rget k = RedisBytes b \<longrightarrow> unmarshal codec b = Some p \<longrightarrow> verdict (pay_Status p))"

lemma cache_get_within:
  assumes "mem.within maxE m" "cache_get codec rdb rget maxE now k pfx ttl m = (m', r)"
  shows "mem.within maxE m'"
proof -
  have drop: "mem.within maxE (cm_Drop k m)" if "cm_Load k m = Some e" for e
    using assms(1) that by (rule mem.within_Drop)
  show ?thesis
    using assms drop
    by (auto simp: cache_get_def Let_def within_storeMem
        split: option.splits if_splits redis_reply.splits)
qed

lemma cache_get_verdicts:
  assumes "verdicts_only m" "redis_trusted codec rget"
    and "cache_get codec rdb rget maxE now k pfx ttl m = (m', r)"
  shows "verdicts_only m' \<and> (\<forall>st th. r = Some (st, th) \<longrightarrow> verdict st)"
proof -
  have remote: "verdict (pay_Status p)" if "rget (pfx @ k) = RedisBytes b" "unmarshal codec b = Some p" for b p
    using assms(2) that by (auto simp: redis_trusted_def)
  have hit: "verdict (ce_status e)" if "cm_Load k m = Some e" for e
    using assms(1) that by (auto simp: verdicts_only_def)
  show ?thesis
    using assms(1,3) remote hit
    by (auto simp: cache_get_def Let_def verdicts_only_Drop verdicts_only_storeMem
        split: option.splits if_splits redis_reply.splits)
qed

text \<open>A memory hit is an entry that has not expired; it leaves the cache alone.\<close>

lemma cache_get_hit:
  "cm_Load k m = Some e \<Longrightarrow> now < ce_expiresAt e \<Longrightarrow>
     cache_get codec rdb rget maxE now k pfx ttl m = (m, Some (ce_status e, ce_threatName e))"
  by (simp add: cache_get_def)

definition cache_inv :: "ResultCache \<Rightarrow> bool" where
  "cache_inv c \<longleftrightarrow>
     mem.within (maxEntries c) (byURL c) \<and> mem.within (maxEntries c) (byHash c) \<and>
     verdicts_only (byURL c) \<and> verdicts_only (byHash c)"

lemma cache_inv_New: "cache_inv (NewResultCache u h n rdb)"
  by (simp add: cache_inv_def NewResultCache_def mem.within_def counted_def verdicts_only_def cm_Load_def)

lemma cache_inv_GetByURL:
  "cache_inv c \<Longrightarrow> redis_trusted codec rget \<Longrightarrow> cache_inv (fst (GetByURL sha codec rget now c url))"
  by (auto simp: cache_inv_def GetByURL_def Let_def dest: cache_get_within cache_get_verdicts
      split: prod.splits)

lemma cache_inv_GetByHash:
  "cache_inv c \<Longrightarrow> redis_trusted codec rget \<Longrightarrow> cache_inv (fst (GetByHash codec rget now c h))"
  by (auto simp: cache_inv_def GetByHash_def Let_def dest: cache_get_within cache_get_verdicts
      split: prod.splits)

lemma cache_inv_Store: "cache_inv c \<Longrightarrow> cache_inv (fst (Store sha codec now c url h st th))"
  by (auto simp: cache_inv_def Store_def Let_def within_storeMem verdicts_only_storeMem)

lemma verdicts_only_Evict: "counted m \<Longrightarrow> verdicts_only m \<Longrightarrow> verdicts_only (cm_Evict p m)"
  by (auto simp: verdicts_only_def cm_Load_Evict split: option.splits if_splits)

lemma within_counted: "mem.within maxE m \<Longrightarrow> counted m"
  by (simp add: mem.within_def)

lemma cache_inv_cleanup: "cache_inv c \<Longrightarrow> cache_inv (cleanupTick now c)"
  by (auto simp: cache_inv_def cleanupTick_def evict_def mem.within_Evict
      intro: verdicts_only_Evict within_counted)

section \<open>Interleaved goroutines\<close>

text \<open>
  \<open>sync.Map\<close> and the atomic counter are separate: another goroutine may run between the
  \<open>Load\<close>, the \<open>Delete\<close> and the \<open>Add(-1)\<close> of a lookup, and between
  the cap check, the \<open>LoadOrStore\<close> and the \<open>Add(1)\<close> of a store.
\<close>

datatype goroutine_pc =
    AtRest
  | SawExpired string
  | DeletedKey
  | PassedCap string cacheEntry
  | StoredKey

inductive cache_step :: "int \<Rightarrow> int \<Rightarrow> cacheEntry cmap \<times> (nat \<Rightarrow> goroutine_pc) \<Rightarrow>
    cacheEntry cmap \<times> (nat \<Rightarrow> goroutine_pc) \<Rightarrow> bool" for maxE now where
  get_load: "pcs i = AtRest \<Longrightarrow> cm_Load k m = Some e \<Longrightarrow> \<not> now < ce_expiresAt e \<Longrightarrow>
     cache_step maxE now (m, pcs) (m, pcs(i := SawExpired k))"
| get_delete: "pcs i = SawExpired k \<Longrightarrow>
     cache_step maxE now (m, pcs) (cm_Delete k m, pcs(i := DeletedKey))"
| get_count: "pcs i = DeletedKey \<Longrightarrow>
     cache_step maxE now (m, pcs) (cm_Add (-1) m, pcs(i := AtRest))"
| store_check: "pcs i = AtRest \<Longrightarrow> snd m < maxE \<Longrightarrow>
     cache_step maxE now (m, pcs) (m, pcs(i := PassedCap k e))"
| store_new: "pcs i = PassedCap k e \<Longrightarrow> cm_Load k m = None \<Longrightarrow>
     cache_step maxE now (m, pcs) (cm_Store k e m, pcs(i := StoredKey))"
| store_present: "pcs i = PassedCap k e \<Longrightarrow> cm_Load k m = Some e' \<Longrightarrow>
     cache_step maxE now (m, pcs) (m, pcs(i := AtRest))"
| store_count: "pcs i = StoredKey \<Longrightarrow>
     cache_step maxE now (m, pcs) (cm_Add 1 m, pcs(i := AtRest))"

text \<open>A history of operations on one cache.\<close>

datatype cache_op =
    OpGetByURL int "string \<Rightarrow> redis_reply" string
  | OpGetByHash int "string \<Rightarrow> redis_reply" bytes
  | OpStore int string bytes ScanStatus string
  | OpCleanup int

fun cache_apply :: "(bytes \<Rightarrow> bytes) \<Rightarrow> json_codec \<Rightarrow> cache_op \<Rightarrow> ResultCache \<Rightarrow> ResultCache" where
  "cache_apply sha codec (OpGetByURL now rget url) c = fst (GetByURL sha codec rget now c url)"
| "cache_apply sha codec (OpGetByHash now rget h) c = fst (GetByHash codec rget now c h)"
| "cache_apply sha codec (OpStore now url h st th) c = fst (Store sha codec now c url h st th)"
| "cache_apply sha codec (OpCleanup now) c = cleanupTick now c"

fun op_trusted :: "json_codec \<Rightarrow> cache_op \<Rightarrow> bool" where
  "op_trusted codec (OpGetByURL now rget url) = redis_trusted codec rget"
| "op_trusted codec (OpGetByHash now rget h) = redis_trusted codec rget"
| "op_trusted codec _ = True"

lemma cache_inv_apply: "cache_inv c \<Longrightarrow> op_trusted codec op \<Longrightarrow> cache_inv (cache_apply sha codec op c)"
  by (cases op) (auto intro: cache_inv_GetByURL cache_inv_GetByHash cache_inv_Store cache_inv_cleanup)

lemma cache_inv_history:
  "cache_inv c \<Longrightarrow> list_all (op_trusted codec) ops \<Longrightarrow> cache_inv (fold (cache_apply sha codec) ops c)"
  by (induction ops arbitrary: c) (auto intro: cache_inv_apply)

lemma maxEntries_apply [simp]: "maxEntries (cache_apply sha codec op c) = maxEntries c"
  by (cases op) (auto simp: GetByURL_def GetByHash_def Store_def cleanupTick_def Let_def split: prod.splits)

lemma maxEntries_history [simp]: "maxEntries (fold (cache_apply sha codec) ops c) = maxEntries c"
  by (induction ops arbitrary: c) auto

section \<open>Properties\<close>





text \<open>
  Storing never replaces an entry: while a hash has an unexpired entry in memory, every
  later store for that hash leaves lookups by hash at the old verdict. An infected verdict stored
  over a live clean one is therefore not seen by this process, although the Redis SET it issues
  carries the new verdict.
\<close>

lemma store_keeps_live_hash_entry:
  assumes "cm_Load (hexEncode h) (byHash c) = Some e" "t < ce_expiresAt e"
  shows "snd (GetByHash codec rget t (fst (Store sha codec now c url h st th)) h) =
           Some (ce_status e, ce_threatName e)"
proof -
  have "byHash (fst (Store sha codec now c url h st th)) = byHash c"
    using assms(1) by (simp add: Store_def Let_def storeMem_present)
  then show ?thesis
    using assms by (simp add: GetByHash_def Let_def cache_get_hit)
qed

text \<open>
  The counter is not exact under concurrency: from a consistent map of one expired
  entry, two goroutines that look the same key up reach, all at rest again, an empty map whose
  counter is -1. The sequential deletion (previous property) keeps it exact.
\<close>

lemma expired_lookup_race:
  "counted ([(k, e)], 1) \<and>
   (\<not> now < ce_expiresAt e \<longrightarrow>
     (cache_step maxE now)\<^sup>*\<^sup>* (([(k, e)], 1), \<lambda>_. AtRest) (([], -1), \<lambda>_. AtRest))"
proof (intro conjI impI)
  show "counted ([(k, e)], 1)" by (simp add: counted_def)
next
  assume exp: "\<not> now < ce_expiresAt e"
  let ?m = "([(k, e)], 1) :: cacheEntry cmap" and ?p = "(\<lambda>_. AtRest) :: nat \<Rightarrow> goroutine_pc"
  let ?s = "cache_step maxE now"
  have load: "cm_Load k ?m = Some e" and del: "cm_Delete k ?m = ([], 1)" "cm_Delete k ([], 0) = ([], 0)"
    by (simp_all add: cm_Load_def cm_Delete_def)
  have s1: "?s (?m, ?p) (?m, ?p(0 := SawExpired k))"
    by (rule get_load [OF _ load exp]) simp
  have s2: "?s (?m, ?p(0 := SawExpired k)) (?m, ?p(0 := SawExpired k, 1 := SawExpired k))"
    by (rule get_load [OF _ load exp]) simp
  have s3: "?s (?m, ?p(0 := SawExpired k, 1 := SawExpired k)) (([], 1), ?p(0 := DeletedKey, 1 := SawExpired k))"
    using get_delete [of "?p(0 := SawExpired k, 1 := SawExpired k)" 0 k maxE now ?m]
    by (simp add: del fun_upd_twist)
  have s4: "?s (([], 1), ?p(0 := DeletedKey, 1 := SawExpired k)) (([], 0), ?p(1 := SawExpired k))"
    using get_count [of "?p(0 := DeletedKey, 1 := SawExpired k)" 0 maxE now "([], 1)"]
    by (simp add: cm_Add_def fun_upd_twist fun_upd_idem)
  have s5: "?s (([], 0), ?p(1 := SawExpired k)) (([], 0), ?p(1 := DeletedKey))"
    using get_delete [of "?p(1 := SawExpired k)" 1 k maxE now "([], 0)"] by (simp add: del)
  have s6: "?s (([], 0), ?p(1 := DeletedKey)) (([], -1), ?p)"
    using get_count [of "?p(1 := DeletedKey)" 1 maxE now "([], 0)"] by (simp add: cm_Add_def fun_upd_idem)
  note step = converse_rtranclp_into_rtranclp [of ?s]
  show "?s\<^sup>*\<^sup>* (?m, ?p) (([], -1), ?p)"
    by (rule step [OF s1 step [OF s2 step [OF s3 step [OF s4 step [OF s5 step [OF s6 rtranclp.rtrancl_refl]]]]]])
qed

end
