(* ===== verification/Scan_Job.thy ===== *)
theory Scan_Job
  imports Http_Types Scan_Config Clamd Result_Cache
begin

text \<open>
  Scan jobs and the manager that owns them: \<^verbatim>\<open>internal/scan/util.go\<close> (the download's
  file name) and the job bookkeeping of \<^verbatim>\<open>internal/scan/manager.go\<close>. The scan itself
  (\<open>runScan\<close>) is in \<open>Run_Scan\<close>, the reader a command-line client gets in
  \<open>Trickle\<close>.

  The temp files are a map from paths to contents, threaded beside the manager. A job's channels
  are their observable contents: \<open>newBytes\<close> whether its one token is present,
  \<open>uploadDone\<close> whether it is closed, \<open>resultCh\<close> the buffered result. Random job
  ids, the clock and the outcome of opening a file are arguments.
\<close>

section \<open>File names\<close>

fun splitFrom :: "string list \<Rightarrow> string \<Rightarrow> string \<Rightarrow> string list" where
  "splitFrom out cur [] = out @ [cur]"
| "splitFrom out cur (c # s) = (if c = CHR '';'' then splitFrom (out @ [cur]) [] s else splitFrom out (cur @ [c]) s)"

definition splitParts :: "string \<Rightarrow> string list" where
  "splitParts s = splitFrom [] [] s"

definition blank :: "char \<Rightarrow> bool" where
  "blank c \<longleftrightarrow> c = CHR '' '' \<or> c = CHR 0x09"

definition trimASCIISpace :: "string \<Rightarrow> string" where
  "trimASCIISpace s = rev (dropWhile blank (rev (dropWhile blank s)))"

text \<open>\<open>c | 0x20\<close> on a byte.\<close>

fun orSpace :: "char \<Rightarrow> char" where
  "orSpace (Char b0 b1 b2 b3 b4 b5 b6 b7) = Char b0 b1 b2 b3 b4 True b6 b7"

fun foldBytes :: "string \<Rightarrow> string \<Rightarrow> bool" where
  "foldBytes (a # as) (b # bs) = (if orSpace a \<noteq> orSpace b then False else foldBytes as bs)"
| "foldBytes _ _ = True"

definition foldEqual :: "string \<Rightarrow> string \<Rightarrow> bool" where
  "foldEqual a b = (if length a \<noteq> length b then False else foldBytes a b)"

fun dispositionName :: "string list \<Rightarrow> string option" where
  "dispositionName [] = None"
| "dispositionName (p # ps) =
     (let part = trimASCIISpace p; pfx = ''filename='' in
      if length pfx < length part \<and> foldEqual (take (length pfx) part) pfx then
        (let name = drop (length pfx) part in
         if 2 \<le> length name \<and> hd name = CHR 0x22 \<and> last name = CHR 0x22
         then Some (butlast (tl name)) else Some name)
      else dispositionName ps)"

text \<open>The backward loop over the path: the text after the last slash, if it is not empty.\<close>

definition lastSegment :: "string \<Rightarrow> string" where
  "lastSegment path =
     (case LastIndexByte path CHR ''/'' of
        None \<Rightarrow> ''download''
      | Some i \<Rightarrow> (let name = drop (i + 1) path in if name \<noteq> [] then name else ''download''))"

definition filenameFrom :: "Request \<Rightarrow> 'b Response \<Rightarrow> string" where
  "filenameFrom req resp =
     (let cd = Header_Get (rs_Header resp) ''Content-Disposition'' in
      case (if cd \<noteq> [] then dispositionName (splitParts cd) else None) of
        Some name \<Rightarrow> name
      | None \<Rightarrow> lastSegment (u_Path (rq_URL req)))"

section \<open>Jobs and the manager\<close>

record Job =
  j_ID :: string
  j_Filename :: string
  j_ContentType :: string
  j_ContentEncoding :: string
  j_OriginalURL :: string
  j_TempPath :: string
  j_CreatedAt :: int
  j_written :: nat
  j_newBytes :: bool
  j_uploadDone :: bool
  j_resultCh :: "ScanResult option"
  j_tailBody :: "reader option"
  j_status :: ScanStatus
  j_threatName :: string

definition setResult :: "ScanStatus \<Rightarrow> string \<Rightarrow> Job \<Rightarrow> Job" where
  "setResult s threat j = j\<lparr>j_status := s, j_threatName := threat\<rparr>"

type_synonym fs = "string \<Rightarrow> bytes option"

record Manager =
  m_dir :: string
  m_ttl :: int
  m_maxSize :: int
  m_config :: ScanConfig
  m_jobs :: "(string \<times> Job) list"
  m_cache :: "ResultCache option"

definition NewManager :: "string \<Rightarrow> int \<Rightarrow> int \<Rightarrow> ResultCache option \<Rightarrow> Manager" where
  "NewManager dir ttl maxSize cache =
     \<lparr>m_dir = dir, m_ttl = ttl, m_maxSize = maxSize,
      m_config = DefaultScanConfig\<lparr>MaxSizeMB := maxSize div 2 ^ 20\<rparr>, m_jobs = [], m_cache = cache\<rparr>"

definition SetConfig :: "ScanConfig \<Rightarrow> Manager \<Rightarrow> Manager" where
  "SetConfig cfg m = m\<lparr>m_config := cfg, m_maxSize := MaxSizeBytes cfg\<rparr>"

definition GetJob :: "Manager \<Rightarrow> string \<Rightarrow> Job option" where
  "GetJob m jid = map_of (m_jobs m) jid"

definition storeJob :: "Job \<Rightarrow> Manager \<Rightarrow> Manager" where
  "storeJob j m = m\<lparr>m_jobs := (j_ID j, j) # filter (\<lambda>(k, _). k \<noteq> j_ID j) (m_jobs m)\<rparr>"

definition LookupURL :: "(bytes \<Rightarrow> bytes) \<Rightarrow> json_codec \<Rightarrow> (string \<Rightarrow> redis_reply) \<Rightarrow> int \<Rightarrow> Manager \<Rightarrow> string \<Rightarrow>
    Manager \<times> (ScanStatus \<times> string) option" where
  "LookupURL sha codec rget now m rawURL =
     (case m_cache m of
        None \<Rightarrow> (m, None)
      | Some c \<Rightarrow> (let (c', r) = GetByURL sha codec rget now c rawURL in (m\<lparr>m_cache := Some c'\<rparr>, r)))"

definition contentTypeOf :: "'b Response \<Rightarrow> string" where
  "contentTypeOf resp =
     (let ct = Header_Get (rs_Header resp) ''Content-Type'' in if ct = [] then ''application/octet-stream'' else ct)"

text \<open>\<open>filepath.Join(m.dir, id)\<close> for a cleaned directory name.\<close>

definition tempPathOf :: "string \<Rightarrow> string \<Rightarrow> string" where
  "tempPathOf dir jid = (if dir = [] then jid else dir @ ''/'' @ jid)"

definition NewPresetJob :: "string \<Rightarrow> int \<Rightarrow> Request \<Rightarrow> 'b Response \<Rightarrow> ScanStatus \<Rightarrow> string \<Rightarrow> Manager \<Rightarrow> Manager \<times> Job" where
  "NewPresetJob jid now req resp st threat m =
     (let job = \<lparr>j_ID = jid, j_Filename = filenameFrom req resp, j_ContentType = contentTypeOf resp,
                 j_ContentEncoding = Header_Get (rs_Header resp) ''Content-Encoding'',
                 j_OriginalURL = URL_String (rq_URL req), j_TempPath = [], j_CreatedAt = now,
                 j_written = 0, j_newBytes = False, j_uploadDone = True, j_resultCh = None, j_tailBody = None,
                 j_status = st, j_threatName = threat\<rparr>
      in (storeJob job m, job))"

definition newJob :: "string \<Rightarrow> int \<Rightarrow> bool \<Rightarrow> Request \<Rightarrow> 'b Response \<Rightarrow> Manager \<Rightarrow> fs \<Rightarrow> Manager \<times> fs \<times> Job" where
  "newJob jid now createOK req resp m fs =
     (let tempPath = tempPathOf (m_dir m) jid;
          fs' = (if createOK then fs(tempPath := Some []) else fs);
          job = \<lparr>j_ID = jid, j_Filename = filenameFrom req resp, j_ContentType = contentTypeOf resp,
                 j_ContentEncoding = Header_Get (rs_Header resp) ''Content-Encoding'',
                 j_OriginalURL = URL_String (rq_URL req), j_TempPath = tempPath, j_CreatedAt = now,
                 j_written = 0, j_newBytes = False, j_uploadDone = False, j_resultCh = None, j_tailBody = None,
                 j_status = StatusPending, j_threatName = []\<rparr>
      in (storeJob job m, fs', job))"

text \<open>
  \<open>ServeFile\<close>: \<open>None\<close> is the result \<open>false\<close>; otherwise the headers it
  sets and the name and bytes it hands to \<open>http.ServeContent\<close>.
\<close>

definition ServeFile :: "fs \<Rightarrow> Job \<Rightarrow> (header \<times> string \<times> bytes) option" where
  "ServeFile fs job =
     (if j_status job \<noteq> StatusClean \<and> j_status job \<noteq> StatusError then None
      else (case fs (j_TempPath job) of
              None \<Rightarrow> None
            | Some data \<Rightarrow>
                (let h = Header_Set [] ''Content-Disposition'' (''attachment; filename='' @ [CHR 0x22] @ j_Filename job @ [CHR 0x22]);
                     h = Header_Set h ''Content-Type'' (j_ContentType job);
                     h = (if j_ContentEncoding job \<noteq> [] then Header_Set h ''Content-Encoding'' (j_ContentEncoding job) else h)
                 in Some (h, j_Filename job, data))))"

text \<open>One tick of \<open>StartCleanup\<close>: \<open>Range\<close> over the jobs, removing the expired ones and their files.\<close>

definition cleanupJobs :: "int \<Rightarrow> Manager \<Rightarrow> fs \<Rightarrow> Manager \<times> fs" where
  "cleanupJobs now m fs =
     fold (\<lambda>(k, job) (m, fs).
             if m_ttl m < now - j_CreatedAt job
             then (m\<lparr>m_jobs := filter (\<lambda>(k', _). k' \<noteq> k) (m_jobs m)\<rparr>, fs(j_TempPath job := None))
             else (m, fs))
          (m_jobs m) (m, fs)"

section \<open>Lemmas on file names\<close>

lemma splitFrom_Split: "splitFrom out cur s = out @ (cur @ hd (Split CHR '';'' s)) # tl (Split CHR '';'' s)"
proof (induction s arbitrary: out cur)
  case (Cons c s)
  then show ?case
    by (cases "Split CHR '';'' s") (auto simp: Cons.IH)
qed simp

lemma splitParts_Split: "splitParts s = Split CHR '';'' s"
  by (simp add: splitParts_def splitFrom_Split)

lemma foldBytes_iff: "length a = length b \<Longrightarrow> foldBytes a b \<longleftrightarrow> map orSpace a = map orSpace b"
  by (induction a b rule: foldBytes.induct) auto

lemma foldEqual_iff: "foldEqual a b \<longleftrightarrow> map orSpace a = map orSpace b"
  using foldBytes_iff [of a b] map_eq_imp_length_eq [of orSpace a orSpace b] by (auto simp: foldEqual_def)

lemma lastSegment_no_slash: "CHR ''/'' \<notin> set (lastSegment path) \<and> lastSegment path \<noteq> []"
proof (cases "CHR ''/'' \<in> set path")
  case True
  then obtain a b where ab: "path = a @ CHR ''/'' # b" "CHR ''/'' \<notin> set b"
    by (metis split_list_last)
  then have "LastIndexByte path CHR ''/'' = Some (length a)"
    by simp
  then show ?thesis
    using ab by (auto simp: lastSegment_def Let_def)
next
  case False
  then show ?thesis by (simp add: lastSegment_def)
qed

section \<open>Lemmas on jobs\<close>

lemma GetJob_storeJob [simp]: "GetJob (storeJob j m) k = (if k = j_ID j then Some j else GetJob m k)"
  by (simp add: GetJob_def storeJob_def)

definition jobs_keyed :: "Manager \<Rightarrow> bool" where
  "jobs_keyed m \<longleftrightarrow> distinct (map fst (m_jobs m)) \<and> (\<forall>(k, j) \<in> set (m_jobs m). j_ID j = k)"

lemma jobs_keyed_storeJob: "jobs_keyed m \<Longrightarrow> jobs_keyed (storeJob j m)"
  by (auto simp: jobs_keyed_def storeJob_def distinct_filter_key)

end
