(* ===== verification/Run_Scan.thy ===== *)
theory Run_Scan
  imports Scan_Job
begin

text \<open>
  \<open>Manager.runScan\<close> of \<^verbatim>\<open>internal/scan/manager.go\<close>: the goroutine that copies
  the upstream body into the temp file while the backend scans it, consults and fills the result
  cache, and publishes one result.

  \<open>runScan\<close> computes the sequence of its effects on the job (\<open>act\<close>, in program
  order, deferred calls last), so that \<open>Trickle\<close> can interleave a reader with them;
  \<open>applyAct\<close> is the effect of one of them on the job and its temp file. The limit is
  read from the manager twice (\<open>e_max1\<close> when the limited reader is made,
  \<open>e_max2\<close> when the size is checked), because \<open>SetConfig\<close> may change it in
  between. The temp file takes \<open>e_disk\<close> bytes before writes to it fail, all of them when
  that is \<open>None\<close>.
\<close>

section \<open>Limited readers\<close>

text \<open>\<open>io.LimitReader(r, n)\<close>, and what is left of a body after \<open>k\<close> bytes were read from it.\<close>

fun LimitReader :: "nat \<Rightarrow> reader \<Rightarrow> reader" where
  "LimitReader n (Read p r) =
     (if n = 0 then Final [] EOF
      else if length p \<le> n then Read p (LimitReader (n - length p) r)
      else Read (take n p) (Final [] EOF))"
| "LimitReader n (Final p e) =
     (if n = 0 then Final [] EOF
      else if length p \<le> n then Final p e
      else Read (take n p) (Final [] EOF))"

fun bodyRest :: "nat \<Rightarrow> reader \<Rightarrow> reader" where
  "bodyRest k (Read p r) =
     (if length p \<le> k then bodyRest (k - length p) r else Read (drop k p) r)"
| "bodyRest k (Final p e) = Final (drop k p) e"

lemma content_LimitReader: "content (LimitReader n r) = take n (content r)"
  by (induction n r rule: LimitReader.induct) auto

lemma content_bodyRest: "content (bodyRest k r) = drop k (content r)"
  by (induction k r rule: bodyRest.induct) auto

lemma ending_bodyRest: "ending (bodyRest k r) = ending r"
  by (induction k r rule: bodyRest.induct) auto

lemma ending_LimitReader_under: "length (content r) < n \<Longrightarrow> ending (LimitReader n r) = ending r"
  by (induction n r rule: LimitReader.induct) auto

lemma ending_LimitReader_over: "n < length (content r) \<Longrightarrow> ending (LimitReader n r) = EOF"
  by (induction n r rule: LimitReader.induct) auto

text \<open>
  \<open>io.TeeReader\<close> over the temp file: the stream its reader sees when the file takes \<open>k\<close>
  more bytes. The read whose write fails returns the bytes written and the error, and so do, with no
  bytes, all later ones.
\<close>

fun TeeReader :: "nat option \<Rightarrow> reader \<Rightarrow> reader" where
  "TeeReader None r = r"
| "TeeReader (Some k) (Read p r) =
     (if length p \<le> k then Read p (TeeReader (Some (k - length p)) r) else Final (take k p) ReadErr)"
| "TeeReader (Some k) (Final p e) = (if length p \<le> k then Final p e else Final (take k p) ReadErr)"

lemma content_TeeReader: "content (TeeReader d r) = (case d of None \<Rightarrow> content r | Some k \<Rightarrow> take k (content r))"
  by (induction d r rule: TeeReader.induct) (auto split: option.splits)

lemma TeeReader_room: "(\<And>k. d = Some k \<Longrightarrow> length (content r) \<le> k) \<Longrightarrow> TeeReader d r = r"
  by (induction d r rule: TeeReader.induct) auto

lemma ending_TeeReader_full: "d = Some k \<Longrightarrow> k < length (content r) \<Longrightarrow> ending (TeeReader d r) = ReadErr"
  by (induction d r arbitrary: k rule: TeeReader.induct) auto

section \<open>Effects of the scan goroutine\<close>

datatype act =
    OpenTrunc
  | SetStatus ScanStatus string
  | Append bytes
  | SetTail reader
  | Send ScanResult
  | CloseUpload
  | CloseBody

text \<open>
  \<open>Append\<close> is one \<open>countWriter.Write\<close>: the bytes go to the file, the counter
  moves, and the token is offered without blocking.
\<close>

fun applyAct :: "act \<Rightarrow> Job \<times> bytes \<Rightarrow> Job \<times> bytes" where
  "applyAct OpenTrunc (j, f) = (j, [])"
| "applyAct (SetStatus s t) (j, f) = (setResult s t j, f)"
| "applyAct (Append p) (j, f) = (j\<lparr>j_written := j_written j + length p, j_newBytes := True\<rparr>, f @ p)"
| "applyAct (SetTail r) (j, f) = (j\<lparr>j_tailBody := Some r\<rparr>, f)"
| "applyAct (Send r) (j, f) = (j\<lparr>j_resultCh := Some r\<rparr>, f)"
| "applyAct CloseUpload (j, f) = (j\<lparr>j_uploadDone := True\<rparr>, f)"
| "applyAct CloseBody (j, f) = (j, f)"

definition applyActs :: "act list \<Rightarrow> Job \<times> bytes \<Rightarrow> Job \<times> bytes" where
  "applyActs as s = fold applyAct as s"

section \<open>runScan\<close>

record scan_env =
  e_openOK :: bool
  e_disk :: "nat option"
  e_max1 :: int
  e_max2 :: int
  e_scan :: "reader \<Rightarrow> scan_outcome"
  e_sha :: "bytes \<Rightarrow> bytes"
  e_codec :: json_codec
  e_rget :: "string \<Rightarrow> redis_reply"
  e_now :: int

text \<open>A tee writes each non-empty read.\<close>

definition tee :: "bytes list \<Rightarrow> act list" where
  "tee rs = map Append (filter (\<lambda>p. p \<noteq> []) rs)"

text \<open>The body up to the limit, and what the scanner sees of it through the tee.\<close>

definition limitedBody :: "scan_env \<Rightarrow> reader \<Rightarrow> reader" where
  "limitedBody e body = LimitReader (nat (wrap64 (e_max1 e + 1))) body"

definition teedBody :: "scan_env \<Rightarrow> reader \<Rightarrow> reader" where
  "teedBody e body = TeeReader (e_disk e) (limitedBody e body)"

text \<open>
  After the reads \<open>rs\<close> through the tee: how much of the body they consumed, and what reached the
  hash, which is written after the file and misses a read whose file write failed.
\<close>

definition consumed :: "scan_env \<Rightarrow> reader \<Rightarrow> bytes list \<Rightarrow> nat" where
  "consumed e body rs = length (concat (take (length rs) (reads (limitedBody e body))))"

definition hashed :: "scan_env \<Rightarrow> reader \<Rightarrow> bytes list \<Rightarrow> bytes" where
  "hashed e body rs = concat (map fst (filter (\<lambda>(p, q). p = q) (zip rs (reads (limitedBody e body)))))"

definition cleanResult :: ScanResult where
  "cleanResult = \<lparr>Clean = True, ThreatName = []\<rparr>"

text \<open>The branch for a body over the limit: the effects and whether the goroutine still owns the body.\<close>

definition tooLarge :: "bool \<Rightarrow> nat \<Rightarrow> reader \<Rightarrow> act list \<times> bool" where
  "tooLarge saveTail n body =
     ((if saveTail then [SetTail (bodyRest n body)] else []) @
      [SetStatus StatusTooLarge [], Send cleanResult], \<not> saveTail)"

definition publish :: "ScanStatus \<Rightarrow> string \<Rightarrow> act list" where
  "publish st threat =
     [if st = StatusClean then SetStatus StatusClean [] else SetStatus StatusInfected threat,
      Send \<lparr>Clean = (st = StatusClean), ThreatName = threat\<rparr>]"

text \<open>The deferred calls, last one first.\<close>

definition deferred :: "bool \<Rightarrow> act list" where
  "deferred bodyOwned = [CloseUpload] @ (if bodyOwned then [CloseBody] else [])"

text \<open>The URL cache fast path, given the verdict found for the URL.\<close>

definition cachedScan :: "scan_env \<Rightarrow> bool \<Rightarrow> reader \<Rightarrow> ResultCache \<Rightarrow> ScanStatus \<Rightarrow> string \<Rightarrow> act list \<times> ResultCache" where
  "cachedScan e saveTail body c urlStatus urlThreat =
     (let rs = reads (teedBody e body)
      in if e_max2 e < int (length (concat rs)) then
           (let (as, owned) = tooLarge saveTail (consumed e body rs) body in (tee rs @ as @ deferred owned, c))
         else
           (let (c', hit) = GetByHash (e_codec e) (e_rget e) (e_now e) c (e_sha e (hashed e body rs));
                (st, th) = (case hit of
                              Some (hashStatus, hashThreat) \<Rightarrow> mergeResults urlStatus urlThreat hashStatus hashThreat
                            | None \<Rightarrow> (urlStatus, urlThreat))
            in (tee rs @ publish st th @ deferred True, c')))"

text \<open>The normal path; \<open>oc\<close> is the cache, if caching is enabled.\<close>

definition freshScan :: "scan_env \<Rightarrow> bool \<Rightarrow> string \<Rightarrow> reader \<Rightarrow> ResultCache option \<Rightarrow>
    act list \<times> ResultCache option \<times> redis_set list" where
  "freshScan e saveTail url body oc =
     (let (rs, rest, res) = e_scan e (teedBody e body)
      in if e_max2 e < int (length (concat rs)) then
           (let (as, owned) = tooLarge saveTail (consumed e body rs) body in (tee rs @ as @ deferred owned, oc, []))
         else
           (case res of
              Inl err \<Rightarrow>
                (tee rs @ tee (reads rest) @ [SetStatus StatusError [], Send cleanResult] @ deferred True, oc, [])
            | Inr result \<Rightarrow>
                (let clamdStatus = (if Clean result then StatusClean else StatusInfected);
                     contentHash = e_sha e (hashed e body rs)
                 in case oc of
                      None \<Rightarrow> (tee rs @ publish clamdStatus (ThreatName result) @ deferred True, None, [])
                    | Some c \<Rightarrow>
                        (let (c', hit) = GetByHash (e_codec e) (e_rget e) (e_now e) c contentHash;
                             (st, th) = (case hit of
                                           Some (hashStatus, hashThreat) \<Rightarrow> mergeResults clamdStatus (ThreatName result) hashStatus hashThreat
                                         | None \<Rightarrow> (clamdStatus, ThreatName result));
                             (c'', cmds) = Store (e_sha e) (e_codec e) (e_now e) c' url contentHash st th
                         in (tee rs @ publish st th @ deferred True, Some c'', cmds)))))"

definition runScan :: "scan_env \<Rightarrow> bool \<Rightarrow> string \<Rightarrow> reader \<Rightarrow> ResultCache option \<Rightarrow>
    act list \<times> ResultCache option \<times> redis_set list" where
  "runScan e saveTail url body oc =
     (if \<not> e_openOK e then ([SetStatus StatusError [], Send cleanResult] @ deferred True, oc, [])
      else
        (case oc of
           None \<Rightarrow>
             (let (as, oc', cmds) = freshScan e saveTail url body oc
              in ([OpenTrunc, SetStatus StatusScanning []] @ as, oc', cmds))
         | Some c \<Rightarrow>
             (let (c', hit) = GetByURL (e_sha e) (e_codec e) (e_rget e) (e_now e) c url in
              case hit of
                Some (urlStatus, urlThreat) \<Rightarrow>
                  (let (as, c'') = cachedScan e saveTail body c' urlStatus urlThreat
                   in ([OpenTrunc, SetStatus StatusScanning []] @ as, Some c'', []))
              | None \<Rightarrow>
                  (let (as, oc', cmds) = freshScan e saveTail url body (Some c')
                   in ([OpenTrunc, SetStatus StatusScanning []] @ as, oc', cmds)))))"

section \<open>The shape of the effects\<close>

text \<open>
  Once the temp file is open, the goroutine writes the reads \<open>ws\<close>, possibly hands over
  the tail, publishes a status and one result, and closes.
\<close>

definition scanActs :: "bytes list \<Rightarrow> reader option \<Rightarrow> ScanStatus \<Rightarrow> string \<Rightarrow> ScanResult \<Rightarrow> bool \<Rightarrow> act list" where
  "scanActs ws tb st th r owned =
     tee ws @ (case tb of None \<Rightarrow> [] | Some t \<Rightarrow> [SetTail t]) @ [SetStatus st th, Send r] @ deferred owned"

text \<open>What the parts of such a sequence promise, for a body and an environment.\<close>

text \<open>The limit does not change during the scan, or every write to the temp file succeeds.\<close>

definition steady :: "scan_env \<Rightarrow> bool" where
  "steady e \<longleftrightarrow> e_disk e = None \<or> (e_max1 e = e_max2 e \<and> 0 \<le> e_max1 e)"

definition scan_promise :: "bool \<Rightarrow> reader \<Rightarrow> scan_env \<Rightarrow> bytes list \<Rightarrow> reader option \<Rightarrow> ScanStatus \<Rightarrow> ScanResult \<Rightarrow> bool" where
  "scan_promise saveTail body e ws tb st r \<longleftrightarrow>
     (Clean r \<longleftrightarrow> st \<noteq> StatusInfected) \<and>
     st \<in> {StatusClean, StatusInfected, StatusError, StatusTooLarge} \<and>
     (st = StatusTooLarge \<longrightarrow> e_max2 e < int (length (concat ws))) \<and>
     (verdict st \<longrightarrow> int (length (concat ws)) \<le> e_max2 e) \<and>
     (\<exists>n. tb = (if saveTail \<and> st = StatusTooLarge then Some (bodyRest n body) else None) \<and>
          (steady e \<longrightarrow> n = length (concat ws))) \<and>
     (\<exists>rest. content body = concat ws @ rest)"

lemma tee_append [simp]: "tee (a @ b) = tee a @ tee b"
  by (simp add: tee_def)

lemma applyActs_append [simp]: "applyActs (a @ b) s = applyActs b (applyActs a s)"
  by (simp add: applyActs_def)

lemma applyActs_Nil [simp]: "applyActs [] s = s"
  by (simp add: applyActs_def)

lemma applyActs_Cons [simp]: "applyActs (a # as) s = applyActs as (applyAct a s)"
  by (simp add: applyActs_def)

lemma applyActs_tee:
  "applyActs (tee ws) (j, f) =
     (j\<lparr>j_written := j_written j + length (concat ws), j_newBytes := j_newBytes j \<or> concat ws \<noteq> []\<rparr>, f @ concat ws)"
proof (induction ws arbitrary: j f)
  case (Cons w ws)
  then show ?case
    by (cases w) (auto simp: tee_def add.assoc)
qed (simp add: tee_def)

lemma applyActs_scanActs:
  "applyActs (scanActs ws tb st th r owned) (j, f) =
     (j\<lparr>j_written := j_written j + length (concat ws), j_newBytes := j_newBytes j \<or> concat ws \<noteq> [],
        j_tailBody := (case tb of None \<Rightarrow> j_tailBody j | Some t \<Rightarrow> Some t),
        j_status := st, j_threatName := th, j_resultCh := Some r, j_uploadDone := True\<rparr>, f @ concat ws)"
  by (cases tb) (simp_all add: scanActs_def deferred_def setResult_def applyActs_tee)

lemma publish_status:
  "publish st th = [SetStatus (if st = StatusClean then StatusClean else StatusInfected) (if st = StatusClean then [] else th),
     Send \<lparr>Clean = (st = StatusClean), ThreatName = th\<rparr>]"
  by (simp add: publish_def)

text \<open>
  Reads through the tee are reads of the limited body, unless the file was full before its end; then
  it holds exactly what it takes.
\<close>

lemma TeeReader_reads:
  assumes "take (length rs) (reads (TeeReader d r)) = rs"
  shows "rs = take (length rs) (reads r) \<or> (\<exists>k. d = Some k \<and> k < length (content r) \<and> length (concat rs) = k)"
  using assms
proof (induction d r arbitrary: rs rule: TeeReader.induct)
  case (2 k p r)
  show ?case
  proof (cases rs)
    case (Cons q qs)
    show ?thesis
    proof (cases "length p \<le> k")
      case True
      with "2.prems" Cons have "q = p" "take (length qs) (reads (TeeReader (Some (k - length p)) r)) = qs" by auto
      with "2.IH" [OF True, of qs] True Cons show ?thesis by auto
    next
      case False
      with "2.prems" Cons show ?thesis by auto
    qed
  qed simp
next
  case (3 k p e)
  then show ?case by (cases rs) (auto split: if_splits)
qed simp

lemma limit_le: "0 \<le> M \<Longrightarrow> int (length (content (limitedBody e body))) \<le> M + 1" if "e_max1 e = M"
proof -
  assume "0 \<le> M"
  then have "nat (wrap64 (M + 1)) \<le> nat (M + 1)"
    using zmod_le_nonneg_dividend [of "M + 1 + 2 ^ 63" "2 ^ 64"] by (simp add: wrap64_def)
  with that \<open>0 \<le> M\<close> show ?thesis
    by (simp add: limitedBody_def content_LimitReader)
qed

lemma consumed_steady:
  assumes "take (length rs) (reads (teedBody e body)) = rs" "steady e" "e_max2 e < int (length (concat rs))"
  shows "consumed e body rs = length (concat rs)"
  using TeeReader_reads [OF assms(1) [unfolded teedBody_def]] assms(2,3) limit_le [OF refl, of e body]
  by (auto simp: consumed_def steady_def)

lemma hashed_all: "rs = take (length rs) (reads (limitedBody e body)) \<Longrightarrow> hashed e body rs = concat rs"
proof -
  have "map fst (filter (\<lambda>(p, q). p = q) (zip (take n qs) qs)) = take n qs" for n and qs :: "bytes list"
    by (induction qs arbitrary: n) (auto simp: take_Cons split: nat.splits)
  then show "rs = take (length rs) (reads (limitedBody e body)) \<Longrightarrow> hashed e body rs = concat rs"
    unfolding hashed_def by metis
qed

lemma teed_prefix: "content (teedBody e body) = xs @ ys \<Longrightarrow> \<exists>zs. content body = xs @ zs"
proof -
  assume "content (teedBody e body) = xs @ ys"
  then obtain n where "take n (content body) = xs @ ys"
    by (auto simp: teedBody_def limitedBody_def content_TeeReader content_LimitReader split: option.splits)
  then have "content body = xs @ ys @ drop n (content body)"
    by (metis append_assoc append_take_drop_id)
  then show ?thesis ..
qed

lemma promise_tooLarge:
  assumes "\<exists>zs. content body = concat rs @ zs" "e_max2 e < int (length (concat rs))"
    and "take (length rs) (reads (teedBody e body)) = rs"
    and "tooLarge saveTail (consumed e body rs) body = (as, owned)"
  shows "\<exists>tb. tee rs @ as @ deferred owned = scanActs rs tb StatusTooLarge [] cleanResult owned \<and>
              scan_promise saveTail body e rs tb StatusTooLarge cleanResult"
  using assms consumed_steady [OF assms(3) _ assms(2)]
  by (intro exI [of _ "if saveTail then Some (bodyRest (consumed e body rs) body) else None"])
     (auto simp: tooLarge_def scanActs_def scan_promise_def cleanResult_def)

lemma promise_publish:
  assumes "\<exists>zs. content body = concat rs @ zs" "\<not> e_max2 e < int (length (concat rs))"
  shows "\<exists>st' th' r. tee rs @ publish st th @ deferred True = scanActs rs None st' th' r True \<and>
              st' = (if st = StatusClean then StatusClean else StatusInfected) \<and>
              scan_promise saveTail body e rs None st' r"
  using assms by (auto simp: publish_status scanActs_def scan_promise_def)

lemma freshScan_shape:
  assumes "scan_backend (e_scan e)" "freshScan e saveTail url body oc = (as, oc', cmds)"
  shows "\<exists>ws tb st th r owned. as = scanActs ws tb st th r owned \<and> scan_promise saveTail body e ws tb st r"
proof -
  obtain rs rest res where sc: "e_scan e (teedBody e body) = (rs, rest, res)"
    by (cases "e_scan e (teedBody e body)") auto
  note split = scan_backend.scan_splits [OF assms(1) sc]
  have rs: "\<exists>zs. content body = concat rs @ zs"
    using split by (rule teed_prefix)
  have all: "\<exists>zs. content body = concat (rs @ reads rest) @ zs"
    using split by (intro teed_prefix [where ys = "[]"]) simp
  show ?thesis
  proof (cases "e_max2 e < int (length (concat rs))")
    case True
    obtain t owned where t: "tooLarge saveTail (consumed e body rs) body = (t, owned)"
      by (cases "tooLarge saveTail (consumed e body rs) body")
    then have "as = tee rs @ t @ deferred owned"
      using assms(2) True sc by (simp add: freshScan_def)
    then show ?thesis
      using promise_tooLarge [OF rs True scan_backend.scan_reads [OF assms(1) sc] t] by blast
  next
    case False
    show ?thesis
    proof (cases res)
      case (Inl err)
      then have "as = scanActs (rs @ reads rest) None StatusError [] cleanResult True"
        using assms(2) sc False by (auto simp: freshScan_def scanActs_def Let_def)
      moreover have "scan_promise saveTail body e (rs @ reads rest) None StatusError cleanResult"
        using all by (simp add: scan_promise_def cleanResult_def)
      ultimately show ?thesis by blast
    next
      case (Inr result)
      then obtain st th where "as = tee rs @ publish st th @ deferred True"
        using assms(2) sc False
        by (auto simp: freshScan_def Let_def split: prod.splits option.splits)
      then show ?thesis
        using promise_publish [OF rs False] by blast
    qed
  qed
qed

lemma cachedScan_shape:
  assumes "cachedScan e saveTail body c us ut = (as, c')"
  shows "\<exists>ws tb st th r owned. as = scanActs ws tb st th r owned \<and> scan_promise saveTail body e ws tb st r"
proof -
  let ?rs = "reads (teedBody e body)"
  have rs: "\<exists>zs. content body = concat ?rs @ zs"
    by (rule teed_prefix [where ys = "[]"]) simp
  show ?thesis
  proof (cases "e_max2 e < int (length (concat ?rs))")
    case True
    obtain t owned where t: "tooLarge saveTail (consumed e body ?rs) body = (t, owned)"
      by (cases "tooLarge saveTail (consumed e body ?rs) body")
    then have "as = tee ?rs @ t @ deferred owned"
      using assms True by (simp add: cachedScan_def)
    then show ?thesis
      using promise_tooLarge [OF rs True _ t] by (metis order_refl take_all)
  next
    case False
    then obtain st th where "as = tee ?rs @ publish st th @ deferred True"
      using assms by (auto simp: cachedScan_def Let_def split: prod.splits option.splits)
    then show ?thesis
      using promise_publish [OF rs False] by blast
  qed
qed

text \<open>Every run of \<open>runScan\<close> has that shape, except when the temp file cannot be opened.\<close>

lemma runScan_shape:
  assumes "scan_backend (e_scan e)" "e_openOK e"
  shows "\<exists>ws tb st th r owned.
           fst (runScan e saveTail url body oc) = [OpenTrunc, SetStatus StatusScanning []] @ scanActs ws tb st th r owned \<and>
           scan_promise saveTail body e ws tb st r"
proof -
  have "\<exists>as. fst (runScan e saveTail url body oc) = [OpenTrunc, SetStatus StatusScanning []] @ as \<and>
        ((\<exists>oc1 oc' cmds. freshScan e saveTail url body oc1 = (as, oc', cmds)) \<or>
         (\<exists>c us ut c'. cachedScan e saveTail body c us ut = (as, c')))"
    using assms(2) by (auto simp: runScan_def Let_def split: option.splits prod.splits)
  then show ?thesis
    using freshScan_shape [OF assms(1)] cachedScan_shape by metis
qed

section \<open>The job after the scan\<close>

text \<open>The job and its temp file when the goroutine has returned.\<close>

definition scanned :: "scan_env \<Rightarrow> bool \<Rightarrow> string \<Rightarrow> reader \<Rightarrow> ResultCache option \<Rightarrow> Job \<Rightarrow> Job \<times> bytes" where
  "scanned e saveTail url body oc j = applyActs (fst (runScan e saveTail url body oc)) (j, [])"

lemma applyActs_tooLarge:
  "tooLarge saveTail n body = (t, owned) \<Longrightarrow>
     j_status (fst (applyActs (tee rs @ t @ deferred owned) (j, f))) = StatusTooLarge"
  by (auto simp: tooLarge_def applyActs_tee deferred_def setResult_def)

lemma applyActs_publish:
  "applyActs (tee rs @ publish st th @ deferred True) (j, f) = (j', f') \<Longrightarrow>
     j_status j' = (if st = StatusClean then StatusClean else StatusInfected) \<and>
     j_threatName j' = (if st = StatusClean then [] else th) \<and>
     j_resultCh j' = Some \<lparr>Clean = (st = StatusClean), ThreatName = th\<rparr> \<and> f' = f @ concat rs"
  by (auto simp: publish_status applyActs_tee deferred_def setResult_def)

lemma mergeResults_Clean: "fst (mergeResults a ta b tb) = StatusClean \<longleftrightarrow> a = StatusClean \<and> b \<noteq> StatusInfected"
  by (auto simp: mergeResults_def)

text \<open>A clean end of the normal path comes from a clean verdict on everything that was read.\<close>

lemma freshScan_clean:
  assumes "freshScan e saveTail url body oc = (as, oc', cmds)"
    and "applyActs as (j, f) = (j', f')" "j_status j' = StatusClean"
  shows "\<exists>rs rest res. e_scan e (teedBody e body) = (rs, rest, Inr res) \<and> Clean res \<and>
           int (length (concat rs)) \<le> e_max2 e \<and> f' = f @ concat rs"
proof -
  obtain rs rest res where sc: "e_scan e (teedBody e body) = (rs, rest, res)"
    by (cases "e_scan e (teedBody e body)") auto
  have small: "\<not> e_max2 e < int (length (concat rs))"
  proof
    assume big: "e_max2 e < int (length (concat rs))"
    obtain t owned where t: "tooLarge saveTail (consumed e body rs) body = (t, owned)"
      by (cases "tooLarge saveTail (consumed e body rs) body")
    then have "as = tee rs @ t @ deferred owned"
      using assms(1) big sc by (simp add: freshScan_def)
    then show False
      using applyActs_tooLarge [OF t] assms(2,3) by (metis ScanStatus.distinct fst_conv)
  qed
  show ?thesis
  proof (cases res)
    case (Inl err)
    then show ?thesis
      using assms sc small
      by (auto simp: freshScan_def Let_def applyActs_tee deferred_def setResult_def)
  next
    case (Inr result)
    then obtain st th where as: "as = tee rs @ publish st th @ deferred True"
        and st: "st = StatusClean \<longrightarrow> Clean result"
      using assms(1) sc small
      by (auto simp: freshScan_def Let_def mergeResults_def split: prod.splits option.splits if_splits)
    then show ?thesis
      using applyActs_publish [of rs st th j f j' f'] assms(2,3) sc small Inr
      by (auto split: if_splits)
  qed
qed

lemma cachedScan_clean:
  assumes "cachedScan e saveTail body c us ut = (as, c')"
    and "applyActs as (j, f) = (j', f')" "j_status j' = StatusClean"
  shows "us = StatusClean \<and> int (length f') \<le> e_max2 e + int (length f) \<and> f' = f @ content (teedBody e body)"
proof -
  let ?rs = "reads (teedBody e body)"
  have small: "\<not> e_max2 e < int (length (concat ?rs))"
  proof
    assume big: "e_max2 e < int (length (concat ?rs))"
    obtain t owned where t: "tooLarge saveTail (consumed e body ?rs) body = (t, owned)"
      by (cases "tooLarge saveTail (consumed e body ?rs) body")
    then have "as = tee ?rs @ t @ deferred owned"
      using assms(1) big by (simp add: cachedScan_def)
    then show False
      using applyActs_tooLarge [OF t] assms(2,3) by (metis ScanStatus.distinct fst_conv)
  qed
  then obtain st th where as: "as = tee ?rs @ publish st th @ deferred True"
      and st: "st = StatusClean \<longrightarrow> us = StatusClean"
    using assms(1)
    by (auto simp: cachedScan_def Let_def mergeResults_def split: prod.splits option.splits if_splits)
  then show ?thesis
    using applyActs_publish [of ?rs st th j f j' f'] assms(2,3) small
    by (auto split: if_splits)
qed

text \<open>Up to a limit that fits in an \<open>int64\<close>, the limited reader shows one byte more than the limit.\<close>

lemma limit_of_max: "0 \<le> M \<Longrightarrow> M < 2 ^ 63 - 1 \<Longrightarrow> nat (wrap64 (M + 1)) = Suc (nat M)"
  by (simp add: int64_def)

lemma take_within: "int (length (take (Suc (nat M)) c)) \<le> M \<Longrightarrow> 0 \<le> M \<Longrightarrow> take (Suc (nat M)) c = c"
  by (cases "length c \<le> nat M") (simp_all add: min_def split: if_splits)

text \<open>How much of a body the temp file takes.\<close>

definition room :: "scan_env \<Rightarrow> bytes \<Rightarrow> bytes" where
  "room e b = (case e_disk e of None \<Rightarrow> b | Some k \<Rightarrow> take k b)"

lemma content_teedBody: "content (teedBody e body) = room e (content (limitedBody e body))"
  by (simp add: teedBody_def content_TeeReader room_def)

lemma room_take: "room e (take n b) = take n (room e b)"
  by (simp add: room_def min.commute split: option.split)

lemma take_within_room:
  assumes "int (length (room e (take (Suc (nat M)) b))) \<le> M" "0 \<le> M"
  shows "room e (take (Suc (nat M)) b) = room e b"
  using take_within [of M "room e b"] assms by (simp add: room_take)

text \<open>A verdict means that the file took everything.\<close>

lemma teedBody_EOF: "ending (teedBody e body) = EOF \<Longrightarrow> teedBody e body = limitedBody e body"
  using ending_TeeReader_full TeeReader_room unfolding teedBody_def by (metis not_le rerr.distinct(1))

text \<open>The lookup that selects the path of \<open>runScan\<close>.\<close>

abbreviation urlLookup :: "scan_env \<Rightarrow> ResultCache \<Rightarrow> string \<Rightarrow> ResultCache \<times> (ScanStatus \<times> string) option" where
  "urlLookup e c url \<equiv> GetByURL (e_sha e) (e_codec e) (e_rget e) (e_now e) c url"

lemma runScan_cases:
  assumes "e_openOK e"
  obtains (cached) c c' us ut as c'' where
      "oc = Some c" "urlLookup e c url = (c', Some (us, ut))" "cachedScan e saveTail body c' us ut = (as, c'')"
      "runScan e saveTail url body oc = ([OpenTrunc, SetStatus StatusScanning []] @ as, Some c'', [])"
  | (fresh) oc1 as oc' cmds where
      "oc1 = map_option (\<lambda>c. fst (urlLookup e c url)) oc" "\<And>c. oc = Some c \<Longrightarrow> snd (urlLookup e c url) = None"
      "freshScan e saveTail url body oc1 = (as, oc', cmds)"
      "runScan e saveTail url body oc = ([OpenTrunc, SetStatus StatusScanning []] @ as, oc', cmds)"
proof (cases "\<exists>c us ut. oc = Some c \<and> snd (urlLookup e c url) = Some (us, ut)")
  case True
  then obtain c c' us ut where c: "oc = Some c" "urlLookup e c url = (c', Some (us, ut))"
    by (metis prod.collapse)
  obtain as c'' where "cachedScan e saveTail body c' us ut = (as, c'')"
    by (cases "cachedScan e saveTail body c' us ut")
  with assms c show thesis
    by (intro cached [of c c' us ut as c'']) (simp_all add: runScan_def)
next
  case False
  then have none: "snd (urlLookup e c url) = None" if "oc = Some c" for c
    using that by (cases "snd (urlLookup e c url)") auto
  let ?oc1 = "map_option (\<lambda>c. fst (urlLookup e c url)) oc"
  obtain as oc' cmds where f: "freshScan e saveTail url body ?oc1 = (as, oc', cmds)"
    by (cases "freshScan e saveTail url body ?oc1") auto
  have "runScan e saveTail url body oc = ([OpenTrunc, SetStatus StatusScanning []] @ as, oc', cmds)"
  proof (cases oc)
    case None
    with assms f show ?thesis by (simp add: runScan_def)
  next
    case (Some c)
    obtain c' where "urlLookup e c url = (c', None)"
      using none [OF Some] by (metis prod.collapse)
    with assms f Some show ?thesis by (simp add: runScan_def)
  qed
  with none f show thesis
    by (intro fresh [of ?oc1 as oc' cmds]) simp_all
qed

text \<open>A job that ends clean, on either path.\<close>

lemma scanned_clean:
  assumes "e_scan e = ScanReader cn" "e_max1 e = M" "e_max2 e = M" "0 \<le> M" "M < 2 ^ 63 - 1"
    and "scanned e saveTail url body oc j = (j', file)" "j_status j' = StatusClean"
  shows "int (length file) \<le> M \<and>
         ((\<exists>c ut. oc = Some c \<and> snd (urlLookup e c url) = Some (StatusClean, ut) \<and> file = room e (content body)) \<or>
          (\<exists>rs rest res. ScanReader cn (LimitReader (Suc (nat M)) body) = (rs, rest, Inr res) \<and>
             Clean res \<and> concat rs = content body \<and> file = content body))"
proof -
  have limit: "limitedBody e body = LimitReader (Suc (nat M)) body"
    using assms(2,4,5) by (simp only: limit_of_max limitedBody_def)
  have openOK: "e_openOK e"
    using assms(6,7) by (rule_tac ccontr) (auto simp: scanned_def runScan_def deferred_def setResult_def)
  let ?j = "setResult StatusScanning [] j"
  show ?thesis
  proof (rule runScan_cases [OF openOK, of oc url saveTail body], goal_cases cached fresh)
    case (cached c c' us ut as c'')
    then have "applyActs as (?j, []) = (j', file)"
      using assms(6) by (simp add: scanned_def)
    from cachedScan_clean [OF cached(3) this assms(7), unfolded limit assms(3) content_teedBody content_LimitReader]
    have us: "us = StatusClean" and len: "int (length file) \<le> M" and stored: "file = room e (take (Suc (nat M)) (content body))"
      by auto
    then have "file = room e (content body)"
      using take_within_room [of e M "content body"] assms(4) by simp
    then show ?thesis
      using cached(1,2) us len by auto
  next
    case (fresh oc1 as oc' cmds)
    then have "applyActs as (?j, []) = (j', file)"
      using assms(6) by (simp add: scanned_def)
    from freshScan_clean [OF fresh(3) this assms(7)] obtain rs rest res where
        sc: "ScanReader cn (teedBody e body) = (rs, rest, Inr res)" "Clean res"
        and len: "int (length (concat rs)) \<le> M" and stored: "file = concat rs"
      by (auto simp: assms(1,3))
    note sc' = sc(1) [unfolded teedBody_EOF [OF conjunct2 [OF clamd.scan_verdict_complete [OF sc(1)]]] limit]
    have "concat rs = take (Suc (nat M)) (content body)"
      using clamd.scan_verdict_reads_all [OF sc'] by (simp add: content_LimitReader)
    then have "concat rs = content body"
      using take_within [of M "content body"] len assms(4) by simp
    then show ?thesis
      using sc' sc(2) len stored by auto
  qed
qed

lemma scanned_clean_complete:
  assumes "e_scan e = ScanReader cn" "e_max1 e = M" "e_max2 e = M" "0 \<le> M" "M < 2 ^ 63 - 1" "room e (content body) = content body"
    and "scanned e saveTail url body oc j = (j', file)" "j_status j' = StatusClean"
  shows "file = content body"
  using scanned_clean [OF assms(1-5,7,8)] assms(6) by auto

section \<open>Properties\<close>

text \<open>A concrete environment for the witnesses: clamd answers \<open>reply\<close> or cannot be dialled.\<close>

definition demoConn :: "bool \<Rightarrow> string \<Rightarrow> clamd_conn" where
  "demoConn up reply = \<lparr>dial_ok = up, write_ok = \<lambda>_. True, answer = \<lambda>_. (reply, False)\<rparr>"

definition demoEnv :: "clamd_conn \<Rightarrow> int \<Rightarrow> scan_env" where
  "demoEnv cn M = \<lparr>e_openOK = True, e_disk = None, e_max1 = M, e_max2 = M, e_scan = ScanReader cn, e_sha = \<lambda>b. b,
     e_codec = \<lparr>marshal = \<lambda>_. [], unmarshal = \<lambda>_. None\<rparr>, e_rget = \<lambda>_. RedisNil, e_now = 0\<rparr>"

definition demoJob :: Job where
  "demoJob = \<lparr>j_ID = ''1'', j_Filename = ''f'', j_ContentType = ''application/zip'', j_ContentEncoding = [],
     j_OriginalURL = ''u'', j_TempPath = ''/t/1'', j_CreatedAt = 0, j_written = 0, j_newBytes = False,
     j_uploadDone = False, j_resultCh = None, j_tailBody = None, j_status = StatusPending, j_threatName = []\<rparr>"

lemmas demo_simps = demoConn_def demoEnv_def demoJob_def scanned_def runScan_def freshScan_def ScanReader_def
  writeChunk_def readClamdResult_def scanLine_def HasSuffix_def TrimPrefix_def TrimSuffix_def HasPrefix_def
  teedBody_def limitedBody_def consumed_def hashed_def room_def publish_def deferred_def tee_def tooLarge_def cleanResult_def setResult_def wrap64_def Let_def

text \<open>
  Whatever the cache holds, whatever clamd answers and whether or not the temp file
  opens, the scan goroutine ends: it has sent exactly one result and then closed
  \<open>uploadDone\<close>, the job has one of the four final statuses, the result is clean exactly
  when the status is not infected, and the temp file holds a prefix of the body.
\<close>

lemma runScan_publishes_once:
  assumes "e_scan e = ScanReader cn"
  shows "\<exists>pre post r st th.
           fst (runScan e saveTail url body oc) = pre @ [SetStatus st th, Send r, CloseUpload] @ post \<and>
           (\<forall>a \<in> set (pre @ post). \<forall>r'. a \<noteq> Send r' \<and> a \<noteq> CloseUpload) \<and>
           st \<in> {StatusClean, StatusInfected, StatusError, StatusTooLarge} \<and> (Clean r \<longleftrightarrow> st \<noteq> StatusInfected) \<and>
           (\<exists>rest. content body = snd (scanned e saveTail url body oc j) @ rest)"
proof (cases "e_openOK e")
  case False
  then have "fst (runScan e saveTail url body oc) = [] @ [SetStatus StatusError [], Send cleanResult, CloseUpload] @ [CloseBody]"
    by (simp add: runScan_def deferred_def)
  then show ?thesis
    by (intro exI [of _ "[]"] exI [of _ "[CloseBody]"] exI [of _ cleanResult] exI [of _ StatusError])
       (simp add: scanned_def cleanResult_def setResult_def)
next
  case True
  have "scan_backend (e_scan e)"
    unfolding assms by (rule clamd.scan_backend_axioms)
  then obtain ws tb st th r owned where
      acts: "fst (runScan e saveTail url body oc) = [OpenTrunc, SetStatus StatusScanning []] @ scanActs ws tb st th r owned"
      and promise: "scan_promise saveTail body e ws tb st r"
    using runScan_shape [OF _ True] by blast
  let ?pre = "[OpenTrunc, SetStatus StatusScanning []] @ tee ws @ (case tb of None \<Rightarrow> [] | Some t \<Rightarrow> [SetTail t])"
  let ?post = "if owned then [CloseBody] else []"
  have "fst (runScan e saveTail url body oc) = ?pre @ [SetStatus st th, Send r, CloseUpload] @ ?post"
    by (simp add: acts scanActs_def deferred_def)
  moreover have "\<forall>a \<in> set (?pre @ ?post). \<forall>r'. a \<noteq> Send r' \<and> a \<noteq> CloseUpload"
    by (auto simp: tee_def split: option.splits)
  moreover have "snd (scanned e saveTail url body oc j) = concat ws"
    by (simp add: scanned_def acts applyActs_scanActs)
  ultimately show ?thesis
    using promise unfolding scan_promise_def by metis
qed

text \<open>
  Property C9. A job ends clean only on a clean verdict, with a file no longer than the size limit. Either
  clamd answered \<open>stream: OK\<close> after reading every byte of the body, and then the temp file holds
  the whole body, whether or not the disk could have filled up; or the URL had an unexpired clean
  verdict in the cache, and then the file holds as much of the body as the disk took.
\<close>

theorem runScan_clean_sound:
  assumes "e_scan e = ScanReader cn" "e_max1 e = M" "e_max2 e = M" "0 \<le> M" "M < 2 ^ 63 - 1"
    and "scanned e saveTail url body oc j = (j', file)" "j_status j' = StatusClean"
  shows "int (length file) \<le> M \<and>
         ((\<exists>c ut. oc = Some c \<and> snd (urlLookup e c url) = Some (StatusClean, ut) \<and> file = room e (content body)) \<or>
          (\<exists>rs rest res. ScanReader cn (LimitReader (Suc (nat M)) body) = (rs, rest, Inr res) \<and>
             Clean res \<and> concat rs = content body \<and> file = content body))"
  using assms by (rule scanned_clean)

theorem runScan_clean_sound_witness:
  "\<exists>j'. scanned (demoEnv (demoConn True (''stream: OK'' @ [CHR 0x0A])) 10) False ''u'' (Read ''da'' (Final ''ta'' EOF)) None demoJob =
          (j', ''data'') \<and> j_status j' = StatusClean \<and> int (length ''data'') \<le> 10"
proof -
  let ?e = "demoEnv (demoConn True (''stream: OK'' @ [CHR 0x0A])) 10" and ?body = "Read ''da'' (Final ''ta'' EOF)"
  obtain j' f where run: "scanned ?e False ''u'' ?body None demoJob = (j', f)"
    by (cases "scanned ?e False ''u'' ?body None demoJob")
  then have clean: "j_status j' = StatusClean"
    by (auto simp: demo_simps)
  then have "f = content ?body \<and> int (length f) \<le> 10"
    using runScan_clean_sound [OF _ _ _ _ _ run clean, of "demoConn True (''stream: OK'' @ [CHR 0x0A])" 10]
    by (auto simp: demoEnv_def)
  with run clean show ?thesis by simp
qed

text \<open>
  Property C10. When clamd reports a threat in a body within the size limit and the URL has no cached
  verdict, the job ends infected with that threat name, the file holds the whole body, and the result
  sent to the reader is not clean, whatever verdict the content hash has in the cache.
\<close>

theorem runScan_infected:
  assumes "e_openOK e" "e_scan e = ScanReader cn" "e_max1 e = M" "e_max2 e = M" "0 \<le> M" "M < 2 ^ 63 - 1"
    and "ScanReader cn (teedBody e body) = (rs, rest, Inr res)" "\<not> Clean res"
    and "int (length (content body)) \<le> M" "\<forall>c. oc = Some c \<longrightarrow> snd (urlLookup e c url) = None"
    and "scanned e saveTail url body oc j = (j', file)"
  shows "j_status j' = StatusInfected \<and> j_threatName j' = ThreatName res \<and>
         j_resultCh j' = Some \<lparr>Clean = False, ThreatName = ThreatName res\<rparr> \<and> file = content body"
proof -
  have limit: "limitedBody e body = LimitReader (Suc (nat M)) body"
    using assms(3,5,6) by (simp only: limit_of_max limitedBody_def)
  have "teedBody e body = limitedBody e body"
    using clamd.scan_verdict_complete [OF assms(7)] by (intro teedBody_EOF) simp
  then have all: "concat rs = content body"
    using clamd.scan_verdict_reads_all [OF assms(7)] assms(5,9) by (simp add: limit content_LimitReader)
  have small: "\<not> M < int (length (concat rs))"
    using assms(9) all by simp
  let ?j = "setResult StatusScanning [] j"
  show ?thesis
  proof (rule runScan_cases [OF assms(1), of oc url saveTail body], goal_cases cached fresh)
    case (cached c c' us ut as c'')
    then show ?thesis
      using assms(10) by auto
  next
    case (fresh oc1 as oc' cmds)
    then have "as = tee rs @ publish StatusInfected (ThreatName res) @ deferred True"
      using assms(2,4,7,8) small
      by (auto simp: freshScan_def Let_def mergeResults_def split: prod.splits option.splits if_splits)
    moreover have "applyActs as (?j, []) = (j', file)"
      using fresh(4) assms(11) by (simp add: scanned_def)
    ultimately show ?thesis
      using applyActs_publish [of rs StatusInfected "ThreatName res" ?j "[]" j' "file"] all by simp
  qed
qed

theorem runScan_infected_witness:
  "\<exists>j'. scanned (demoEnv (demoConn True (''stream: Eicar FOUND'' @ [CHR 0x0A])) 10) True ''u'' (Final ''evil'' EOF) None demoJob =
          (j', ''evil'') \<and> j_status j' = StatusInfected \<and> j_threatName j' = ''Eicar''"
proof -
  let ?cn = "demoConn True (''stream: Eicar FOUND'' @ [CHR 0x0A])" and ?body = "Final ''evil'' EOF"
  let ?e = "demoEnv ?cn 10"
  obtain j' f where run: "scanned ?e True ''u'' ?body None demoJob = (j', f)"
    by (cases "scanned ?e True ''u'' ?body None demoJob")
  have sc: "ScanReader ?cn (teedBody ?e ?body) =
      ([''evil''], Final [] EOF, Inr \<lparr>Clean = False, ThreatName = ''Eicar''\<rparr>)"
    by (simp add: demo_simps)
  show ?thesis
    using runScan_infected [OF _ _ _ _ _ _ sc _ _ _ run] run by (simp add: demoEnv_def)
qed

text \<open>
  Property C36. A body longer than the limit, or than the disk takes, is not delivered whole when clamd
  cannot be reached: the drain stops at the limited reader or at the failed write, so the temp file holds
  at most limit + 1 bytes of the body, no tail is kept, and the result published is clean with status
  error. The reader of the job therefore sees a truncated file end normally.
\<close>

theorem runScan_unavailable_truncates:
  assumes "e_openOK e" "e_scan e = ScanReader cn" "\<not> dial_ok cn" "e_max1 e = M" "e_max2 e = M"
    and "0 \<le> M" "M < 2 ^ 63 - 1" "room e (take (Suc (nat M)) (content body)) \<noteq> content body"
    and "\<forall>c. oc = Some c \<longrightarrow> snd (urlLookup e c url) = None" "j_tailBody j = None"
    and "scanned e saveTail url body oc j = (j', file)"
  shows "file = room e (take (Suc (nat M)) (content body)) \<and> length file < length (content body) \<and>
         j_status j' = StatusError \<and> j_tailBody j' = None \<and> j_uploadDone j' \<and> j_resultCh j' = Some cleanResult"
proof -
  have limit: "limitedBody e body = LimitReader (Suc (nat M)) body"
    using assms(4,6,7) by (simp only: limit_of_max limitedBody_def)
  have short: "length (room e (take (Suc (nat M)) (content body))) < length (content body)"
    using assms(8) by (auto simp: room_def not_le split: option.splits)
  let ?j = "setResult StatusScanning [] j"
  show ?thesis
  proof (rule runScan_cases [OF assms(1), of oc url saveTail body], goal_cases cached fresh)
    case (cached c c' us ut as c'')
    then show ?thesis
      using assms(9) by auto
  next
    case (fresh oc1 as oc' cmds)
    then have "as = tee (reads (teedBody e body)) @ [SetStatus StatusError [], Send cleanResult] @ deferred True"
      using assms(2,3,5,6) by (auto simp: freshScan_def Let_def ScanReader_def tee_def)
    moreover have "applyActs as (?j, []) = (j', file)"
      using fresh(4) assms(11) by (simp add: scanned_def)
    ultimately show ?thesis
      using assms(10) short
      by (auto simp: applyActs_tee setResult_def deferred_def content_teedBody limit content_LimitReader)
  qed
qed

theorem runScan_unavailable_truncates_witness:
  "\<exists>j'. scanned (demoEnv (demoConn False []) 2) True ''u'' (Final ''abcdef'' EOF) None demoJob = (j', ''abc'') \<and>
        j_status j' = StatusError \<and> j_tailBody j' = None"
proof -
  let ?e = "demoEnv (demoConn False []) 2" and ?body = "Final ''abcdef'' EOF"
  obtain j' f where run: "scanned ?e True ''u'' ?body None demoJob = (j', f)"
    by (cases "scanned ?e True ''u'' ?body None demoJob")
  show ?thesis
    using runScan_unavailable_truncates [OF _ _ _ _ _ _ _ _ _ _ run, of "demoConn False []" 2] run
    by (simp add: demoEnv_def demoConn_def demoJob_def room_def)
qed

end
