(* ===== verification/Schedule.thy ===== *)
theory Schedule
  imports Main
begin

text \<open>
  Schedules of a step function, shared by the theories in which goroutines interleave: running a
  given list of events, and the interface of a goroutine that stops on its own.
\<close>

text \<open>\<open>None\<close> when some event of the schedule is not enabled where it comes up.\<close>

fun runEvents :: "('e \<Rightarrow> 's \<Rightarrow> 's option) \<Rightarrow> 'e list \<Rightarrow> 's \<Rightarrow> 's option" where
  "runEvents step [] s = Some s"
| "runEvents step (ev # evs) s = (case step ev s of None \<Rightarrow> None | Some s' \<Rightarrow> runEvents step evs s')"

lemma runEvents_Cons_Some [elim]:
  assumes "runEvents step (ev # evs) s = Some s'"
  obtains s1 where "step ev s = Some s1" "runEvents step evs s1 = Some s'"
  using assms by (auto split: option.splits)

text \<open>
  A goroutine, given by its own events, that loses rank with every step and is never blocked before
  it has ended: every schedule of it is short, and the ones that cannot be extended have ended.
\<close>

locale bounded_run =
  fixes step :: "'e \<Rightarrow> 's \<Rightarrow> 's option"
    and own :: "'e \<Rightarrow> bool"
    and inv :: "'s \<Rightarrow> bool"
    and rank :: "'s \<Rightarrow> nat"
    and ended :: "'s \<Rightarrow> bool"
  assumes inv_step: "inv s \<Longrightarrow> own ev \<Longrightarrow> step ev s = Some s' \<Longrightarrow> inv s'"
    and rank_step: "inv s \<Longrightarrow> own ev \<Longrightarrow> step ev s = Some s' \<Longrightarrow> rank s' < rank s"
    and not_blocked: "inv s \<Longrightarrow> \<not> ended s \<Longrightarrow> \<exists>ev s'. own ev \<and> step ev s = Some s'"
begin

lemma run_inv:
  assumes "runEvents step evs s = Some s'" "inv s" "list_all own evs"
  shows "inv s' \<and> length evs + rank s' \<le> rank s"
  using assms
proof (induction evs arbitrary: s)
  case (Cons ev evs)
  then obtain s1 where s1: "step ev s = Some s1" "runEvents step evs s1 = Some s'" by blast
  with Cons have "inv s1" "rank s1 < rank s"
    using inv_step [of s ev s1] rank_step [of s ev s1] by simp_all
  with Cons.IH [OF s1(2)] Cons.prems(3) show ?case by simp
qed simp

lemma run_bounded:
  assumes "runEvents step evs s = Some s'" "inv s" "list_all own evs"
  shows "length evs \<le> rank s \<and> (ended s' \<or> (\<exists>ev s''. own ev \<and> step ev s' = Some s''))"
  using run_inv [OF assms] not_blocked [of s'] by auto

end

end
