(* ===== verification/Trickle.thy ===== *)
theory Trickle
  imports Run_Scan Schedule
begin

text \<open>
  Trickle mode, \<^verbatim>\<open>internal/scan/trickle.go\<close>, and the two entry points of
  \<^verbatim>\<open>internal/scan/manager.go\<close> that start a scan (\<open>StartBrowserJob\<close>,
  \<open>StartCLIJob\<close>).

  A CLI download is two goroutines that share a job: \<open>runScan\<close>, given by the sequence of
  its effects (theory \<open>Run_Scan\<close>), and the server's copy loop calling
  \<open>TrickleBody.Read\<close>. \<open>trickleStep\<close> is one atomic step of either; a step of
  the reader is one pass of a loop up to the next channel operation, and an \<open>event\<close>
  resolves what the scheduler, the timer and the \<open>select\<close> statements choose. The temp
  file is written and the counter moved in one step, and \<open>ReadAt\<close> of the open file does
  not fail.
\<close>

section \<open>Starting a scan\<close>

text \<open>The goroutine's run on a job of the manager: its effects, the cache it leaves and its Redis writes.\<close>

definition startScan :: "scan_env \<Rightarrow> bool \<Rightarrow> reader \<Rightarrow> Job \<Rightarrow> Manager \<Rightarrow> act list \<times> Manager \<times> redis_set list" where
  "startScan e saveTail body job m =
     (let (as, oc, cmds) = runScan e saveTail (j_OriginalURL job) body (m_cache m)
      in (as, m\<lparr>m_cache := oc\<rparr>, cmds))"

definition StartBrowserJob :: "string \<Rightarrow> int \<Rightarrow> bool \<Rightarrow> scan_env \<Rightarrow> Request \<Rightarrow> reader Response \<Rightarrow> Manager \<Rightarrow> fs \<Rightarrow>
    Manager \<times> fs \<times> Job \<times> act list \<times> redis_set list" where
  "StartBrowserJob jid now createOK e req resp m fs =
     (let (m', fs', job) = newJob jid now createOK req resp m fs;
          (as, m'', cmds) = startScan e False (rs_Body resp) job m'
      in (m'', fs', job, as, cmds))"

text \<open>The goroutine's effects arrive in the job and in its temp file.\<close>

definition runJob :: "act list \<Rightarrow> Job \<Rightarrow> Manager \<times> fs \<Rightarrow> Manager \<times> fs" where
  "runJob as job = (\<lambda>(m, fs).
     let f = (case fs (j_TempPath job) of Some f \<Rightarrow> f | None \<Rightarrow> []);
         (job', f') = applyActs as (job, f)
     in (storeJob job' m,
         fs(j_TempPath job := (if OpenTrunc \<in> set as then Some f' else map_option (\<lambda>_. f') (fs (j_TempPath job))))))"

section \<open>The trickle reader\<close>

datatype trickleMode = ModeTrickling | ModeFlushing | ModeAborted

datatype read_end = RetEOF | RetVirus | RetErr

text \<open>Where the reader stands; the number is the length of the caller's buffer.\<close>

datatype pc =
    Idle
  | TrickleSelect nat
  | OneLoop nat
  | OneSelect nat
  | OneAwait nat
  | FlushLoop nat
  | FlushSelect nat

record session =
  s_acts :: "act list"
  s_job :: Job
  s_file :: bytes
  s_readPos :: nat
  s_mode :: trickleMode
  s_pc :: pc
  s_out :: bytes
  s_errs :: "read_end list"
  s_ticks :: nat
  s_closed :: bool
  s_bodyClosed :: bool

datatype event =
    Produce
  | ReadCall nat
  | Verdict
  | Tick
  | Pass
  | OnUploadDone
  | OnNewBytes
  | CloseCall

definition startSession :: "act list \<Rightarrow> Job \<Rightarrow> session" where
  "startSession as job =
     \<lparr>s_acts = as, s_job = job, s_file = [], s_readPos = 0, s_mode = ModeTrickling, s_pc = Idle,
      s_out = [], s_errs = [], s_ticks = 0, s_closed = False, s_bodyClosed = False\<rparr>"

text \<open>
  \<open>StartCLIJob\<close>: the body it returns is either the upstream body itself, when the temp
  file cannot be opened, or a trickling session.
\<close>

definition StartCLIJob :: "string \<Rightarrow> int \<Rightarrow> bool \<Rightarrow> bool \<Rightarrow> scan_env \<Rightarrow> Request \<Rightarrow> reader Response \<Rightarrow> Manager \<Rightarrow> fs \<Rightarrow>
    Manager \<times> fs \<times> Job \<times> (reader + session) \<times> redis_set list" where
  "StartCLIJob jid now createOK openOK e req resp m fs =
     (let (m', fs', job) = newJob jid now createOK req resp m fs
      in if \<not> openOK \<or> fs' (j_TempPath job) = None then
           (let job' = setResult StatusError [] job in (storeJob job' m', fs', job', Inl (rs_Body resp), []))
         else
           (let (as, m'', cmds) = startScan e True (rs_Body resp) job m'
            in (m'', fs', job, Inr (startSession as job), cmds)))"

text \<open>A return from \<open>Read\<close> with the bytes \<open>p\<close> and possibly an error.\<close>

definition ret :: "bytes \<Rightarrow> read_end option \<Rightarrow> session \<Rightarrow> session" where
  "ret p err s =
     s\<lparr>s_pc := Idle, s_out := s_out s @ p,
       s_errs := s_errs s @ (case err of None \<Rightarrow> [] | Some e \<Rightarrow> [e])\<rparr>"

definition ReadAt :: "bytes \<Rightarrow> nat \<Rightarrow> nat \<Rightarrow> bytes" where
  "ReadAt f n off = take n (drop off f)"

text \<open>One \<open>Read\<close> with a buffer of \<open>n\<close> bytes on the rest of the upstream body.\<close>

fun readTail :: "nat \<Rightarrow> reader \<Rightarrow> bytes \<times> reader \<times> read_end option" where
  "readTail n (Read p r) =
     (if length p \<le> n then (p, r, None) else (take n p, Read (drop n p) r, None))"
| "readTail n (Final p e) =
     (if length p \<le> n then (p, Final [] e, Some (case e of EOF \<Rightarrow> RetEOF | ReadErr \<Rightarrow> RetErr))
      else (take n p, Final (drop n p) e, None))"

definition enterRead :: "nat \<Rightarrow> session \<Rightarrow> session" where
  "enterRead n s =
     (case s_mode s of
        ModeAborted \<Rightarrow> ret [] (Some RetVirus) s
      | ModeFlushing \<Rightarrow> s\<lparr>s_pc := FlushLoop n\<rparr>
      | ModeTrickling \<Rightarrow> s\<lparr>s_pc := TrickleSelect n\<rparr>)"

text \<open>Receiving from \<open>resultCh\<close>, in \<open>Read\<close> and in \<open>readOne\<close>.\<close>

definition onResult :: "nat \<Rightarrow> session \<Rightarrow> session option" where
  "onResult n s =
     (case j_resultCh (s_job s) of
        None \<Rightarrow> None
      | Some res \<Rightarrow>
          (let s' = s\<lparr>s_job := (s_job s)\<lparr>j_resultCh := None\<rparr>\<rparr> in
           Some (if Clean res then s'\<lparr>s_mode := ModeFlushing, s_pc := FlushLoop n\<rparr>
                 else ret [] (Some RetVirus) (s'\<lparr>s_mode := ModeAborted\<rparr>))))"

definition onTick :: "nat \<Rightarrow> session \<Rightarrow> session" where
  "onTick n s =
     (let s' = s\<lparr>s_ticks := Suc (s_ticks s)\<rparr> in
      if n = 0 then ret [] None s' else s'\<lparr>s_pc := OneLoop n\<rparr>)"

text \<open>The test at the head of the loop of \<open>readOne\<close>, and its two select branches.\<close>

definition onePass :: "nat \<Rightarrow> session \<Rightarrow> session" where
  "onePass n s =
     (if s_readPos s < j_written (s_job s) then
        (let p = ReadAt (s_file s) 1 (s_readPos s)
         in ret p (if p = [] then Some RetEOF else None) (s\<lparr>s_readPos := s_readPos s + length p\<rparr>))
      else s\<lparr>s_pc := OneSelect n\<rparr>)"

definition oneDone :: "nat \<Rightarrow> session \<Rightarrow> session" where
  "oneDone n s =
     (if j_written (s_job s) \<le> s_readPos s then s\<lparr>s_pc := OneAwait n\<rparr> else s\<lparr>s_pc := OneLoop n\<rparr>)"

text \<open>The same for \<open>flushRead\<close>.\<close>

definition flushPass :: "nat \<Rightarrow> session \<Rightarrow> session" where
  "flushPass n s =
     (if s_readPos s < j_written (s_job s) then
        (let toRead = min n (j_written (s_job s) - s_readPos s);
             p = ReadAt (s_file s) toRead (s_readPos s)
         in if p \<noteq> [] then ret p None (s\<lparr>s_readPos := s_readPos s + length p\<rparr>)
            else s\<lparr>s_pc := FlushSelect n\<rparr>)
      else s\<lparr>s_pc := FlushSelect n\<rparr>)"

definition flushDone :: "nat \<Rightarrow> session \<Rightarrow> session" where
  "flushDone n s =
     (if j_written (s_job s) \<le> s_readPos s then
        (case j_tailBody (s_job s) of
           Some t \<Rightarrow>
             (let (p, t', err) = readTail n t
              in ret p err (s\<lparr>s_job := (s_job s)\<lparr>j_tailBody := Some t'\<rparr>\<rparr>))
         | None \<Rightarrow> ret [] (Some RetEOF) s)
      else s\<lparr>s_pc := FlushLoop n\<rparr>)"

definition produce :: "session \<Rightarrow> session option" where
  "produce s =
     (case s_acts s of
        [] \<Rightarrow> None
      | a # as \<Rightarrow>
          (let (job', f') = applyAct a (s_job s, s_file s)
           in Some (s\<lparr>s_acts := as, s_job := job', s_file := f', s_bodyClosed := (s_bodyClosed s \<or> a = CloseBody)\<rparr>)))"

text \<open>\<open>TrickleBody.Close\<close> closes the temp file, and the rest of the upstream body if it was handed over by then.\<close>

definition closeTrickle :: "session \<Rightarrow> session" where
  "closeTrickle s = s\<lparr>s_closed := True, s_bodyClosed := (s_bodyClosed s \<or> j_tailBody (s_job s) \<noteq> None)\<rparr>"

fun takeToken :: "pc \<Rightarrow> session \<Rightarrow> session option" where
  "takeToken p s =
     (if j_newBytes (s_job s) then Some (s\<lparr>s_job := (s_job s)\<lparr>j_newBytes := False\<rparr>, s_pc := p\<rparr>) else None)"

fun trickleStep :: "event \<Rightarrow> session \<Rightarrow> session option" where
  "trickleStep Produce s = produce s"
| "trickleStep (ReadCall n) s = (if s_pc s = Idle \<and> \<not> s_closed s then Some (enterRead n s) else None)"
| "trickleStep Verdict s =
     (case s_pc s of TrickleSelect n \<Rightarrow> onResult n s | OneAwait n \<Rightarrow> onResult n s | _ \<Rightarrow> None)"
| "trickleStep Tick s = (case s_pc s of TrickleSelect n \<Rightarrow> Some (onTick n s) | _ \<Rightarrow> None)"
| "trickleStep Pass s =
     (case s_pc s of OneLoop n \<Rightarrow> Some (onePass n s) | FlushLoop n \<Rightarrow> Some (flushPass n s) | _ \<Rightarrow> None)"
| "trickleStep OnUploadDone s =
     (if j_uploadDone (s_job s) then
        (case s_pc s of OneSelect n \<Rightarrow> Some (oneDone n s) | FlushSelect n \<Rightarrow> Some (flushDone n s) | _ \<Rightarrow> None)
      else None)"
| "trickleStep OnNewBytes s =
     (case s_pc s of OneSelect n \<Rightarrow> takeToken (OneLoop n) s | FlushSelect n \<Rightarrow> takeToken (FlushLoop n) s | _ \<Rightarrow> None)"
| "trickleStep CloseCall s = (if s_pc s = Idle \<and> \<not> s_closed s then Some (closeTrickle s) else None)"

inductive trickles :: "session \<Rightarrow> session \<Rightarrow> bool" for s0 where
  start: "trickles s0 s0"
| step: "trickles s0 s \<Longrightarrow> trickleStep ev s = Some s' \<Longrightarrow> trickles s0 s'"

section \<open>The invariant of a session\<close>

text \<open>The bytes a sequence of effects appends, and that nothing but the close of the body follows \<open>CloseUpload\<close>.\<close>

fun appended :: "act list \<Rightarrow> bytes" where
  "appended [] = []"
| "appended (Append p # as) = p @ appended as"
| "appended (_ # as) = appended as"

fun orderly :: "act list \<Rightarrow> bool" where
  "orderly [] = True"
| "orderly (CloseUpload # as) = (set as \<subseteq> {CloseBody})"
| "orderly (_ # as) = orderly as"

text \<open>
  What holds of the goroutine at every point: it will have written \<open>W\<close>, hand over the
  tail \<open>T\<close> and send the result \<open>R\<close>.
\<close>

definition producer_inv :: "bytes \<Rightarrow> reader option \<Rightarrow> ScanResult \<Rightarrow> session \<Rightarrow> bool" where
  "producer_inv W T R s \<longleftrightarrow>
     s_file s @ appended (s_acts s) = W \<and>
     OpenTrunc \<notin> set (drop 1 (s_acts s)) \<and> (OpenTrunc \<in> set (s_acts s) \<longrightarrow> s_file s = []) \<and>
     j_written (s_job s) = length (s_file s) \<and>
     (\<forall>r. Send r \<in> set (s_acts s) \<or> j_resultCh (s_job s) = Some r \<longrightarrow> r = R) \<and>
     (\<forall>t. SetTail t \<in> set (s_acts s) \<longrightarrow> T = Some t) \<and>
     (T = None \<or> SetTail (the T) \<in> set (s_acts s) \<or> j_tailBody (s_job s) \<noteq> None) \<and>
     orderly (s_acts s) \<and>
     (j_uploadDone (s_job s) \<longrightarrow> set (s_acts s) \<subseteq> {CloseBody}) \<and>
     (\<not> j_uploadDone (s_job s) \<longrightarrow> CloseUpload \<in> set (s_acts s)) \<and>
     (s_mode s = ModeTrickling \<longrightarrow> Send R \<in> set (s_acts s) \<or> j_resultCh (s_job s) = Some R)"

text \<open>What holds of the reader: it has delivered a prefix of the file, then of the tail.\<close>

definition tail_inv :: "reader option \<Rightarrow> bytes \<Rightarrow> session \<Rightarrow> bool" where
  "tail_inv T x s \<longleftrightarrow>
     (x \<noteq> [] \<longrightarrow> j_uploadDone (s_job s)) \<and>
     (case j_tailBody (s_job s) of
        None \<Rightarrow> x = []
      | Some t \<Rightarrow> (\<exists>t0. T = Some t0 \<and> content t0 = x @ content t \<and> ending t = ending t0))"

fun pc_mode :: "pc \<Rightarrow> trickleMode \<Rightarrow> bool" where
  "pc_mode Idle m = True"
| "pc_mode (FlushLoop n) m = (m = ModeFlushing)"
| "pc_mode (FlushSelect n) m = (m = ModeFlushing)"
| "pc_mode _ m = (m = ModeTrickling)"

definition reader_inv :: "bytes \<Rightarrow> reader option \<Rightarrow> ScanResult \<Rightarrow> session \<Rightarrow> bool" where
  "reader_inv W T R s \<longleftrightarrow>
     s_readPos s \<le> length (s_file s) \<and>
     (\<exists>x. s_out s = take (s_readPos s) (s_file s) @ x \<and> tail_inv T x s \<and>
          (x \<noteq> [] \<longrightarrow> s_readPos s = length (s_file s))) \<and>
     (s_mode s = ModeFlushing \<longrightarrow> Clean R) \<and> (s_mode s = ModeAborted \<longrightarrow> \<not> Clean R) \<and>
     pc_mode (s_pc s) (s_mode s) \<and>
     (RetEOF \<in> set (s_errs s) \<longrightarrow> Clean R \<and>
        s_out s = W @ (case T of None \<Rightarrow> [] | Some t \<Rightarrow> content t) \<and> (\<forall>t. T = Some t \<longrightarrow> ending t = EOF)) \<and>
     (RetVirus \<in> set (s_errs s) \<longrightarrow> \<not> Clean R)"

lemma orderly_tl: "orderly (a # as) \<Longrightarrow> orderly as"
proof (cases "a = CloseUpload")
  case True
  have "set as \<subseteq> {CloseBody} \<Longrightarrow> orderly as"
    by (induction as) auto
  with True show "orderly (a # as) \<Longrightarrow> orderly as" by simp
qed (cases a; simp)

lemma producer_inv_produce:
  assumes "producer_inv W T R s" "produce s = Some s'"
  shows "producer_inv W T R s'"
proof -
  obtain a as where a: "s_acts s = a # as"
    using assms(2) by (auto simp: produce_def split: list.splits)
  have "orderly as"
    using assms(1) a orderly_tl by (auto simp: producer_inv_def)
  moreover have s': "s' = s\<lparr>s_acts := as, s_job := fst (applyAct a (s_job s, s_file s)),
      s_file := snd (applyAct a (s_job s, s_file s)), s_bodyClosed := (s_bodyClosed s \<or> a = CloseBody)\<rparr>"
    using assms(2) a by (simp add: produce_def split: prod.splits)
  ultimately show ?thesis
    using assms(1) a unfolding producer_inv_def s'
    by (cases a) (simp_all add: setResult_def, auto dest: in_set_dropD)
qed

lemmas reader_defs = enterRead_def onResult_def onTick_def onePass_def oneDone_def flushPass_def flushDone_def ret_def
  closeTrickle_def

text \<open>A step of the reader leaves the goroutine's side alone, except for taking the result, the token and tail bytes.\<close>

definition frame :: "session \<Rightarrow> session \<Rightarrow> bool" where
  "frame s s' \<longleftrightarrow>
     s_acts s' = s_acts s \<and> s_file s' = s_file s \<and>
     j_written (s_job s') = j_written (s_job s) \<and> j_uploadDone (s_job s') = j_uploadDone (s_job s) \<and>
     (j_tailBody (s_job s') = None) = (j_tailBody (s_job s) = None) \<and>
     (j_resultCh (s_job s') = j_resultCh (s_job s) \<and> s_mode s' = s_mode s \<or>
      j_resultCh (s_job s') = None \<and> s_mode s' \<noteq> ModeTrickling)"

lemma frame_reader:
  "frame s (ret p err s)"
  "frame s (enterRead n s)"
  "onResult n s = Some s' \<Longrightarrow> frame s s'"
  "frame s (onTick n s)"
  "frame s (onePass n s)"
  "frame s (oneDone n s)"
  "frame s (flushPass n s)"
  "frame s (flushDone n s)"
  "frame s (closeTrickle s)"
  "takeToken pc s = Some s' \<Longrightarrow> frame s s'"
  by (auto simp: frame_def reader_defs Let_def split: trickleMode.splits option.splits prod.splits if_splits)

lemma frame_step:
  assumes "trickleStep ev s = Some s'" "ev \<noteq> Produce"
  shows "frame s s'"
  using assms
  by (cases ev) (auto simp: frame_reader simp del: takeToken.simps split: pc.splits if_splits)

lemma producer_inv_frame:
  assumes "producer_inv W T R s" "frame s s'"
  shows "producer_inv W T R s'"
proof -
  have eqs: "s_acts s' = s_acts s" "s_file s' = s_file s" "j_written (s_job s') = j_written (s_job s)"
      "j_uploadDone (s_job s') = j_uploadDone (s_job s)" "(j_tailBody (s_job s') = None) = (j_tailBody (s_job s) = None)"
    using assms(2) by (simp_all add: frame_def)
  consider "j_resultCh (s_job s') = j_resultCh (s_job s)" "s_mode s' = s_mode s"
    | "j_resultCh (s_job s') = None" "s_mode s' \<noteq> ModeTrickling"
    using assms(2) by (auto simp: frame_def)
  then show ?thesis
  proof cases
    case 1
    show ?thesis
      using assms(1) unfolding producer_inv_def eqs 1 .
  next
    case 2
    then have none: "(j_resultCh (s_job s') = Some r) = False" "(s_mode s' = ModeTrickling) = False" for r
      by simp_all
    show ?thesis
      using assms(1) unfolding producer_inv_def eqs none by (elim conjE, intro conjI) (assumption | blast)+
  qed
qed

lemma producer_inv_step:
  assumes "producer_inv W T R s" "trickleStep ev s = Some s'"
  shows "producer_inv W T R s'"
proof (cases "ev = Produce")
  case True
  with assms show ?thesis by (simp add: producer_inv_produce)
next
  case False
  show ?thesis
    using producer_inv_frame [OF assms(1) frame_step [OF assms(2) False]] .
qed

text \<open>Moves of the goroutine keep the reader's side: the file only grows, and not after the upload is done.\<close>

lemma reader_inv_produce:
  assumes "producer_inv W T R s" "reader_inv W T R s" "produce s = Some s'"
  shows "reader_inv W T R s'"
proof -
  obtain a as where a: "s_acts s = a # as"
    using assms(3) by (auto simp: produce_def split: list.splits)
  obtain x where x: "s_out s = take (s_readPos s) (s_file s) @ x" "tail_inv T x s"
      "x \<noteq> [] \<longrightarrow> s_readPos s = length (s_file s)"
    using assms(2) by (auto simp: reader_inv_def)
  have p: "a = OpenTrunc \<Longrightarrow> s_file s = []" "j_uploadDone (s_job s) \<Longrightarrow> a = CloseBody" "\<And>t. a = SetTail t \<Longrightarrow> T = Some t"
    using assms(1) a by (auto simp: producer_inv_def)
  have s': "s' = s\<lparr>s_acts := as, s_job := fst (applyAct a (s_job s, s_file s)),
      s_file := snd (applyAct a (s_job s, s_file s)), s_bodyClosed := (s_bodyClosed s \<or> a = CloseBody)\<rparr>"
    using assms(3) a by (simp add: produce_def split: prod.splits)
  have pos: "s_readPos s \<le> length (s_file s)"
    using assms(2) by (simp add: reader_inv_def)
  have "s_readPos s' \<le> length (s_file s') \<and> s_out s' = take (s_readPos s') (s_file s') @ x \<and> tail_inv T x s' \<and>
      (x \<noteq> [] \<longrightarrow> s_readPos s' = length (s_file s'))"
  proof (cases "x = []")
    case True
    with x pos p show ?thesis
      by (cases a) (auto simp: s' tail_inv_def setResult_def)
  next
    case False
    then have "a = CloseBody"
      using x(2) p(2) by (auto simp: tail_inv_def)
    with x pos show ?thesis
      by (simp add: s' tail_inv_def)
  qed
  moreover have "s_mode s' = s_mode s" "s_pc s' = s_pc s" "s_errs s' = s_errs s" "s_out s' = s_out s"
    by (simp_all add: s')
  ultimately show ?thesis
    using assms(2) unfolding reader_inv_def by auto
qed

lemma readTail_splits:
  "readTail n t = (p, t', err) \<Longrightarrow>
     content t = p @ content t' \<and> ending t' = ending t \<and>
     (err = Some RetEOF \<longrightarrow> content t' = [] \<and> ending t = EOF) \<and> err \<noteq> Some RetVirus"
  by (cases t) (auto split: if_splits rerr.splits)

lemma reader_inv_goto:
  "reader_inv W T R s \<Longrightarrow> pc_mode p (s_mode s) \<Longrightarrow> reader_inv W T R (s\<lparr>s_pc := p\<rparr>)"
  by (simp add: reader_inv_def tail_inv_def)

lemma reader_inv_token:
  "reader_inv W T R s \<Longrightarrow> reader_inv W T R (s\<lparr>s_job := (s_job s)\<lparr>j_newBytes := b\<rparr>\<rparr>)"
  by (simp add: reader_inv_def tail_inv_def)

lemma reader_inv_ticks: "reader_inv W T R s \<Longrightarrow> reader_inv W T R (s\<lparr>s_ticks := k\<rparr>)"
  by (simp add: reader_inv_def tail_inv_def)

lemma reader_inv_close: "reader_inv W T R s \<Longrightarrow> reader_inv W T R (closeTrickle s)"
  by (simp add: reader_inv_def tail_inv_def closeTrickle_def)

lemma reader_inv_ret_Nil:
  "reader_inv W T R s \<Longrightarrow> err \<noteq> Some RetEOF \<Longrightarrow> (err = Some RetVirus \<Longrightarrow> \<not> Clean R) \<Longrightarrow> reader_inv W T R (ret [] err s)"
  by (cases err) (auto simp: reader_inv_def tail_inv_def ret_def)

text \<open>Data from the file: the delivered prefix grows by what was read.\<close>

lemma reader_inv_data:
  assumes "producer_inv W T R s" "reader_inv W T R s" "s_readPos s < length (s_file s)" "0 < k" "p = ReadAt (s_file s) k (s_readPos s)"
  shows "reader_inv W T R (ret p None (s\<lparr>s_readPos := s_readPos s + length p\<rparr>))"
proof -
  have out: "s_out s = take (s_readPos s) (s_file s)" and tl: "tail_inv T [] s"
    using assms(2,3) unfolding reader_inv_def by (auto simp: order_less_irrefl)
  have "length (s_file s) \<le> length W"
    using assms(1) by (auto simp: producer_inv_def)
  then have "length (s_out s) < length W"
    using out assms(3) by simp
  moreover have "length W \<le> length (s_out s)" if "RetEOF \<in> set (s_errs s)"
    using assms(2) that by (simp add: reader_inv_def)
  ultimately have noEOF: "RetEOF \<notin> set (s_errs s)"
    using not_le by blast
  have p: "s_readPos s + length p \<le> length (s_file s)" "take (s_readPos s) (s_file s) @ p = take (s_readPos s + length p) (s_file s)"
    using assms(3,5) by (auto simp: ReadAt_def take_add min_def)
  show ?thesis
    using assms(2) out tl noEOF p unfolding reader_inv_def
    by (auto simp: ret_def tail_inv_def intro!: exI [of _ "[]"])
qed

lemma reader_inv_onResult:
  assumes "producer_inv W T R s" "reader_inv W T R s" "onResult n s = Some s'"
  shows "reader_inv W T R s'"
proof -
  obtain res where res: "j_resultCh (s_job s) = Some res"
    using assms(3) by (auto simp: onResult_def split: option.splits)
  have R: "res = R"
    using assms(1) res unfolding producer_inv_def by blast
  show ?thesis
    using assms(2,3) res unfolding R
    by (cases "Clean R") (auto simp: onResult_def reader_inv_def tail_inv_def ret_def)
qed

text \<open>After the upload, a reader that is not behind the counter has read the whole file.\<close>

lemma caught_up:
  assumes "producer_inv W T R s" "reader_inv W T R s" "j_uploadDone (s_job s)" "j_written (s_job s) \<le> s_readPos s"
  shows "s_file s = W \<and> s_readPos s = length W"
proof -
  have "appended as = []" if "set as \<subseteq> {CloseBody}" for as
    using that by (induction as) auto
  moreover have "s_file s @ appended (s_acts s) = W" "set (s_acts s) \<subseteq> {CloseBody}"
    using assms(1,3) unfolding producer_inv_def by blast+
  ultimately have "s_file s = W" by simp
  then show ?thesis
    using assms(1,2,4) by (simp add: producer_inv_def reader_inv_def)
qed

lemma reader_inv_flushDone:
  assumes "producer_inv W T R s" "reader_inv W T R s" "j_uploadDone (s_job s)" "s_mode s = ModeFlushing"
  shows "reader_inv W T R (flushDone n s)"
proof (cases "j_written (s_job s) \<le> s_readPos s")
  case False
  then show ?thesis
    using assms(2,4) by (simp add: flushDone_def reader_inv_goto)
next
  case True
  have f: "s_file s = W" "s_readPos s = length W"
    using caught_up [OF assms(1-3) True] by simp_all
  obtain x where x: "s_out s = W @ x" "tail_inv T x s"
    using assms(2) f by (auto simp: reader_inv_def)
  have clean: "Clean R"
    using assms(2,4) by (simp add: reader_inv_def)
  show ?thesis
  proof (cases "j_tailBody (s_job s)")
    case None
    then have "T = None"
      using assms(1,3) by (cases T) (auto simp: producer_inv_def)
    then show ?thesis
      using None True x f clean assms(2,4)
      by (auto simp: flushDone_def reader_inv_def tail_inv_def ret_def)
  next
    case (Some t)
    then obtain t0 where t0: "T = Some t0" "content t0 = x @ content t" "ending t = ending t0"
      using x(2) by (auto simp: tail_inv_def)
    obtain p t' err where r: "readTail n t = (p, t', err)"
      by (cases "readTail n t")
    have t: "content t = p @ content t'" "ending t' = ending t" "err = Some RetEOF \<Longrightarrow> content t' = [] \<and> ending t = EOF"
        "err \<noteq> Some RetVirus"
      using readTail_splits [OF r] by auto
    have "tail_inv T (x @ p) (ret p err (s\<lparr>s_job := (s_job s)\<lparr>j_tailBody := Some t'\<rparr>\<rparr>))"
      using t0 t assms(3) by (simp add: tail_inv_def ret_def)
    moreover have "RetEOF \<in> set (s_errs s) \<Longrightarrow> p = [] \<and> content t' = [] \<and> ending t0 = EOF"
      using assms(2) x(1) t0 t(1) by (auto simp: reader_inv_def)
    ultimately show ?thesis
      using Some True r x f clean assms(2,4) t t0
      unfolding reader_inv_def flushDone_def
      by (cases err) (auto simp: ret_def)
  qed
qed

lemma reader_inv_enterRead: "reader_inv W T R s \<Longrightarrow> reader_inv W T R (enterRead n s)"
  by (auto simp: enterRead_def reader_inv_goto split: trickleMode.split
      intro!: reader_inv_ret_Nil) (simp add: reader_inv_def)

lemma reader_inv_onTick:
  "reader_inv W T R s \<Longrightarrow> s_mode s = ModeTrickling \<Longrightarrow> reader_inv W T R (onTick n s)"
  by (auto simp: onTick_def Let_def intro!: reader_inv_ret_Nil reader_inv_ticks reader_inv_goto)

lemma reader_inv_onePass:
  assumes "producer_inv W T R s" "reader_inv W T R s" "s_mode s = ModeTrickling"
  shows "reader_inv W T R (onePass n s)"
proof (cases "s_readPos s < j_written (s_job s)")
  case True
  then have pos: "s_readPos s < length (s_file s)"
    using assms(1) by (simp add: producer_inv_def)
  then have "ReadAt (s_file s) 1 (s_readPos s) \<noteq> []"
    by (simp add: ReadAt_def)
  then show ?thesis
    using True reader_inv_data [OF assms(1,2) pos, of 1] by (simp add: onePass_def Let_def)
next
  case False
  with assms show ?thesis by (simp add: onePass_def reader_inv_goto)
qed

lemma reader_inv_flushPass:
  assumes "producer_inv W T R s" "reader_inv W T R s" "s_mode s = ModeFlushing"
  shows "reader_inv W T R (flushPass n s)"
proof (cases "s_readPos s < j_written (s_job s)")
  case True
  then have pos: "s_readPos s < length (s_file s)"
    using assms(1) by (simp add: producer_inv_def)
  show ?thesis
  proof (cases "n = 0")
    case True
    with assms show ?thesis
      by (simp add: flushPass_def ReadAt_def reader_inv_goto)
  next
    case False
    with True assms reader_inv_data [OF assms(1,2) pos, of "min n (j_written (s_job s) - s_readPos s)"]
    show ?thesis
      by (simp add: flushPass_def Let_def reader_inv_goto)
  qed
next
  case False
  with assms show ?thesis by (simp add: flushPass_def reader_inv_goto)
qed

lemma reader_inv_takeToken:
  "reader_inv W T R s \<Longrightarrow> pc_mode p (s_mode s) \<Longrightarrow> takeToken p s = Some s' \<Longrightarrow> reader_inv W T R s'"
  by (auto intro!: reader_inv_goto reader_inv_token split: if_splits)

lemma reader_inv_step:
  assumes "producer_inv W T R s" "reader_inv W T R s" "trickleStep ev s = Some s'"
  shows "reader_inv W T R s'"
proof -
  have mode: "pc_mode (s_pc s) (s_mode s)"
    using assms(2) by (simp add: reader_inv_def)
  show ?thesis
  proof (cases ev)
    case Produce
    with assms reader_inv_produce show ?thesis by simp
  next
    case (ReadCall n)
    with assms show ?thesis by (auto simp: reader_inv_enterRead split: if_splits)
  next
    case Verdict
    with assms show ?thesis by (auto intro: reader_inv_onResult split: pc.splits)
  next
    case Tick
    with assms mode show ?thesis by (auto intro: reader_inv_onTick split: pc.splits)
  next
    case Pass
    with assms mode show ?thesis by (auto intro: reader_inv_onePass reader_inv_flushPass split: pc.splits)
  next
    case OnUploadDone
    with assms mode show ?thesis
      by (auto intro: reader_inv_flushDone simp: oneDone_def reader_inv_goto split: pc.splits if_splits)
  next
    case OnNewBytes
    with assms mode show ?thesis
      by (auto simp del: takeToken.simps elim!: reader_inv_takeToken [rotated 2] split: pc.splits)
  next
    case CloseCall
    with assms show ?thesis by (auto simp: reader_inv_close split: if_splits)
  qed
qed

lemma trickles_inv:
  assumes "trickles s0 s" "producer_inv W T R s0" "reader_inv W T R s0"
  shows "producer_inv W T R s \<and> reader_inv W T R s"
  using assms
proof (induction rule: trickles.induct)
  case (step s ev s')
  then show ?case
    using producer_inv_step reader_inv_step by blast
qed simp

section \<open>Sessions of a scan\<close>

text \<open>A job as \<open>newJob\<close> makes it.\<close>

definition freshJob :: "Job \<Rightarrow> bool" where
  "freshJob j \<longleftrightarrow> j_written j = 0 \<and> \<not> j_newBytes j \<and> \<not> j_uploadDone j \<and> j_resultCh j = None \<and> j_tailBody j = None"

lemma freshJob_newJob: "newJob jid now ok req resp m fs = (m', fs', job) \<Longrightarrow> freshJob job"
  by (auto simp: newJob_def freshJob_def Let_def)

lemma appended_tee: "appended (tee ws @ as) = concat ws @ appended as"
proof (induction ws)
  case (Cons w ws)
  then show ?case by (cases "w = []") (auto simp: tee_def)
qed (simp add: tee_def)

lemma orderly_tee: "orderly (tee ws @ as) = orderly as"
proof (induction ws)
  case (Cons w ws)
  then show ?case by (cases "w = []") (auto simp: tee_def)
qed (simp add: tee_def)

lemma startSession_inv:
  assumes "freshJob job" "pre = [] \<or> pre = [OpenTrunc, SetStatus st0 th0]"
  shows "producer_inv (concat ws) T R (startSession (pre @ scanActs ws T st th R owned) job)"
    and "reader_inv (concat ws) T R (startSession as job)"
proof -
  have "set (tee ws) \<subseteq> range Append"
    by (auto simp: tee_def)
  then show "producer_inv (concat ws) T R (startSession (pre @ scanActs ws T st th R owned) job)"
    using assms
    by (cases T)
       (auto simp: producer_inv_def startSession_def scanActs_def deferred_def freshJob_def appended_tee orderly_tee
         dest: in_set_dropD)
  show "reader_inv (concat ws) T R (startSession as job)"
    using assms by (simp add: reader_inv_def tail_inv_def startSession_def freshJob_def)
qed

text \<open>Every session of a scan, at any point, with what the scan will have written, handed over and answered.\<close>

lemma scan_session:
  assumes "e_scan e = ScanReader cn" "freshJob job"
    and "trickles (startSession (fst (runScan e True url body oc)) job) s"
    and "scanned e True url body oc job = (j', file)"
  obtains T R where "producer_inv file T R s" "reader_inv file T R s" "Clean R \<longleftrightarrow> j_status j' \<noteq> StatusInfected"
    "steady e \<Longrightarrow> T = (if j_status j' = StatusTooLarge then Some (bodyRest (length file) body) else None)"
    "\<exists>rest. content body = file @ rest"
proof -
  obtain pre st0 th0 ws tb st th r owned where shape:
      "fst (runScan e True url body oc) = pre @ scanActs ws tb st th r owned"
      "pre = [] \<or> pre = [OpenTrunc, SetStatus st0 th0]" "scan_promise True body e ws tb st r"
  proof (cases "e_openOK e")
    case True
    then show ?thesis
      using that runScan_shape [of e True url body oc] clamd.scan_backend_axioms [of cn] assms(1) by (metis append_Cons)
  next
    case False
    then have "fst (runScan e True url body oc) = [] @ scanActs [] None StatusError [] cleanResult True"
      by (simp add: runScan_def scanActs_def tee_def)
    moreover have "scan_promise True body e [] None StatusError cleanResult"
      by (simp add: scan_promise_def cleanResult_def)
    ultimately show ?thesis
      using that by blast
  qed
  have res: "file = concat ws" "j_status j' = st"
    using assms(4) shape(1,2) by (auto simp: scanned_def applyActs_scanActs)
  have "producer_inv (concat ws) tb r s \<and> reader_inv (concat ws) tb r s"
    using trickles_inv [OF assms(3)] startSession_inv [OF assms(2) shape(2)] by (simp add: shape(1))
  moreover have "Clean r \<longleftrightarrow> st \<noteq> StatusInfected" "\<exists>rest. content body = concat ws @ rest"
      "steady e \<Longrightarrow> tb = (if st = StatusTooLarge then Some (bodyRest (length (concat ws)) body) else None)"
    using shape(3) by (auto simp: scan_promise_def)
  ultimately show thesis
    using that [of tb r] by (simp only: res)
qed

text \<open>What the reader of such a session has delivered.\<close>

lemma session_prefix:
  assumes "e_scan e = ScanReader cn" "freshJob job" "steady e"
    and "trickles (startSession (fst (runScan e True url body oc)) job) s"
  shows "\<exists>rest. content body = s_out s @ rest"
proof -
  obtain j' f where sc: "scanned e True url body oc job = (j', f)"
    by (cases "scanned e True url body oc job")
  obtain T R rest where inv: "producer_inv f T R s" "reader_inv f T R s"
      and T: "T = (if j_status j' = StatusTooLarge then Some (bodyRest (length f) body) else None)"
      and f: "content body = f @ rest"
    using scan_session [OF assms(1,2,4) sc] assms(3) by metis
  obtain x where x: "s_out s = take (s_readPos s) (s_file s) @ x" "tail_inv T x s" "x \<noteq> [] \<longrightarrow> s_readPos s = length (s_file s)"
    using inv(2) by (auto simp: reader_inv_def)
  have W: "s_file s @ appended (s_acts s) = f"
    using inv(1) by (simp add: producer_inv_def)
  show ?thesis
  proof (cases "x = []")
    case True
    have "content body = take (s_readPos s) (s_file s) @ drop (s_readPos s) (s_file s) @ appended (s_acts s) @ rest"
      by (simp add: f flip: W)
    with True x(1) show ?thesis by auto
  next
    case False
    then have "j_uploadDone (s_job s)" "s_readPos s = length (s_file s)"
      using x by (auto simp: tail_inv_def)
    moreover have "appended as = []" if "set as \<subseteq> {CloseBody}" for as
      using that by (induction as) auto
    ultimately have "s_file s = f"
      using inv(1) W unfolding producer_inv_def by fastforce
    moreover from False x(2) obtain t t0 where "T = Some t0" "content t0 = x @ content t"
      by (auto simp: tail_inv_def split: option.splits)
    ultimately show ?thesis
      using x f T \<open>s_readPos s = length (s_file s)\<close> by (auto simp: content_bodyRest split: if_splits)
  qed
qed

lemma session_infected:
  assumes "e_scan e = ScanReader cn" "freshJob job"
    and "trickles (startSession (fst (runScan e True url body oc)) job) s"
    and "scanned e True url body oc job = (j', file)" "j_status j' = StatusInfected"
  shows "RetEOF \<notin> set (s_errs s) \<and> s_mode s \<noteq> ModeFlushing"
  by (rule scan_session [OF assms(1-4)]) (auto simp: reader_inv_def assms(5))

lemma session_eof_complete:
  assumes "e_scan e = ScanReader cn" "freshJob job" "e_max1 e = M" "e_max2 e = M" "0 \<le> M" "M < 2 ^ 63 - 1" "room e (content body) = content body"
    and "trickles (startSession (fst (runScan e True url body oc)) job) s"
    and "scanned e True url body oc job = (j', file)" "RetEOF \<in> set (s_errs s)"
  shows "j_status j' \<noteq> StatusInfected \<and>
         (j_status j' \<in> {StatusClean, StatusTooLarge} \<longrightarrow> s_out s = content body)"
proof -
  obtain T R rest where inv: "reader_inv file T R s" and R: "Clean R \<longleftrightarrow> j_status j' \<noteq> StatusInfected"
      and T: "T = (if j_status j' = StatusTooLarge then Some (bodyRest (length file) body) else None)"
      and f: "content body = file @ rest"
    using scan_session [OF assms(1,2,8,9)] assms(3-5) unfolding steady_def by metis
  have out: "Clean R" "s_out s = file @ (case T of None \<Rightarrow> [] | Some t \<Rightarrow> content t)"
    using inv assms(10) by (simp_all add: reader_inv_def)
  moreover have "file = content body" if "j_status j' = StatusClean"
    using scanned_clean_complete [OF assms(1,3-7,9) that] .
  ultimately show ?thesis
    using R T f by (auto simp: content_bodyRest)
qed

text \<open>The rate of the trickle: a tick pays for the byte that \<open>readOne\<close> is about to return.\<close>

definition rate_inv :: "session \<Rightarrow> bool" where
  "rate_inv s \<longleftrightarrow>
     pc_mode (s_pc s) (s_mode s) \<and>
     (s_mode s \<noteq> ModeFlushing \<longrightarrow>
        length (s_out s) + (case s_pc s of OneLoop n \<Rightarrow> 1 | OneSelect n \<Rightarrow> 1 | OneAwait n \<Rightarrow> 1 | _ \<Rightarrow> 0) \<le> s_ticks s)"

lemma rate_step:
  assumes "rate_inv s" "trickleStep ev s = Some s'"
  shows "rate_inv s'"
proof (cases ev)
  case Produce
  with assms show ?thesis
    by (auto simp: rate_inv_def produce_def split: list.splits prod.splits)
next
  case OnUploadDone
  with assms show ?thesis
    by (auto simp: rate_inv_def oneDone_def flushDone_def ret_def split: pc.splits option.splits prod.splits if_splits)
qed (use assms in \<open>auto simp: rate_inv_def reader_defs ReadAt_def Let_def split: pc.splits option.splits trickleMode.splits if_splits\<close>)

lemma rate_trickles: "trickles (startSession as job) s \<Longrightarrow> rate_inv s"
proof (induction rule: trickles.induct)
  case start
  show ?case by (simp add: rate_inv_def startSession_def)
next
  case (step s ev s')
  then show ?case by (rule_tac rate_step)
qed

text \<open>Running a given schedule.\<close>

abbreviation exec :: "event list \<Rightarrow> session \<Rightarrow> session option" where
  "exec \<equiv> runEvents trickleStep"

lemma exec_trickles: "exec evs s = Some s' \<Longrightarrow> trickles s0 s \<Longrightarrow> trickles s0 s'"
  by (induction evs arbitrary: s) (auto intro: trickles.step split: option.splits)

text \<open>How a call returns when the upload is done and, if it still trickles, the result is there.\<close>

fun pc_buf :: "pc \<Rightarrow> nat" where
  "pc_buf Idle = 0"
| "pc_buf (TrickleSelect n) = n"
| "pc_buf (OneLoop n) = n"
| "pc_buf (OneSelect n) = n"
| "pc_buf (OneAwait n) = n"
| "pc_buf (FlushLoop n) = n"
| "pc_buf (FlushSelect n) = n"

text \<open>The steps inside a call of \<open>Read\<close>: none of them is enabled when no call is under way.\<close>

fun read_event :: "event \<Rightarrow> bool" where
  "read_event Produce = False"
| "read_event (ReadCall _) = False"
| "read_event CloseCall = False"
| "read_event _ = True"

text \<open>
  How far the call is from its return. With unread bytes in the file the next pass returns;
  without, a token left in \<open>newBytes\<close> costs one more round of a loop.
\<close>

fun rank_unread :: "pc \<Rightarrow> nat" where
  "rank_unread Idle = 0"
| "rank_unread (OneLoop _) = 1"
| "rank_unread (FlushLoop _) = 1"
| "rank_unread _ = 2"

fun rank_read :: "pc \<Rightarrow> nat" where
  "rank_read Idle = 0"
| "rank_read (FlushSelect _) = 1"
| "rank_read (FlushLoop _) = 2"
| "rank_read (OneAwait _) = 3"
| "rank_read (OneSelect _) = 4"
| "rank_read (OneLoop _) = 5"
| "rank_read (TrickleSelect _) = 6"

definition read_rank :: "session \<Rightarrow> nat" where
  "read_rank s =
     (if s_readPos s < j_written (s_job s) then rank_unread (s_pc s)
      else if s_pc s = Idle then 0
      else rank_read (s_pc s) + (if j_newBytes (s_job s) then 2 else 0))"

lemma read_rank_bounds: "read_rank s \<le> 8" "s_pc s = Idle \<Longrightarrow> read_rank s = 0"
  by (cases "s_pc s"; simp add: read_rank_def)+

text \<open>What the call relies on once the goroutine has ended.\<close>

definition settled :: "session \<Rightarrow> bool" where
  "settled s \<longleftrightarrow>
     j_uploadDone (s_job s) \<and> j_written (s_job s) = length (s_file s) \<and> pc_mode (s_pc s) (s_mode s) \<and>
     (s_pc s \<noteq> Idle \<longrightarrow> 0 < pc_buf (s_pc s) \<and> (s_mode s = ModeTrickling \<longrightarrow> j_resultCh (s_job s) \<noteq> None))"

lemma ret_Idle [simp]: "s_pc (ret p err s) = Idle"
  by (simp add: ret_def)

lemma ret_frame [simp]: "s_job (ret p err s) = s_job s" "s_file (ret p err s) = s_file s"
  by (simp_all add: ret_def)

lemma read_rank_ret [simp]: "read_rank (ret p err s) = 0"
  by (simp add: read_rank_bounds)

lemma ReadAt_unread: "0 < n \<Longrightarrow> off < length f \<Longrightarrow> ReadAt f n off \<noteq> []"
  by (simp add: ReadAt_def)

lemma settled_onResult:
  assumes "settled s" "s_pc s = TrickleSelect n \<or> s_pc s = OneAwait n" "onResult n s = Some s'"
  shows "settled s' \<and> read_rank s' < read_rank s"
proof -
  obtain R where R: "j_resultCh (s_job s) = Some R"
    using assms(3) by (cases "j_resultCh (s_job s)") (simp_all add: onResult_def)
  have "0 < read_rank s" using assms(2) by (auto simp: read_rank_def)
  with assms R show ?thesis
    by (cases "Clean R") (auto simp: onResult_def settled_def, auto simp: read_rank_def)
qed

lemma settled_onTick: "settled s \<Longrightarrow> s_pc s = TrickleSelect n \<Longrightarrow> settled (onTick n s) \<and> read_rank (onTick n s) < read_rank s"
  by (auto simp: onTick_def settled_def read_rank_def Let_def)

lemma settled_onePass: "settled s \<Longrightarrow> s_pc s = OneLoop n \<Longrightarrow> settled (onePass n s) \<and> read_rank (onePass n s) < read_rank s"
  by (auto simp: onePass_def settled_def Let_def) (auto simp: read_rank_def)

lemma settled_flushPass: "settled s \<Longrightarrow> s_pc s = FlushLoop n \<Longrightarrow> settled (flushPass n s) \<and> read_rank (flushPass n s) < read_rank s"
  using ReadAt_unread [of "min n (j_written (s_job s) - s_readPos s)" "s_readPos s" "s_file s"]
  by (auto simp: flushPass_def settled_def Let_def) (auto simp: read_rank_def)

lemma settled_oneDone: "settled s \<Longrightarrow> s_pc s = OneSelect n \<Longrightarrow> settled (oneDone n s) \<and> read_rank (oneDone n s) < read_rank s"
  by (auto simp: oneDone_def settled_def read_rank_def)

lemma settled_flushDone: "settled s \<Longrightarrow> s_pc s = FlushSelect n \<Longrightarrow> settled (flushDone n s) \<and> read_rank (flushDone n s) < read_rank s"
  by (auto simp: flushDone_def settled_def Let_def split: option.splits prod.splits) (auto simp: read_rank_def)

lemma settled_takeToken:
  assumes "settled s" "s_pc s = OneSelect n \<and> p = OneLoop n \<or> s_pc s = FlushSelect n \<and> p = FlushLoop n" "takeToken p s = Some s'"
  shows "settled s' \<and> read_rank s' < read_rank s"
  using assms by (auto simp: settled_def read_rank_def split: if_splits)

lemma settled_step:
  assumes "settled s" "read_event ev" "trickleStep ev s = Some s'"
  shows "settled s' \<and> read_rank s' < read_rank s"
proof (cases ev)
  case Verdict
  with assms settled_onResult [OF assms(1)] show ?thesis by (auto split: pc.splits)
next
  case Tick
  with assms settled_onTick [OF assms(1)] show ?thesis by (auto split: pc.splits)
next
  case Pass
  with assms settled_onePass [OF assms(1)] settled_flushPass [OF assms(1)] show ?thesis by (auto split: pc.splits)
next
  case OnUploadDone
  with assms settled_oneDone [OF assms(1)] settled_flushDone [OF assms(1)] show ?thesis by (auto split: pc.splits if_splits)
next
  case OnNewBytes
  with assms settled_takeToken [OF assms(1)] show ?thesis by (auto split: pc.splits simp del: takeToken.simps)
qed (use assms in simp_all)

lemma settled_progress:
  assumes "settled s" "s_pc s \<noteq> Idle"
  shows "\<exists>ev s'. read_event ev \<and> trickleStep ev s = Some s'"
proof -
  have "\<exists>ev \<in> {Tick, Verdict, Pass, OnUploadDone}. trickleStep ev s \<noteq> None"
    using assms by (cases "s_pc s") (auto simp: settled_def onResult_def Let_def)
  then obtain ev where "read_event ev" "trickleStep ev s \<noteq> None"
    by (force simp del: trickleStep.simps)
  then show ?thesis by blast
qed

interpretation read: bounded_run trickleStep read_event settled read_rank "\<lambda>s. s_pc s = Idle"
  by unfold_locales (use settled_step settled_progress in blast)+

text \<open>Schedules for the witnesses, on a body over the limit of two bytes and on an infected one.\<close>

definition demoSession :: "string \<Rightarrow> int \<Rightarrow> bytes \<Rightarrow> session" where
  "demoSession reply M body =
     startSession (fst (runScan (demoEnv (demoConn True reply) M) True ''u'' (Final body EOF) None)) demoJob"

definition demoSchedule :: "event list" where
  "demoSchedule = replicate 7 Produce @
     [ReadCall 10, Tick, Pass, ReadCall 10, Verdict, Pass, ReadCall 10, Pass, OnUploadDone]"

lemma demoActs_large:
  "fst (runScan (demoEnv (demoConn True ''stream: OK'') 2) True ''u'' (Final ''abcdef'' EOF) None) =
     [OpenTrunc, SetStatus StatusScanning [], Append ''abc'', SetTail (Final ''def'' EOF), SetStatus StatusTooLarge [],
      Send cleanResult, CloseUpload]"
  by (simp add: demo_simps)

lemma demoActs_infected:
  "fst (runScan (demoEnv (demoConn True ''stream: Eicar FOUND'') 10) True url (Final ''evil'' EOF) None) =
     [OpenTrunc, SetStatus StatusScanning [], Append ''evil'', SetStatus StatusInfected ''Eicar'',
      Send \<lparr>Clean = False, ThreatName = ''Eicar''\<rparr>, CloseUpload, CloseBody]"
  by (simp add: demo_simps)

lemmas demo_step_simps = demoSession_def demoActs_large demoActs_infected demoSchedule_def demoJob_def startSession_def
  produce_def reader_defs ReadAt_def cleanResult_def setResult_def Let_def eval_nat_numeral

lemma demoSession_large:
  "\<exists>s. trickles (demoSession ''stream: OK'' 2 ''abcdef'') s \<and> s_out s = ''abcdef'' \<and> s_errs s = [RetEOF]"
proof -
  obtain s where s: "exec demoSchedule (demoSession ''stream: OK'' 2 ''abcdef'') = Some s" "s_out s = ''abcdef''" "s_errs s = [RetEOF]"
    by (simp add: demo_step_simps)
  then show ?thesis
    using exec_trickles [OF _ trickles.start] by blast
qed

lemma demoSession_infected:
  "\<exists>s. trickles (demoSession ''stream: Eicar FOUND'' 10 ''evil'') s \<and> s_out s = ''e'' \<and> s_mode s = ModeTrickling"
proof -
  obtain s where s: "exec [Produce, Produce, Produce, ReadCall 10, Tick, Pass] (demoSession ''stream: Eicar FOUND'' 10 ''evil'') = Some s"
      "s_out s = ''e''" "s_mode s = ModeTrickling"
    by (simp add: demo_step_simps)
  then show ?thesis
    using exec_trickles [OF _ trickles.start] by blast
qed

lemma freshJob_demoJob: "freshJob demoJob"
  by (simp add: freshJob_def demoJob_def)

section \<open>Properties\<close>

text \<open>
  Property C15. At every moment of every interleaving of the scan with a CLI download, what the
  client has received is a prefix of the upstream body: no byte is lost, repeated or reordered,
  neither in the trickle, nor in the flush, nor when the unscanned tail is handed over. A full disk
  does not break this as long as the size limit is not lowered during the scan.
\<close>

theorem trickle_prefix:
  assumes "e_scan e = ScanReader cn" "freshJob job" "steady e"
    and "trickles (startSession (fst (runScan e True url body oc)) job) s"
  shows "\<exists>rest. content body = s_out s @ rest"
  using assms by (rule session_prefix)

theorem trickle_prefix_witness:
  "\<exists>s rest. trickles (demoSession ''stream: OK'' 2 ''abcdef'') s \<and> ''abcdef'' = s_out s @ rest"
proof -
  obtain s where s: "trickles (demoSession ''stream: OK'' 2 ''abcdef'') s"
    using demoSession_large by blast
  then show ?thesis
    using trickle_prefix [OF _ freshJob_demoJob _ s [unfolded demoSession_def], of "demoConn True ''stream: OK''"]
    by (auto simp: demoEnv_def steady_def)
qed

text \<open>
  Property C6. A job that ends infected never completes the client's download: in no interleaving
  does a \<open>Read\<close> return EOF or start to flush, so the client holds at most what was
  trickled, one byte per interval.
\<close>

theorem trickle_infected_never_completes:
  assumes "e_scan e = ScanReader cn" "freshJob job"
    and "trickles (startSession (fst (runScan e True url body oc)) job) s"
    and "scanned e True url body oc job = (j', file)" "j_status j' = StatusInfected"
  shows "RetEOF \<notin> set (s_errs s) \<and> s_mode s \<noteq> ModeFlushing"
  using assms by (rule session_infected)

theorem trickle_infected_never_completes_witness:
  "\<exists>s. trickles (demoSession ''stream: Eicar FOUND'' 10 ''evil'') s \<and> s_out s = ''e'' \<and> RetEOF \<notin> set (s_errs s)"
proof -
  obtain s where s: "trickles (demoSession ''stream: Eicar FOUND'' 10 ''evil'') s" "s_out s = ''e''"
    using demoSession_infected by blast
  let ?e = "demoEnv (demoConn True ''stream: Eicar FOUND'') 10"
  obtain j' f where run: "scanned ?e True ''u'' (Final ''evil'' EOF) None demoJob = (j', f)"
    by (cases "scanned ?e True ''u'' (Final ''evil'' EOF) None demoJob")
  then have "j_status j' = StatusInfected"
    by (auto simp: demo_simps)
  from trickle_infected_never_completes [OF _ freshJob_demoJob s(1) [unfolded demoSession_def] run this,
      of "demoConn True ''stream: Eicar FOUND''"]
  show ?thesis
    using s by (auto simp: demoEnv_def)
qed



text \<open>
  Before a clean verdict the client gets at most one byte per tick of the interval timer,
  for any effects of the scanning goroutine.
\<close>

lemma trickle_rate:
  assumes "trickles (startSession as job) s" "s_mode s \<noteq> ModeFlushing"
  shows "length (s_out s) \<le> s_ticks s"
  using rate_trickles [OF assms(1)] assms(2) by (auto simp: rate_inv_def split: pc.splits)

text \<open>
  Property C16. Once the scanning goroutine has ended, every \<open>Read\<close> with a non-empty buffer
  returns: from wherever the call stands, and however the timer and the \<open>select\<close> statements
  choose, it takes at most eight more steps, and it is never blocked before it is back at its caller.
\<close>

theorem trickle_returns:
  assumes "e_scan e = ScanReader cn" "freshJob job"
    and "trickles (startSession (fst (runScan e True url body oc)) job) s" "s_acts s = []" "0 < pc_buf (s_pc s)"
    and "exec evs s = Some s'" "list_all read_event evs"
  shows "length evs \<le> 8 \<and> (s_pc s' = Idle \<or> (\<exists>ev s''. read_event ev \<and> trickleStep ev s' = Some s''))"
proof -
  obtain j' f where sc: "scanned e True url body oc job = (j', f)"
    by (cases "scanned e True url body oc job")
  obtain T R where inv: "producer_inv f T R s" "reader_inv f T R s"
    by (rule scan_session [OF assms(1-3) sc])
  have "\<not> j_uploadDone (s_job s) \<longrightarrow> CloseUpload \<in> set (s_acts s)" "j_written (s_job s) = length (s_file s)"
      "s_mode s = ModeTrickling \<longrightarrow> Send R \<in> set (s_acts s) \<or> j_resultCh (s_job s) = Some R"
    using inv(1) unfolding producer_inv_def by blast+
  moreover have "pc_mode (s_pc s) (s_mode s)"
    using inv(2) by (simp add: reader_inv_def)
  ultimately have "settled s"
    using assms(4,5) by (auto simp: settled_def)
  from read.run_bounded [OF assms(6) this assms(7)] read_rank_bounds(1) [of s] show ?thesis by simp
qed

theorem trickle_returns_witness:
  "\<exists>s s'. trickles (demoSession ''stream: OK'' 2 ''abcdef'') s \<and> s_pc s = TrickleSelect 10 \<and>
     exec [Tick, Pass] s = Some s' \<and> length [Tick, Pass] \<le> 8 \<and>
     (s_pc s' = Idle \<or> (\<exists>ev s''. read_event ev \<and> trickleStep ev s' = Some s''))"
proof -
  obtain s s' where s: "exec (replicate 7 Produce @ [ReadCall 10]) (demoSession ''stream: OK'' 2 ''abcdef'') = Some s"
      "s_pc s = TrickleSelect 10" "s_acts s = []" "exec [Tick, Pass] s = Some s'"
    by (simp add: demo_step_simps)
  then have t: "trickles (demoSession ''stream: OK'' 2 ''abcdef'') s"
    using exec_trickles [OF _ trickles.start] by blast
  from trickle_returns [OF _ freshJob_demoJob t [unfolded demoSession_def] s(3) _ s(4), of "demoConn True ''stream: OK''"]
  have "length [Tick, Pass] \<le> 8 \<and> (s_pc s' = Idle \<or> (\<exists>ev s''. read_event ev \<and> trickleStep ev s' = Some s''))"
    using s(2) by (simp add: demoEnv_def)
  with s t show ?thesis by blast
qed

text \<open>
  A client that disconnects before the goroutine hands over the tail of an oversized
  body leaks the upstream body: \<open>Close\<close> found no tail, the goroutine gave up ownership, and
  when both have finished nobody has closed it.
\<close>

lemma trickle_close_leaks_body:
  "\<exists>s. trickles (demoSession ''stream: OK'' 2 ''abcdef'') s \<and> s_acts s = [] \<and> s_closed s \<and> \<not> s_bodyClosed s"
proof -
  obtain s where s: "exec (CloseCall # replicate 7 Produce) (demoSession ''stream: OK'' 2 ''abcdef'') = Some s"
      "s_acts s = []" "s_closed s" "\<not> s_bodyClosed s"
    by (simp add: demo_step_simps)
  then show ?thesis
    using exec_trickles [OF _ trickles.start] by blast
qed

end
