(* ===== verification/Syslog.thy ===== *)
theory Syslog
  imports Prelude
begin

text \<open>
  Access records and their RFC 5424 form: \<^verbatim>\<open>internal/logger/record.go\<close> and
  \<^verbatim>\<open>internal/logger/syslog5424.go\<close>. The time stamp format of package time and the
  cipher suite names of crypto/tls are parameters. \<open>parseSD\<close> is a reference reader of
  structured data elements, written from RFC 5424, section 6.3.
\<close>

section \<open>Model\<close>

record AccessRecord =
  lr_Time :: int
  lr_RequestID :: string
  lr_ClientIP :: string
  lr_XForwardedFor :: string
  lr_Method :: string
  lr_Scheme :: string
  lr_Host :: string
  lr_Path :: string
  lr_StatusCode :: int
  lr_BytesSent :: int
  lr_DurationMS :: int
  lr_UserAgent :: string
  lr_ContentType :: string
  lr_TLSVersion :: string
  lr_TLSCipher :: string
  lr_EventType :: string
  lr_BlockReason :: string

text \<open>The zero value of the struct, which composite literals update.\<close>

definition zeroRecord :: AccessRecord where
  "zeroRecord = \<lparr>lr_Time = 0, lr_RequestID = [], lr_ClientIP = [], lr_XForwardedFor = [], lr_Method = [],
     lr_Scheme = [], lr_Host = [], lr_Path = [], lr_StatusCode = 0, lr_BytesSent = 0, lr_DurationMS = 0,
     lr_UserAgent = [], lr_ContentType = [], lr_TLSVersion = [], lr_TLSCipher = [], lr_EventType = [], lr_BlockReason = []\<rparr>"

definition sdID :: string where
  "sdID = ''httpAccess@32473''"

definition nilify :: "string \<Rightarrow> string" where
  "nilify s = (if s = [] then ''-'' else s)"

definition escapeSyslog :: "string \<Rightarrow> string" where
  "escapeSyslog s =
     (let s = ReplaceAll s CHR 0x5C [CHR 0x5C, CHR 0x5C];
          s = ReplaceAll s CHR 0x22 [CHR 0x5C, CHR 0x22];
          s = ReplaceAll s CHR '']'' [CHR 0x5C, CHR '']'']
      in s)"

definition sdFields :: "AccessRecord \<Rightarrow> (string \<times> string) list" where
  "sdFields r =
     [(''eventType'', if lr_EventType r = [] then ''access'' else lr_EventType r),
      (''blockReason'', lr_BlockReason r),
      (''requestId'', lr_RequestID r),
      (''clientIP'', lr_ClientIP r),
      (''xForwardedFor'', lr_XForwardedFor r),
      (''method'', lr_Method r),
      (''scheme'', lr_Scheme r),
      (''host'', lr_Host r),
      (''path'', lr_Path r),
      (''status'', fmt_d (lr_StatusCode r)),
      (''bytes'', fmt_d (lr_BytesSent r)),
      (''durationMS'', fmt_d (lr_DurationMS r)),
      (''userAgent'', lr_UserAgent r),
      (''contentType'', lr_ContentType r),
      (''tlsVersion'', lr_TLSVersion r),
      (''tlsCipher'', lr_TLSCipher r)]"

definition sdParam :: "string \<times> string \<Rightarrow> string" where
  "sdParam f = '' '' @ fst f @ [CHR ''='', CHR 0x22] @ escapeSyslog (nilify (snd f)) @ [CHR 0x22]"

definition buildSD :: "AccessRecord \<Rightarrow> string" where
  "buildSD r = ''['' @ sdID @ concat (map sdParam (sdFields r)) @ '']''"

definition Format5424 :: "(int \<Rightarrow> string) \<Rightarrow> AccessRecord \<Rightarrow> string \<Rightarrow> string \<Rightarrow> string \<Rightarrow> string" where
  "Format5424 rfc3339Nano r hostname appName procID =
     (let ts = rfc3339Nano (lr_Time r);
          sd = buildSD r;
          msg = ''- '' @ lr_Method r @ '' '' @ lr_Scheme r @ ''://'' @ lr_Host r @ lr_Path r @ '' '' @ fmt_d (lr_StatusCode r)
      in ''<'' @ fmt_d 14 @ ''>'' @ fmt_d 1 @ '' '' @ ts @ '' '' @ nilify hostname @ '' '' @ nilify appName @ '' '' @
         nilify procID @ '' - '' @ sd @ '' '' @ msg)"

text \<open>\<open>fmt.Sprintf("%04x", v)\<close> on a \<open>uint16\<close>.\<close>

definition fmt_04x :: "16 word \<Rightarrow> string" where
  "fmt_04x v = (let h = fmt_x (unat v) in replicate (4 - length h) CHR ''0'' @ h)"

definition TLSVersionString :: "16 word \<Rightarrow> string" where
  "TLSVersionString v =
     (if v = 0x0301 then ''TLS1.0'' else if v = 0x0302 then ''TLS1.1''
      else if v = 0x0303 then ''TLS1.2'' else if v = 0x0304 then ''TLS1.3''
      else ''TLS0x'' @ fmt_04x v)"

definition TLSCipherString :: "(16 word \<Rightarrow> string) \<Rightarrow> 16 word \<Rightarrow> string" where
  "TLSCipherString cipherSuiteName v =
     (let name = cipherSuiteName v in if name \<noteq> [] then name else ''0x'' @ fmt_04x v)"

section \<open>A reference reader of structured data\<close>

fun parseValue :: "string \<Rightarrow> (string \<times> string) option" where
  "parseValue [] = None"
| "parseValue (c # s) =
     (if c = CHR 0x22 then Some ([], s)
      else if c = CHR '']'' then None
      else if c = CHR 0x5C then
        (case s of
           [] \<Rightarrow> None
         | d # s' \<Rightarrow> if d \<in> {CHR 0x22, CHR 0x5C, CHR '']''} then map_option (\<lambda>(v, r). (d # v, r)) (parseValue s')
                    else map_option (\<lambda>(v, r). (c # v, r)) (parseValue s))
      else map_option (\<lambda>(v, r). (c # v, r)) (parseValue s))"

lemma parseValue_shorter: "parseValue s = Some (v, r) \<Longrightarrow> length r < length s"
proof (induction s arbitrary: v rule: parseValue.induct)
  case (2 c s)
  consider "c = CHR 0x22" "r = s"
    | d s' v' where "c \<noteq> CHR 0x22" "c \<noteq> CHR '']''" "c = CHR 0x5C" "s = d # s'" "d \<in> {CHR 0x22, CHR 0x5C, CHR '']''}"
        "parseValue s' = Some (v', r)"
    | d s' v' where "c \<noteq> CHR 0x22" "c \<noteq> CHR '']''" "c = CHR 0x5C" "s = d # s'" "d \<notin> {CHR 0x22, CHR 0x5C, CHR '']''}"
        "parseValue s = Some (v', r)"
    | v' where "c \<noteq> CHR 0x22" "c \<noteq> CHR '']''" "c \<noteq> CHR 0x5C" "parseValue s = Some (v', r)"
    using 2(4) by (simp add: option.map_sel split: if_splits list.splits option.splits prod.splits) blast+
  then show ?case
  proof cases
    case 1
    then show ?thesis by simp
  next
    case 2
    then show ?thesis using "2.IH"(1) by fastforce
  next
    case 3
    then show ?thesis using "2.IH"(2) by fastforce
  next
    case 4
    then show ?thesis using "2.IH"(3) by fastforce
  qed
qed simp

text \<open>The characters allowed in a parameter name.\<close>

definition nameChar :: "char \<Rightarrow> bool" where
  "nameChar c \<longleftrightarrow> c \<notin> {CHR ''='', CHR '' '', CHR '']'', CHR 0x22}"

function parseParams :: "string \<Rightarrow> ((string \<times> string) list \<times> string) option" where
  "parseParams s =
     (if take 1 s = '']'' then Some ([], drop 1 s)
      else if take 1 s \<noteq> '' '' then None
      else
        (let name = takeWhile nameChar (drop 1 s); rest = dropWhile nameChar (drop 1 s) in
         if name = [] \<or> take 2 rest \<noteq> [CHR ''='', CHR 0x22] then None
         else (case parseValue (drop 2 rest) of
                 None \<Rightarrow> None
               | Some (v, r) \<Rightarrow> map_option (\<lambda>(ps, t). ((name, v) # ps, t)) (parseParams r))))"
  by pat_completeness auto
termination
proof (relation "measure length", goal_cases)
  case (2 s name rest vr v r)
  then have "length r < length (drop 2 rest)"
    using parseValue_shorter by fastforce
  moreover have "length rest \<le> length s"
    using 2 length_dropWhile_le [of nameChar "drop 1 s"] by simp
  ultimately show ?case by simp
qed simp

declare parseParams.simps [simp del]

definition parseSD :: "string \<Rightarrow> (string \<times> (string \<times> string) list \<times> string) option" where
  "parseSD s =
     (if take 1 s \<noteq> ''['' then None
      else (let sid = takeWhile nameChar (drop 1 s) in
            if sid = [] then None
            else map_option (\<lambda>(ps, t). (sid, ps, t)) (parseParams (dropWhile nameChar (drop 1 s)))))"

section \<open>Lemmas\<close>

definition escapeChar :: "char \<Rightarrow> string" where
  "escapeChar c = (if c \<in> {CHR 0x22, CHR 0x5C, CHR '']''} then [CHR 0x5C, c] else [c])"

text \<open>The three passes amount to one: a later pass does not touch what an earlier one wrote.\<close>

lemma escapeSyslog_chars: "escapeSyslog s = concat (map escapeChar s)"
  by (induction s) (auto simp: escapeSyslog_def ReplaceAll_def escapeChar_def Let_def)

lemma parseValue_escape: "parseValue (concat (map escapeChar v) @ CHR 0x22 # r) = Some (v, r)"
  by (induction v) (auto simp: escapeChar_def)

lemma parseParams_end: "parseParams (CHR '']'' # s) = Some ([], s)"
  by (subst parseParams.simps) simp

lemma parseParams_sdParam:
  assumes "list_all nameChar (fst f)" "fst f \<noteq> []"
  shows "parseParams (sdParam f @ s) = map_option (\<lambda>(ps, t). ((fst f, nilify (snd f)) # ps, t)) (parseParams s)"
proof -
  let ?tail = "[CHR ''='', CHR 0x22] @ concat (map escapeChar (nilify (snd f))) @ CHR 0x22 # s"
  have split: "takeWhile nameChar (fst f @ ?tail) = fst f" "dropWhile nameChar (fst f @ ?tail) = ?tail"
    using assms(1) by (simp_all add: nameChar_def list_all_iff takeWhile_append2 dropWhile_append2)
  show ?thesis
    using assms(2) split
    by (subst parseParams.simps) (simp add: sdParam_def escapeSyslog_chars parseValue_escape)
qed

lemma parseParams_fields:
  "\<forall>f \<in> set fs. list_all nameChar (fst f) \<and> fst f \<noteq> [] \<Longrightarrow>
   parseParams (concat (map sdParam fs) @ CHR '']'' # s) = Some (map (\<lambda>(k, v). (k, nilify v)) fs, s)"
  by (induction fs) (auto simp: parseParams_end parseParams_sdParam)

section \<open>Properties\<close>

text \<open>
  Property C34. Structured data round trip: a reader of RFC 5424 recovers from a record's structured
  data every field name and value exactly as logged (an empty value as \<open>-\<close>), and stops at
  the closing bracket of the element, whatever quotes, brackets and backslashes the request put
  into its values.
\<close>

theorem syslog_sd_roundtrip:
  "parseSD (buildSD r @ rest) = Some (sdID, map (\<lambda>(k, v). (k, nilify v)) (sdFields r), rest)"
proof -
  have names: "\<forall>f \<in> set (sdFields r). list_all nameChar (fst f) \<and> fst f \<noteq> []"
    by (simp add: sdFields_def nameChar_def)
  obtain t where t: "concat (map sdParam (sdFields r)) @ CHR '']'' # rest = CHR '' '' # t"
    by (simp add: sdFields_def sdParam_def)
  have "takeWhile nameChar (sdID @ CHR '' '' # t) = sdID" "dropWhile nameChar (sdID @ CHR '' '' # t) = CHR '' '' # t"
    by (simp_all add: sdID_def nameChar_def)
  then show ?thesis
    using parseParams_fields [OF names, of rest] t
    by (simp add: parseSD_def buildSD_def sdID_def)
qed

end
