(* ===== verification/Sender.thy ===== *)
theory Sender
  imports Syslog Schedule "HOL-Library.Sublist"
begin

text \<open>
  The asynchronous log sender, \<^verbatim>\<open>internal/logger/sender.go\<close>: a buffered channel
  between the request handlers and one drain goroutine.

  A step is one channel operation of either side together with the write it triggers; the
  parameters of a step say whether dialling and writing succeed. The state also records the
  history the properties speak about: the records accepted into the channel, those taken out of
  it, those written, and those accepted when \<open>Close\<close> was called.
\<close>

section \<open>Buffered channels\<close>

record 'a chan =
  ch_cap :: nat
  ch_buf :: "'a list"

definition makeChan :: "nat \<Rightarrow> 'a chan" where
  "makeChan n = \<lparr>ch_cap = n, ch_buf = []\<rparr>"

text \<open>The \<open>select\<close> with a default: \<open>None\<close> when the default branch is taken.\<close>

definition trySend :: "'a \<Rightarrow> 'a chan \<Rightarrow> 'a chan option" where
  "trySend x c = (if length (ch_buf c) < ch_cap c then Some (c\<lparr>ch_buf := ch_buf c @ [x]\<rparr>) else None)"

definition tryRecv :: "'a chan \<Rightarrow> ('a \<times> 'a chan) option" where
  "tryRecv c = (case ch_buf c of [] \<Rightarrow> None | x # xs \<Rightarrow> Some (x, c\<lparr>ch_buf := xs\<rparr>))"

text \<open>The interface the sender relies on, and what follows for the history of a channel.\<close>

locale fifo_channel =
  fixes items :: "'c \<Rightarrow> 'a list"
    and cap :: "'c \<Rightarrow> nat"
    and offer :: "'a \<Rightarrow> 'c \<Rightarrow> 'c option"
    and receive :: "'c \<Rightarrow> ('a \<times> 'c) option"
  assumes offer_Some: "offer x c = Some c' \<Longrightarrow> items c' = items c @ [x] \<and> cap c' = cap c \<and> length (items c) < cap c"
    and offer_None: "offer x c = None \<longleftrightarrow> cap c \<le> length (items c)"
    and receive_Some: "receive c = Some (x, c') \<Longrightarrow> items c = x # items c' \<and> cap c' = cap c"
    and receive_None: "receive c = None \<longleftrightarrow> items c = []"
begin

definition history :: "'c \<Rightarrow> 'a list \<Rightarrow> 'a list \<Rightarrow> bool" where
  "history c accepted taken \<longleftrightarrow> accepted = taken @ items c \<and> length (items c) \<le> cap c"

lemma history_offer: "history c accepted taken \<Longrightarrow> offer x c = Some c' \<Longrightarrow> history c' (accepted @ [x]) taken"
  by (drule offer_Some) (simp add: history_def)

lemma history_receive: "history c accepted taken \<Longrightarrow> receive c = Some (x, c') \<Longrightarrow> history c' accepted (taken @ [x])"
  by (drule receive_Some) (simp add: history_def)

lemma history_drained: "history c accepted taken \<Longrightarrow> receive c = None \<Longrightarrow> taken = accepted"
  by (simp add: history_def receive_None)

end

interpretation chan: fifo_channel ch_buf ch_cap trySend tryRecv
  by unfold_locales (auto simp: trySend_def tryRecv_def split: if_splits list.splits)

section \<open>Model\<close>

datatype drain_pc = Draining | FlushingRest | Returned

record Sender =
  sd_ch :: "AccessRecord chan"
  sd_stop :: bool
  sd_pc :: drain_pc
  sd_conn :: bool
  sd_wire :: "bytes list"
  sd_accepted :: "AccessRecord list"
  sd_taken :: "AccessRecord list"
  sd_written :: "AccessRecord list"
  sd_atClose :: "AccessRecord list"

text \<open>
  A fresh sender; \<open>dialOK\<close> is the outcome of the drain goroutine's first dial. The format
  function is \<open>Format5424\<close> with the sender's host name, application name and process id.
\<close>

definition NewSender :: "nat \<Rightarrow> bool \<Rightarrow> Sender" where
  "NewSender bufSize dialOK =
     \<lparr>sd_ch = makeChan bufSize, sd_stop = False, sd_pc = Draining, sd_conn = dialOK, sd_wire = [],
      sd_accepted = [], sd_taken = [], sd_written = [], sd_atClose = []\<rparr>"

definition SendRecord :: "AccessRecord \<Rightarrow> Sender \<Rightarrow> Sender" where
  "SendRecord r s =
     (case trySend r (sd_ch s) of
        Some c \<Rightarrow> s\<lparr>sd_ch := c, sd_accepted := sd_accepted s @ [r]\<rparr>
      | None \<Rightarrow> s)"

definition CloseSender :: "Sender \<Rightarrow> Sender" where
  "CloseSender s = s\<lparr>sd_stop := True, sd_atClose := sd_accepted s\<rparr>"

text \<open>The closure \<open>write\<close> of \<open>drain\<close>; a failed write closes the connection and loses the record.\<close>

definition writeRecord :: "(AccessRecord \<Rightarrow> bytes) \<Rightarrow> bool \<Rightarrow> bool \<Rightarrow> AccessRecord \<Rightarrow> Sender \<Rightarrow> Sender" where
  "writeRecord format dialOK writeOK r s =
     (let msg = format r @ [CHR 0x0A];
          conn = (if sd_conn s then True else dialOK)
      in if \<not> conn then s\<lparr>sd_conn := False\<rparr>
         else if writeOK then s\<lparr>sd_conn := True, sd_wire := sd_wire s @ [msg], sd_written := sd_written s @ [r]\<rparr>
         else s\<lparr>sd_conn := False\<rparr>)"

datatype sender_event =
    EvSend AccessRecord
  | EvClose
  | EvReceive bool bool
  | EvStop
  | EvFlush bool bool
  | EvReturn

text \<open>\<open>EvReceive\<close> and \<open>EvFlush\<close> carry the outcomes of a dial and a write.\<close>

definition receiveOne :: "(AccessRecord \<Rightarrow> bytes) \<Rightarrow> bool \<Rightarrow> bool \<Rightarrow> Sender \<Rightarrow> Sender option" where
  "receiveOne format dialOK writeOK s =
     map_option (\<lambda>(r, c). writeRecord format dialOK writeOK r (s\<lparr>sd_ch := c, sd_taken := sd_taken s @ [r]\<rparr>)) (tryRecv (sd_ch s))"

fun senderStep :: "(AccessRecord \<Rightarrow> bytes) \<Rightarrow> sender_event \<Rightarrow> Sender \<Rightarrow> Sender option" where
  "senderStep format (EvSend r) s = Some (SendRecord r s)"
| "senderStep format EvClose s = (if sd_stop s then None else Some (CloseSender s))"
| "senderStep format (EvReceive d w) s = (if sd_pc s = Draining then receiveOne format d w s else None)"
| "senderStep format EvStop s = (if sd_pc s = Draining \<and> sd_stop s then Some (s\<lparr>sd_pc := FlushingRest\<rparr>) else None)"
| "senderStep format (EvFlush d w) s = (if sd_pc s = FlushingRest then receiveOne format d w s else None)"
| "senderStep format EvReturn s =
     (if sd_pc s = FlushingRest \<and> tryRecv (sd_ch s) = None then Some (s\<lparr>sd_pc := Returned, sd_conn := False\<rparr>) else None)"

inductive sends :: "(AccessRecord \<Rightarrow> bytes) \<Rightarrow> Sender \<Rightarrow> Sender \<Rightarrow> bool" for format s0 where
  start: "sends format s0 s0"
| step: "sends format s0 s \<Longrightarrow> senderStep format ev s = Some s' \<Longrightarrow> sends format s0 s'"

text \<open>A run in which no dial and no write fails.\<close>

fun healthy_event :: "sender_event \<Rightarrow> bool" where
  "healthy_event (EvReceive d w) = (d \<and> w)"
| "healthy_event (EvFlush d w) = (d \<and> w)"
| "healthy_event _ = True"

inductive sends_healthy :: "(AccessRecord \<Rightarrow> bytes) \<Rightarrow> Sender \<Rightarrow> Sender \<Rightarrow> bool" for format s0 where
  start: "sends_healthy format s0 s0"
| step: "sends_healthy format s0 s \<Longrightarrow> senderStep format ev s = Some s' \<Longrightarrow> healthy_event ev \<Longrightarrow> sends_healthy format s0 s'"

section \<open>Invariants\<close>

definition sender_inv :: "nat \<Rightarrow> (AccessRecord \<Rightarrow> bytes) \<Rightarrow> Sender \<Rightarrow> bool" where
  "sender_inv n format s \<longleftrightarrow>
     chan.history (sd_ch s) (sd_accepted s) (sd_taken s) \<and> ch_cap (sd_ch s) = n \<and>
     subseq (sd_written s) (sd_taken s) \<and>
     sd_wire s = map (\<lambda>r. format r @ [CHR 0x0A]) (sd_written s) \<and>
     (sd_stop s \<longrightarrow> prefix (sd_atClose s) (sd_accepted s)) \<and>
     (sd_pc s \<noteq> Draining \<longrightarrow> sd_stop s) \<and>
     (sd_pc s = Returned \<longrightarrow> prefix (sd_atClose s) (sd_taken s))"

lemma cap_trySend: "trySend r c = Some c' \<Longrightarrow> ch_cap c' = ch_cap c"
  by (auto dest: chan.offer_Some)

lemma cap_tryRecv: "tryRecv c = Some (r, c') \<Longrightarrow> ch_cap c' = ch_cap c"
  by (auto dest: chan.receive_Some)

lemma sender_inv_Send: "sender_inv n format s \<Longrightarrow> sender_inv n format (SendRecord r s)"
  by (auto simp: sender_inv_def SendRecord_def cap_trySend prefix_append split: option.split
      intro: chan.history_offer)

lemma sender_inv_receive:
  assumes "sender_inv n format s" "receiveOne format d w s = Some s'" "sd_pc s \<noteq> Returned"
  shows "sender_inv n format s' \<and> sd_pc s' = sd_pc s"
proof -
  obtain r c where rc: "tryRecv (sd_ch s) = Some (r, c)"
      "s' = writeRecord format d w r (s\<lparr>sd_ch := c, sd_taken := sd_taken s @ [r]\<rparr>)"
    using assms(2) by (auto simp: receiveOne_def)
  have "chan.history c (sd_accepted s) (sd_taken s @ [r])"
    using assms(1) chan.history_receive [OF _ rc(1)] by (simp add: sender_inv_def)
  moreover have "subseq (sd_written s) (sd_taken s @ [r])" "subseq (sd_written s @ [r]) (sd_taken s @ [r])"
    using assms(1) by (simp_all add: sender_inv_def subseq_rev_drop_many list_emb_append_mono)
  ultimately show ?thesis
    using assms cap_tryRecv [OF rc(1)] rc(2) by (auto simp: sender_inv_def writeRecord_def Let_def)
qed

lemma sender_inv_step:
  assumes "sender_inv n format s" "senderStep format ev s = Some s'"
  shows "sender_inv n format s'"
proof (cases ev)
  case (EvSend r)
  with assms show ?thesis by (auto simp: sender_inv_Send)
next
  case (EvReceive d w)
  with assms sender_inv_receive [OF assms(1)] show ?thesis by (auto split: if_splits)
next
  case (EvFlush d w)
  with assms sender_inv_receive [OF assms(1)] show ?thesis by (auto split: if_splits)
next
  case EvReturn
  then have "sd_taken s = sd_accepted s"
    using assms chan.history_drained by (auto simp: sender_inv_def split: if_splits)
  with EvReturn assms show ?thesis by (auto simp: sender_inv_def split: if_splits)
qed (use assms in \<open>auto simp: sender_inv_def CloseSender_def split: if_splits\<close>)

lemma sender_inv_sends: "sends format (NewSender n d) s \<Longrightarrow> sender_inv n format s"
proof (induction rule: sends.induct)
  case start
  show ?case by (simp add: sender_inv_def NewSender_def makeChan_def chan.history_def)
next
  case (step s ev s')
  then show ?case by (rule_tac sender_inv_step)
qed

lemma sends_healthy_sends: "sends_healthy format s0 s \<Longrightarrow> sends format s0 s"
  by (induction rule: sends_healthy.induct) (auto intro: sends.intros)

lemma receiveOne_healthy: "receiveOne format True True s = Some s' \<Longrightarrow> sd_written s = sd_taken s \<Longrightarrow> sd_written s' = sd_taken s'"
  by (auto simp: receiveOne_def writeRecord_def Let_def)

lemma healthy_written: "sends_healthy format (NewSender n d) s \<Longrightarrow> sd_written s = sd_taken s"
proof (induction rule: sends_healthy.induct)
  case start
  show ?case by (simp add: NewSender_def)
next
  case (step s ev s')
  then show ?case
    by (cases ev) (auto simp: SendRecord_def CloseSender_def receiveOne_healthy split: if_splits option.splits)
qed

text \<open>A run for the witnesses: two records offered to a queue of one, then a clean shutdown.\<close>

definition demoRecord :: "string \<Rightarrow> AccessRecord" where
  "demoRecord h = zeroRecord\<lparr>lr_Host := h\<rparr>"

abbreviation execSender :: "(AccessRecord \<Rightarrow> bytes) \<Rightarrow> sender_event list \<Rightarrow> Sender \<Rightarrow> Sender option" where
  "execSender format \<equiv> runEvents (senderStep format)"

lemma execSender_healthy:
  assumes "sends_healthy format s0 s" "execSender format evs s = Some s'" "list_all healthy_event evs"
  shows "sends_healthy format s0 s'"
  using assms
proof (induction evs arbitrary: s)
  case (Cons ev evs)
  then show ?case by (auto split: option.splits intro: sends_healthy.step)
qed simp

lemma demoSender_run:
  "\<exists>s. execSender lr_Host [EvSend (demoRecord ''a''), EvSend (demoRecord ''b''), EvClose] (NewSender 1 True) = Some s \<and>
       sd_atClose s = [demoRecord ''a''] \<and> sd_accepted s = [demoRecord ''a''] \<and> sd_stop s \<and> length (ch_buf (sd_ch s)) = 1 \<and>
       (\<exists>s'. execSender lr_Host [EvStop, EvFlush True True, EvReturn] s = Some s' \<and> sd_pc s' = Returned)"
  by (simp add: NewSender_def makeChan_def SendRecord_def trySend_def CloseSender_def receiveOne_def tryRecv_def writeRecord_def)

section \<open>Termination of the drain goroutine\<close>

text \<open>The steps of the goroutine itself, with every dial and write succeeding.\<close>

fun drain_event :: "sender_event \<Rightarrow> bool" where
  "drain_event (EvSend _) = False"
| "drain_event EvClose = False"
| "drain_event ev = healthy_event ev"

fun pc_rank :: "drain_pc \<Rightarrow> nat" where
  "pc_rank Draining = 2"
| "pc_rank FlushingRest = 1"
| "pc_rank Returned = 0"

definition drain_measure :: "Sender \<Rightarrow> nat" where
  "drain_measure s = length (ch_buf (sd_ch s)) + pc_rank (sd_pc s)"

lemma writeRecord_frame [simp]:
  "sd_ch (writeRecord format d w r s) = sd_ch s" "sd_pc (writeRecord format d w r s) = sd_pc s"
  "sd_stop (writeRecord format d w r s) = sd_stop s" "sd_atClose (writeRecord format d w r s) = sd_atClose s"
  by (simp_all add: writeRecord_def Let_def)

lemma receiveOne_shorter:
  "receiveOne format d w s = Some s' \<Longrightarrow> Suc (length (ch_buf (sd_ch s'))) = length (ch_buf (sd_ch s)) \<and> sd_pc s' = sd_pc s \<and>
     sd_stop s' = sd_stop s \<and> sd_atClose s' = sd_atClose s"
  by (cases "ch_buf (sd_ch s)") (auto simp: receiveOne_def tryRecv_def)

lemma drain_step:
  assumes "drain_event ev" "senderStep format ev s = Some s'"
  shows "drain_measure s' < drain_measure s \<and> sd_stop s' = sd_stop s \<and> sd_atClose s' = sd_atClose s"
proof (cases ev)
  case (EvReceive d w)
  with assms receiveOne_shorter [of format d w s s'] show ?thesis by (auto simp: drain_measure_def split: if_splits)
next
  case (EvFlush d w)
  with assms receiveOne_shorter [of format d w s s'] show ?thesis by (auto simp: drain_measure_def split: if_splits)
qed (use assms in \<open>auto simp: drain_measure_def split: if_splits\<close>)

lemma drain_progress:
  assumes "sd_stop s" "sd_pc s \<noteq> Returned"
  shows "\<exists>ev s'. drain_event ev \<and> senderStep format ev s = Some s'"
proof (cases "sd_pc s")
  case Draining
  with assms(1) have "drain_event EvStop \<and> senderStep format EvStop s = Some (s\<lparr>sd_pc := FlushingRest\<rparr>)" by simp
  then show ?thesis by blast
next
  case FlushingRest
  show ?thesis
  proof (cases "tryRecv (sd_ch s)")
    case None
    with FlushingRest have "drain_event EvReturn \<and> senderStep format EvReturn s = Some (s\<lparr>sd_pc := Returned, sd_conn := False\<rparr>)" by simp
    then show ?thesis by blast
  next
    case (Some rc)
    with FlushingRest have "drain_event (EvFlush True True) \<and> senderStep format (EvFlush True True) s \<noteq> None"
      by (simp add: receiveOne_def)
    then show ?thesis by blast
  qed
qed (use assms in simp)

interpretation drain: bounded_run "senderStep format" drain_event "\<lambda>s. sd_stop s \<and> sd_atClose s = c" drain_measure
    "\<lambda>s. sd_pc s = Returned" for format c
  by unfold_locales (use drain_step drain_progress in blast)+

lemma drain_healthy: "list_all drain_event evs \<Longrightarrow> list_all healthy_event evs"
proof (induction evs)
  case (Cons ev evs)
  then show ?case by (cases ev) auto
qed simp

section \<open>Properties\<close>

text \<open>
  Property C32. The queue never holds more than its capacity, records leave it in the order they
  were accepted, and what reaches the wire is a subsequence of them, one line per record: nothing is
  duplicated or reordered, whatever dials and writes fail.
\<close>

theorem sender_fifo:
  assumes "sends format (NewSender n d) s"
  shows "length (ch_buf (sd_ch s)) \<le> n \<and> sd_accepted s = sd_taken s @ ch_buf (sd_ch s) \<and>
         subseq (sd_written s) (sd_taken s) \<and> sd_wire s = map (\<lambda>r. format r @ [CHR 0x0A]) (sd_written s)"
  using sender_inv_sends [OF assms] by (auto simp: sender_inv_def chan.history_def)

theorem sender_fifo_witness:
  "\<exists>s. sends lr_Host (NewSender 1 True) s \<and> sd_accepted s = [demoRecord ''a''] \<and> length (ch_buf (sd_ch s)) \<le> 1"
proof -
  obtain s where s: "execSender lr_Host [EvSend (demoRecord ''a''), EvSend (demoRecord ''b''), EvClose] (NewSender 1 True) = Some s"
      "sd_accepted s = [demoRecord ''a'']"
    using demoSender_run by blast
  have "sends lr_Host (NewSender 1 True) s"
    using execSender_healthy [OF sends_healthy.start s(1)] by (simp add: sends_healthy_sends)
  with s(2) show ?thesis
    using sender_fifo by blast
qed

text \<open>
  \<open>Close\<close> returns and flushes: once it was called and nothing more is sent, the drain
  goroutine takes at most two steps more than there are records in the queue, it is never stuck before
  it has returned, and when it has returned every record accepted before \<open>Close\<close> has been
  written, provided no dial and no write failed.
\<close>

lemma sender_close_flushes:
  assumes "sends_healthy format (NewSender n d) s" "sd_stop s"
    and "execSender format evs s = Some s'" "list_all drain_event evs"
  shows "length evs \<le> length (ch_buf (sd_ch s)) + 2 \<and>
         (if sd_pc s' = Returned then prefix (sd_atClose s) (sd_written s')
          else \<exists>ev s''. drain_event ev \<and> senderStep format ev s' = Some s'')"
proof -
  note run = assms(3) conjI [OF assms(2) refl] assms(4)
  have "drain_measure s \<le> length (ch_buf (sd_ch s)) + 2"
    by (cases "sd_pc s") (simp_all add: drain_measure_def)
  with drain.run_bounded [OF run] have short: "length evs \<le> length (ch_buf (sd_ch s)) + 2"
      and ends: "sd_pc s' = Returned \<or> (\<exists>ev s''. drain_event ev \<and> senderStep format ev s' = Some s'')"
    by simp_all
  have keeps: "sd_stop s'" "sd_atClose s' = sd_atClose s"
    using drain.run_inv [OF run] by simp_all
  have h: "sends_healthy format (NewSender n d) s'"
    using assms(1,3) drain_healthy [OF assms(4)] by (rule execSender_healthy)
  have "prefix (sd_atClose s) (sd_written s')" if "sd_pc s' = Returned"
    using sender_inv_sends [OF sends_healthy_sends [OF h]] healthy_written [OF h] keeps that
    by (simp add: sender_inv_def)
  with short ends show ?thesis by auto
qed

end
