(* ===== verification/Pages.thy ===== *)
theory Pages
  imports Http_Types
begin

text \<open>
  The two HTML pages of the proxy: the scan page of \<^verbatim>\<open>internal/scan/endpoint.go\<close> with the script that
  polls a job, and the block page of \<^verbatim>\<open>internal/proxy/handler.go\<close>. The templates are the constants
  of the source, line by line; text outside ASCII is given by its UTF-8 bytes.
\<close>

section \<open>Templates\<close>

text \<open>
  \<open>fmt.Sprintf\<close> on a format whose only verbs are \<open>%s\<close> and \<open>%%\<close>; a verb
  without argument prints as \<open>fmt\<close> prints it.
\<close>

fun Sprintf :: "string \<Rightarrow> string list \<Rightarrow> string" where
  "Sprintf [] args = []"
| "Sprintf [c] args = [c]"
| "Sprintf (c # v # f) args =
     (if c \<noteq> CHR ''%'' then c # Sprintf (v # f) args
      else if v = CHR ''s'' then (case args of [] \<Rightarrow> ''%!s(MISSING)'' @ Sprintf f [] | a # as \<Rightarrow> a @ Sprintf f as)
      else CHR ''%'' # Sprintf f args)"

text \<open>The lines of a raw string literal.\<close>

definition lines :: "string list \<Rightarrow> string" where
  "lines ls = Join (CHR 0x0A) ls"

definition scanPageTemplate :: string where
  \<open>scanPageTemplate = lines [
     ''<!DOCTYPE html>'',
     ''<html lang="ja">'',
     ''<head>'',
     ''  <meta charset="UTF-8">'',
     ''  <title>'' @ utf8 [227, 131, 149, 227, 130, 161, 227, 130, 164, 227, 131, 171, 232, 167, 163, 230, 158, 144, 228, 184, 173] @ '' '' @ utf8 [226, 128, 148] @ '' %s</title>'',
     ''  <style>'',
     ''    *{box-sizing:border-box}'',
     ''    body{font-family:sans-serif;display:flex;justify-content:center;align-items:center;'',
     ''         min-height:100vh;margin:0;background:#f0f2f5}'',
     ''    .card{background:#fff;border-radius:12px;padding:48px 56px;'',
     ''          box-shadow:0 4px 16px rgba(0,0,0,.1);text-align:center;max-width:540px;width:100%%}'',
     ''    .spinner{width:52px;height:52px;border:5px solid #e0e0e0;border-top-color:#1a73e8;'',
     ''             border-radius:50%%;animation:spin .9s linear infinite;margin:0 auto 20px}'',
     ''    @keyframes spin{to{transform:rotate(360deg)}}'',
     ''    h1{font-size:1.3rem;margin:0 0 10px;color:#202124}'',
     ''    .sub{color:#5f6368;font-size:.95rem;margin:0}'',
     ''    .filename{color:#3c4043;font-size:.9rem;font-weight:500;margin:0 0 8px;word-break:break-all}'',
     ''    .btn{display:inline-block;margin-top:24px;padding:11px 28px;background:#1a73e8;'',
     ''         color:#fff;border-radius:6px;text-decoration:none;font-size:1rem;font-weight:500}'',
     ''    .btn:hover{background:#1558b0}'',
     ''    .threat{color:#d93025;font-weight:500}'',
     ''    .icon{font-size:2.5rem;margin-bottom:12px}'',
     ''  </style>'',
     ''</head>'',
     ''<body>'',
     ''<div class="card" id="card">'',
     ''  <div class="spinner" id="spinner"></div>'',
     ''  <h1 id="title">'' @ utf8 [227, 131, 149, 227, 130, 161, 227, 130, 164, 227, 131, 171, 227, 130, 146, 232, 167, 163, 230, 158, 144, 228, 184, 173] @ ''...</h1>'',
     ''  <p class="filename" id="filename"></p>'',
     ''  <p class="sub" id="msg">'' @ utf8 [227, 130, 166, 227, 130, 164, 227, 131, 171, 227, 130, 185, 227, 130, 185, 227, 130, 173, 227, 131, 163, 227, 131, 179, 227, 129, 140, 229, 174, 140, 228, 186, 134, 227, 129, 153, 227, 130, 139, 227, 129, 190, 227, 129, 167, 227, 129, 138, 229, 190, 133, 227, 129, 161, 227, 129, 143, 227, 129, 160, 227, 129, 149, 227, 129, 132, 227, 128, 130] @ ''</p>'',
     ''</div>'',
     ''<script>'',
     ''(function(){'',
     ''  var statusURL  = %s;'',
     ''  var downloadURL = %s;'',
     ''  var filename   = %s;'',
     [],
     ''  document.getElementById('filename').textContent = filename;'',
     [],
     ''  function poll() {'',
     ''    fetch(statusURL)'',
     ''      .then(function(r){ return r.json(); })'',
     ''      .then(function(data){'',
     ''        if (data.status === 'clean') {'',
     ''          document.getElementById('spinner').style.display = 'none';'',
     ''          document.getElementById('title').textContent = '' @ [CHR 0x27] @ utf8 [232, 167, 163, 230, 158, 144, 229, 174, 140, 228, 186, 134] @ [CHR 0x27] @ '';'',
     ''          document.getElementById('msg').innerHTML ='',
     ''            '<a class="btn" href="' + downloadURL + '" download="' + filename + '">'' @ utf8 [227, 131, 128, 227, 130, 166, 227, 131, 179, 227, 131, 173, 227, 131, 188, 227, 131, 137] @ ''</a>';'',
     ''        } else if (data.status === 'infected') {'',
     ''          document.getElementById('spinner').style.display = 'none';'',
     ''          document.getElementById('card').insertAdjacentHTML('',
     ''            'afterbegin', '<div class="icon">'' @ utf8 [226, 155, 148] @ ''</div>');'',
     ''          document.getElementById('title').textContent = '' @ [CHR 0x27] @ utf8 [232, 132, 133, 229, 168, 129, 227, 130, 146, 230, 164, 156, 229, 135, 186, 227, 129, 151, 227, 129, 190, 227, 129, 151, 227, 129, 159] @ [CHR 0x27] @ '';'',
     ''          document.getElementById('msg').innerHTML ='',
     ''            '<span class="threat">'' @ utf8 [230, 164, 156, 229, 135, 186] @ '': ' + data.threat + '</span><br>' +'',
     ''            '<span>'' @ utf8 [227, 129, 147, 227, 129, 174, 227, 131, 149, 227, 130, 161, 227, 130, 164, 227, 131, 171, 227, 129, 175, 227, 131, 128, 227, 130, 166, 227, 131, 179, 227, 131, 173, 227, 131, 188, 227, 131, 137, 227, 129, 167, 227, 129, 141, 227, 129, 190, 227, 129, 155, 227, 130, 147, 227, 128, 130] @ ''</span>';'',
     ''        } else if (data.status === 'error') {'',
     ''          document.getElementById('spinner').style.display = 'none';'',
     ''          document.getElementById('title').textContent = '' @ [CHR 0x27] @ utf8 [227, 130, 185, 227, 130, 173, 227, 131, 163, 227, 131, 179, 228, 184, 141, 229, 143, 175] @ [CHR 0x27] @ '';'',
     ''          document.getElementById('msg').innerHTML ='',
     ''            '' @ [CHR 0x27] @ utf8 [227, 130, 185, 227, 130, 173, 227, 131, 163, 227, 131, 179, 227, 130, 146, 227, 130, 185, 227, 130, 173, 227, 131, 131, 227, 131, 151, 227, 129, 151, 227, 129, 190, 227, 129, 151, 227, 129, 159, 227, 128, 130] @ ''<br>' +'',
     ''            '<a class="btn" href="' + downloadURL + '" download="' + filename + '">'' @ utf8 [227, 131, 128, 227, 130, 166, 227, 131, 179, 227, 131, 173, 227, 131, 188, 227, 131, 137] @ ''</a>';'',
     ''        } else if (data.status === 'toobig') {'',
     ''          document.getElementById('spinner').style.display = 'none';'',
     ''          document.getElementById('card').insertAdjacentHTML('',
     ''            'afterbegin', '<div class="icon">'' @ utf8 [226, 154, 160, 239, 184, 143] @ ''</div>');'',
     ''          document.getElementById('title').textContent = '' @ [CHR 0x27] @ utf8 [227, 131, 149, 227, 130, 161, 227, 130, 164, 227, 131, 171, 227, 129, 140, 229, 164, 167, 227, 129, 141, 227, 129, 153, 227, 129, 142, 227, 129, 190, 227, 129, 153] @ [CHR 0x27] @ '';'',
     ''          document.getElementById('msg').textContent ='',
     ''            '' @ [CHR 0x27] @ utf8 [227, 131, 149, 227, 130, 161, 227, 130, 164, 227, 131, 171, 227, 129, 140, 229, 164, 167, 227, 129, 141, 227, 129, 153, 227, 129, 142, 227, 129, 166, 227, 130, 185, 227, 130, 173, 227, 131, 163, 227, 131, 179, 227, 129, 167, 227, 129, 141, 227, 129, 190, 227, 129, 155, 227, 130, 147, 227, 128, 130] @ [CHR 0x27] @ '';'',
     ''        } else {'',
     ''          setTimeout(poll, 2000);'',
     ''        }'',
     ''      })'',
     ''      .catch(function(){ setTimeout(poll, 3000); });'',
     ''  }'',
     ''  poll();'',
     ''})();'',
     ''</script>'',
     ''</body>'',
     ''</html>'']\<close>

definition blockedPageHTML :: string where
  \<open>blockedPageHTML = lines [
     ''<!DOCTYPE html>'',
     ''<html lang="ja">'',
     ''<head><meta charset="UTF-8"><title>'' @ utf8 [227, 130, 162, 227, 130, 175, 227, 130, 187, 227, 130, 185, 227, 131, 150, 227, 131, 173, 227, 131, 131, 227, 130, 175] @ ''</title>'',
     ''<style>body{font-family:sans-serif;display:flex;justify-content:center;align-items:center;height:100vh;margin:0;background:#f5f5f5}'',
     ''.box{background:#fff;border-radius:8px;padding:40px 48px;box-shadow:0 2px 8px rgba(0,0,0,.12);text-align:center;max-width:480px}'',
     ''h1{color:#d32f2f;margin:0 0 12px}p{color:#555;margin:0}code{background:#eee;padding:2px 6px;border-radius:4px}</style>'',
     ''</head>'',
     ''<body><div class="box">'',
     ''<h1>'' @ utf8 [227, 130, 162, 227, 130, 175, 227, 130, 187, 227, 130, 185, 227, 131, 150, 227, 131, 173, 227, 131, 131, 227, 130, 175] @ ''</h1>'',
     ''<p>'' @ utf8 [227, 129, 147, 227, 129, 174, 227, 130, 181, 227, 130, 164, 227, 131, 136] @ '' (<code>%s</code>) '' @ utf8 [227, 129, 184, 227, 129, 174, 227, 130, 162, 227, 130, 175, 227, 130, 187, 227, 130, 185, 227, 129, 175, 227, 131, 157, 227, 131, 170, 227, 130, 183, 227, 131, 188, 227, 129, 171, 227, 130, 136, 227, 130, 138, 227, 131, 150, 227, 131, 173, 227, 131, 131, 227, 130, 175, 227, 129, 149, 227, 130, 140, 227, 129, 166, 227, 129, 132, 227, 129, 190, 227, 129, 153, 227, 128, 130] @ ''</p>'',
     ''</div></body></html>'']\<close>

section \<open>Inserted text\<close>

lemma Sprintf_plain: "CHR ''%'' \<notin> set l \<Longrightarrow> Sprintf (l @ f) args = l @ Sprintf f args"
proof (induction l)
  case (Cons c l)
  then show ?case by (cases "l @ f") auto
qed simp

lemma Sprintf_verb: "Sprintf (CHR ''%'' # CHR ''s'' # f) (a # as) = a @ Sprintf f as"
  by simp

text \<open>An argument is inserted as it is: \<open>Sprintf\<close> escapes nothing.\<close>

lemma Sprintf_inserts:
  assumes "CHR ''%'' \<notin> set l"
  shows "Sprintf (l @ CHR ''%'' # CHR ''s'' # f) (a # as) = l @ a @ Sprintf f as"
  using assms by (simp add: Sprintf_plain)

end
