(* ===== verification/Scan_Endpoint.thy ===== *)
theory Scan_Endpoint
  imports Trickle Pages
begin

text \<open>
  The scan page endpoints, \<^verbatim>\<open>internal/scan/endpoint.go\<close>: status polling, the download
  of a scanned file, and the result page. \<open>http.ServeContent\<close> answers with the whole file (Range and
  conditional requests are left out), and the quoting of \<open>%q\<close> for strings with bytes outside ASCII is
  an argument too.
\<close>

section \<open>Model\<close>

definition PathPrefix :: string where "PathPrefix = ''/scan/''"
definition PathStatus :: string where "PathStatus = PathPrefix @ ''status''"
definition PathDownload :: string where "PathDownload = PathPrefix @ ''download''"
definition PathResult :: string where "PathResult = PathPrefix @ ''result''"

text \<open>\<open>fmt.Sprintf("%q", s)\<close>: \<open>strconv.Quote\<close>.\<close>

definition quoteChar :: "char \<Rightarrow> string" where
  "quoteChar c =
     (let n = (of_char c :: nat) in
      if c = CHR 0x22 \<or> c = CHR 0x5C then [CHR 0x5C, c]
      else if n = 7 then [CHR 0x5C, CHR ''a''] else if n = 8 then [CHR 0x5C, CHR ''b'']
      else if n = 12 then [CHR 0x5C, CHR ''f''] else if n = 10 then [CHR 0x5C, CHR ''n'']
      else if n = 13 then [CHR 0x5C, CHR ''r''] else if n = 9 then [CHR 0x5C, CHR ''t'']
      else if n = 11 then [CHR 0x5C, CHR ''v'']
      else if n < 32 \<or> n = 127 then [CHR 0x5C, CHR ''x'', digit_char (n div 16), digit_char (n mod 16)]
      else [c])"

definition fmt_q :: "(string \<Rightarrow> string) \<Rightarrow> string \<Rightarrow> string" where
  "fmt_q uniQuote s =
     (if list_all is_ascii s then CHR 0x22 # concat (map quoteChar s) @ [CHR 0x22] else uniQuote s)"

definition RenderScanPage :: "(string \<Rightarrow> string) \<Rightarrow> string \<Rightarrow> string \<Rightarrow> string" where
  "RenderScanPage uniQuote jobID filename =
     (let statusURL = PathStatus @ ''?id='' @ jobID;
          downloadURL = PathDownload @ ''?id='' @ jobID
      in Sprintf scanPageTemplate [filename, fmt_q uniQuote statusURL, fmt_q uniQuote downloadURL, fmt_q uniQuote filename])"

fun statusText :: "ScanStatus \<Rightarrow> string" where
  "statusText StatusPending = ''pending''"
| "statusText StatusScanning = ''scanning''"
| "statusText StatusClean = ''clean''"
| "statusText StatusInfected = ''infected''"
| "statusText StatusTooLarge = ''toobig''"
| "statusText _ = ''error''"

text \<open>The field \<open>threat\<close> is omitted when it is empty.\<close>

definition handleStatus :: "Manager \<Rightarrow> Request \<Rightarrow> reply" where
  "handleStatus m r =
     (case GetJob m (Query_Get (rq_URL r) ''id'') of
        None \<Rightarrow> NotFound
      | Some job \<Rightarrow>
          (let threat = (if j_status job = StatusInfected then j_threatName job else [])
           in \<lparr>rp_code = 200, rp_header = [(''Content-Type'', [''application/json''])],
               rp_body = JsonBody (JObj ([(''status'', JStr (statusText (j_status job)))] @
                 (if threat = [] then [] else [(''threat'', JStr threat)])))\<rparr>))"

definition unavailableMsg :: bytes where
  "unavailableMsg = utf8
     [227, 131, 149, 227, 130, 161, 227, 130, 164, 227, 131, 171, 227, 129, 175, 229, 136, 169, 231, 148,
      168, 227, 129, 167, 227, 129, 141, 227, 129, 190, 227, 129, 155, 227, 130, 147]"

definition handleDownload :: "Manager \<Rightarrow> fs \<Rightarrow> Request \<Rightarrow> reply" where
  "handleDownload m fs r =
     (case GetJob m (Query_Get (rq_URL r) ''id'') of
        None \<Rightarrow> NotFound
      | Some job \<Rightarrow>
          (case ServeFile fs job of
             None \<Rightarrow> httpError unavailableMsg 403
           | Some (h, name, data) \<Rightarrow> \<lparr>rp_code = 200, rp_header = h, rp_body = BytesBody data\<rparr>))"

definition handleResult :: "(string \<Rightarrow> string) \<Rightarrow> Manager \<Rightarrow> Request \<Rightarrow> reply" where
  "handleResult uniQuote m r =
     (case GetJob m (Query_Get (rq_URL r) ''id'') of
        None \<Rightarrow> NotFound
      | Some job \<Rightarrow>
          \<lparr>rp_code = 200, rp_header = [(''Content-Type'', [''text/html; charset=utf-8''])],
           rp_body = BytesBody (RenderScanPage uniQuote (j_ID job) (j_Filename job))\<rparr>)"

definition scanServeHTTP :: "(string \<Rightarrow> string) \<Rightarrow> Manager \<Rightarrow> fs \<Rightarrow> Request \<Rightarrow> reply" where
  "scanServeHTTP uniQuote m fs r =
     (if rq_Method r = ''OPTIONS'' then \<lparr>rp_code = 204, rp_header = [], rp_body = BytesBody []\<rparr>
      else if u_Path (rq_URL r) = PathStatus then handleStatus m r
      else if u_Path (rq_URL r) = PathDownload then handleDownload m fs r
      else if u_Path (rq_URL r) = PathResult then handleResult uniQuote m r
      else NotFound)"

text \<open>
  The script of the page: what one answer to its poll makes it show. An answer that is not JSON rejects
  the promise, and a missing field of an object reads as \<open>undefined\<close>.
\<close>

datatype page_state = ShowLink string | ShowThreat string | ShowTooBig | PollAgain nat

definition jsField :: "(string \<times> json) list \<Rightarrow> string \<Rightarrow> string" where
  "jsField obj k = (case map_of obj k of Some (JStr v) \<Rightarrow> v | _ \<Rightarrow> ''undefined'')"

definition poll :: "string \<Rightarrow> reply \<Rightarrow> page_state" where
  "poll downloadURL rp =
     (case rp_body rp of
        JsonBody (JObj obj) \<Rightarrow>
          (let status = jsField obj ''status'' in
           if status = ''clean'' then ShowLink downloadURL
           else if status = ''infected'' then ShowThreat (jsField obj ''threat'')
           else if status = ''error'' then ShowLink downloadURL
           else if status = ''toobig'' then ShowTooBig
           else PollAgain 2000)
      | _ \<Rightarrow> PollAgain 3000)"

section \<open>Lemmas\<close>

lemma poll_handleStatus:
  assumes "GetJob m (Query_Get (rq_URL r) ''id'') = Some job"
  shows "poll url (handleStatus m r) =
    (case j_status job of
       StatusPending \<Rightarrow> PollAgain 2000
     | StatusScanning \<Rightarrow> PollAgain 2000
     | StatusInfected \<Rightarrow> ShowThreat (if j_threatName job = [] then ''undefined'' else j_threatName job)
     | StatusTooLarge \<Rightarrow> ShowTooBig
     | _ \<Rightarrow> ShowLink url)"
  using assms by (simp add: handleStatus_def poll_def jsField_def Let_def split: ScanStatus.split)

text \<open>
  Quoting for Go is not quoting for HTML: printable text without quotes and backslashes comes out as it
  went in, markup included.
\<close>

lemma fmt_q_verbatim:
  assumes "\<And>c. c \<in> set s \<Longrightarrow> 32 \<le> (of_char c :: nat) \<and> (of_char c :: nat) < 127 \<and> c \<noteq> CHR 0x22 \<and> c \<noteq> CHR 0x5C"
  shows "fmt_q uniQuote s = CHR 0x22 # s @ [CHR 0x22]"
proof -
  have "concat (map quoteChar s) = concat (map (\<lambda>c. [c]) s)"
    using assms by (intro arg_cong [where f = concat] map_cong refl) (fastforce simp: quoteChar_def)
  moreover have "list_all is_ascii s"
    using assms by (fastforce simp: list_all_iff is_ascii_def)
  ultimately show ?thesis by (simp add: fmt_q_def)
qed

lemma ServeFile_Some_iff:
  "ServeFile fs job = Some (h, name, data) \<Longrightarrow>
     fs (j_TempPath job) = Some data \<and> (j_status job = StatusClean \<or> j_status job = StatusError)"
  by (auto simp: ServeFile_def Let_def split: if_splits option.splits)

lemma handleDownload_200:
  assumes "rp_code (handleDownload m fs r) = 200"
  obtains job data where "GetJob m (Query_Get (rq_URL r) ''id'') = Some job" "fs (j_TempPath job) = Some data"
    "j_status job = StatusClean \<or> j_status job = StatusError" "rp_body (handleDownload m fs r) = BytesBody data"
proof -
  obtain job h name data where "GetJob m (Query_Get (rq_URL r) ''id'') = Some job" "ServeFile fs job = Some (h, name, data)"
    using assms by (auto simp: handleDownload_def NotFound_def httpError_def split: option.splits)
  then show thesis
    using that [of job data] ServeFile_Some_iff [of fs job h name data] by (simp add: handleDownload_def)
qed

text \<open>Effects on the job alone keep its identity and its path.\<close>

lemma applyAct_identity:
  "j_ID (fst (applyAct a s)) = j_ID (fst s) \<and> j_TempPath (fst (applyAct a s)) = j_TempPath (fst s)"
  by (cases a; cases s) (simp_all add: setResult_def)

lemma applyActs_identity:
  "j_ID (fst (applyActs as s)) = j_ID (fst s) \<and> j_TempPath (fst (applyActs as s)) = j_TempPath (fst s)"
  by (induction as arbitrary: s) (simp_all add: applyAct_identity)

text \<open>
  In a prefix of a scan's effects, a downloadable status means that the prefix includes the final
  status, so the file is complete.
\<close>

definition downloadable :: "ScanStatus \<Rightarrow> bool" where
  "downloadable st \<longleftrightarrow> st = StatusClean \<or> st = StatusError"

fun early :: "act \<Rightarrow> bool" where
  "early (SetStatus st th) = (\<not> downloadable st)"
| "early a = True"

fun late :: "act \<Rightarrow> bool" where
  "late (Send r) = True"
| "late CloseUpload = True"
| "late CloseBody = True"
| "late _ = False"

lemma early_keeps:
  "list_all early as \<Longrightarrow> \<not> downloadable (j_status (fst s)) \<Longrightarrow> \<not> downloadable (j_status (fst (applyActs as s)))"
proof (induction as arbitrary: s)
  case (Cons a as)
  then have "\<not> downloadable (j_status (fst (applyAct a s)))"
    by (cases a; cases s) (simp_all add: setResult_def)
  with Cons show ?case by simp
qed simp

lemma late_keeps:
  "list_all late as \<Longrightarrow> snd (applyActs as s) = snd s \<and> j_status (fst (applyActs as s)) = j_status (fst s)"
proof (induction as arbitrary: s)
  case (Cons a as)
  then have "snd (applyAct a s) = snd s \<and> j_status (fst (applyAct a s)) = j_status (fst s)"
    by (cases a; cases s) simp_all
  with Cons show ?case by simp
qed simp

lemma downloadable_prefix:
  assumes "as = pre @ SetStatus st th # post" "list_all early pre" "list_all late post"
    and "\<not> downloadable (j_status (fst s))" "downloadable (j_status (fst (applyActs (take k as) s)))"
  shows "snd (applyActs (take k as) s) = snd (applyActs as s) \<and>
         j_status (fst (applyActs (take k as) s)) = j_status (fst (applyActs as s))"
proof (cases "k \<le> length pre")
  case True
  then have "list_all early (take k as)"
    using assms(1,2) by (auto simp: list_all_iff dest: in_set_takeD)
  then show ?thesis
    using early_keeps assms(4,5) by blast
next
  case False
  then obtain i where "k = length pre + Suc i"
    by (metis add_Suc_right less_imp_Suc_add not_le)
  then have "take k as = pre @ SetStatus st th # take i post"
    by (simp add: assms(1))
  moreover have "list_all late (take i post)"
    using assms(3) by (auto simp: list_all_iff dest: in_set_takeD)
  ultimately show ?thesis
    using assms(1,3) late_keeps by simp
qed

lemma tee_early: "list_all early (tee ws)"
  by (auto simp: tee_def list_all_iff)

lemma runScan_final_split:
  assumes "e_scan e = ScanReader cn"
  obtains pre st th post where "fst (runScan e saveTail url body oc) = pre @ SetStatus st th # post"
    "list_all early pre" "list_all late post"
proof (cases "e_openOK e")
  case True
  then obtain ws tb st th r owned where
      "fst (runScan e saveTail url body oc) = [OpenTrunc, SetStatus StatusScanning []] @ scanActs ws tb st th r owned"
    using runScan_shape [of e saveTail url body oc] clamd.scan_backend_axioms [of cn] assms by auto
  then show thesis
    using that [of "[OpenTrunc, SetStatus StatusScanning []] @ tee ws @ (case tb of None \<Rightarrow> [] | Some t \<Rightarrow> [SetTail t])" st th "Send r # deferred owned"]
    by (simp add: scanActs_def tee_early downloadable_def deferred_def split: option.splits)
next
  case False
  then show thesis
    using that [of "[]" StatusError "[]" "Send cleanResult # deferred True"] by (simp add: runScan_def deferred_def)
qed

lemma scanned_final:
  assumes "e_scan e = ScanReader cn" "scanned e saveTail url body oc j = (j', file)"
  shows "j_status j' \<in> {StatusClean, StatusInfected, StatusError, StatusTooLarge}"
proof (cases "e_openOK e")
  case True
  then obtain ws tb st th r owned where
      "fst (runScan e saveTail url body oc) = [OpenTrunc, SetStatus StatusScanning []] @ scanActs ws tb st th r owned"
      "scan_promise saveTail body e ws tb st r"
    using runScan_shape [of e saveTail url body oc] clamd.scan_backend_axioms [of cn] assms(1) by auto
  then show ?thesis
    using assms(2) by (auto simp: scanned_def applyActs_scanActs scan_promise_def)
next
  case False
  then show ?thesis
    using assms(2) by (auto simp: scanned_def runScan_def deferred_def setResult_def)
qed

text \<open>A browser job after some of its goroutine's effects, as the endpoints see it.\<close>

lemma browser_job_view:
  assumes "StartBrowserJob jid now True e req resp m fs = (m', fs', job, as, cmds)"
    and "runJob bs job (m', fs') = (mk, fsk)"
  shows "freshJob job" "j_ID job = jid" "j_status job = StatusPending"
    and "as = fst (runScan e False (j_OriginalURL job) (rs_Body resp) (m_cache m))"
    and "GetJob mk jid = Some (fst (applyActs bs (job, [])))"
    and "fsk (j_TempPath (fst (applyActs bs (job, [])))) = Some (snd (applyActs bs (job, [])))"
proof -
  have job: "freshJob job" "j_ID job = jid" "j_status job = StatusPending" "fs' (j_TempPath job) = Some []"
      "as = fst (runScan e False (j_OriginalURL job) (rs_Body resp) (m_cache m))"
    using assms(1)
    by (auto simp: StartBrowserJob_def startScan_def newJob_def freshJob_def storeJob_def Let_def split: prod.splits)
  then show "freshJob job" "j_ID job = jid" "j_status job = StatusPending"
      "as = fst (runScan e False (j_OriginalURL job) (rs_Body resp) (m_cache m))"
    by simp_all
  show "GetJob mk jid = Some (fst (applyActs bs (job, [])))"
      "fsk (j_TempPath (fst (applyActs bs (job, [])))) = Some (snd (applyActs bs (job, [])))"
    using assms(2) job applyActs_identity [of bs "(job, [])"]
    by (auto simp: runJob_def split: prod.splits)
qed

text \<open>A browser request, its clean response, and the poll for the download, for the witnesses.\<close>

definition demoReq :: Request where
  "demoReq = \<lparr>rq_Method = ''GET'', rq_URL = \<lparr>u_Scheme = ''http'', u_Host = ''example.com'', u_Path = ''/a.zip'', u_Query = [],
     u_RequestURI = ''/a.zip'', u_Tail = ''/a.zip''\<rparr>, rq_Host = ''example.com'', rq_Header = [(''Accept'', [''text/html''])],
     rq_RemoteAddr = ''10.0.0.1:5000'', rq_Close = False\<rparr>"

definition demoPoll :: Request where
  "demoPoll = demoReq\<lparr>rq_URL := (rq_URL demoReq)\<lparr>u_Path := PathDownload, u_Query := [(''id'', [''1''])]\<rparr>\<rparr>"

definition demoResp :: "'b \<Rightarrow> 'b Response" where
  "demoResp body = \<lparr>rs_StatusCode = 200, rs_Status = ''200 OK'', rs_ProtoMajor = 1, rs_ProtoMinor = 1,
     rs_Header = [(''Content-Type'', [''application/zip''])], rs_Body = body, rs_ContentLength = -1, rs_Close = False\<rparr>"

definition demoMgr :: Manager where
  "demoMgr = NewManager ''/tmp'' 3600 1024 None"

lemma demo_browser_run:
  obtains m' fs' job as cmds mk fsk j' where
    "StartBrowserJob ''1'' 0 True (demoEnv (demoConn True ''stream: OK'') 10) demoReq (demoResp (Final ''data'' EOF)) demoMgr Map.empty =
       (m', fs', job, as, cmds)"
    "runJob as job (m', fs') = (mk, fsk)"
    "scanned (demoEnv (demoConn True ''stream: OK'') 10) False (j_OriginalURL job) (Final ''data'' EOF) None job = (j', ''data'')"
    "j_status j' = StatusClean" "rp_code (handleDownload mk fsk demoPoll) = 200"
proof -
  let ?e = "demoEnv (demoConn True ''stream: OK'') 10"
  obtain m' fs' job as cmds where st: "StartBrowserJob ''1'' 0 True ?e demoReq (demoResp (Final ''data'' EOF)) demoMgr Map.empty =
      (m', fs', job, as, cmds)"
    by (cases "StartBrowserJob ''1'' 0 True ?e demoReq (demoResp (Final ''data'' EOF)) demoMgr Map.empty")
  obtain mk fsk where rj: "runJob as job (m', fs') = (mk, fsk)"
    by (cases "runJob as job (m', fs')")
  note view = browser_job_view [OF st rj]
  have acts: "fst (runScan ?e False url (Final ''data'' EOF) None) =
     [OpenTrunc, SetStatus StatusScanning [], Append ''data'', SetStatus StatusClean [], Send cleanResult, CloseUpload, CloseBody]" for url
    by (simp add: demo_simps)
  then have as: "as = [OpenTrunc, SetStatus StatusScanning [], Append ''data'', SetStatus StatusClean [], Send cleanResult, CloseUpload, CloseBody]"
    using view(4) by (simp add: demoResp_def demoMgr_def NewManager_def)
  obtain j' where run: "applyActs as (job, []) = (j', ''data'')" "j_status j' = StatusClean"
    by (simp add: as setResult_def)
  then have "scanned ?e False (j_OriginalURL job) (Final ''data'' EOF) None job = (j', ''data'')"
    using as acts by (simp add: scanned_def)
  moreover have "rp_code (handleDownload mk fsk demoPoll) = 200"
    using view(5,6) run
    by (simp add: handleDownload_def ServeFile_def demoPoll_def Query_Get_def Let_def)
  ultimately show thesis
    using that st rj run(2) by blast
qed

lemma demoPoll_id: "Query_Get (rq_URL demoPoll) ''id'' = ''1''"
  by (simp add: demoPoll_def Query_Get_def)

section \<open>Properties\<close>

text \<open>
  Property C11. At no point of a browser scan does the download endpoint serve anything but a
  finished file: after any number \<open>k\<close> of the goroutine's effects, a 200 answer carries
  exactly the file as it is when the scan has ended, and the job's final status is clean or error,
  never infected or too large.
\<close>

theorem browser_download_gate:
  assumes "e_scan e = ScanReader cn" "StartBrowserJob jid now True e req resp m fs = (m', fs', job, as, cmds)"
    and "runJob (take k as) job (m', fs') = (mk, fsk)" "Query_Get (rq_URL r) ''id'' = jid"
    and "scanned e False (j_OriginalURL job) (rs_Body resp) (m_cache m) job = (j', file)"
    and "rp_code (handleDownload mk fsk r) = 200"
  shows "(j_status j' = StatusClean \<or> j_status j' = StatusError) \<and> rp_body (handleDownload mk fsk r) = BytesBody file"
proof -
  note view = browser_job_view [OF assms(2,3)]
  obtain pre st th post where acts: "as = pre @ SetStatus st th # post" "list_all early pre" "list_all late post"
    using runScan_final_split [OF assms(1)] view(4) by blast
  let ?s = "applyActs (take k as) (job, [])"
  obtain data where d: "fsk (j_TempPath (fst ?s)) = Some data" "downloadable (j_status (fst ?s))"
      "rp_body (handleDownload mk fsk r) = BytesBody data"
    using handleDownload_200 [OF assms(6)] view(5) assms(4) by (metis downloadable_def option.inject)
  have "\<not> downloadable (j_status (fst (job, [] :: bytes)))"
    by (simp add: view(3) downloadable_def)
  from downloadable_prefix [OF acts this d(2)]
  have "snd ?s = file" "j_status (fst ?s) = j_status j'"
    using assms(5) view(4) by (simp_all add: scanned_def)
  with d view(6) show ?thesis
    by (simp add: downloadable_def)
qed

theorem browser_download_gate_witness:
  "\<exists>mk fsk. rp_code (handleDownload mk fsk demoPoll) = 200 \<and> rp_body (handleDownload mk fsk demoPoll) = BytesBody ''data''"
proof -
  obtain m' fs' job as cmds mk fsk j' where run:
      "StartBrowserJob ''1'' 0 True (demoEnv (demoConn True ''stream: OK'') 10) demoReq (demoResp (Final ''data'' EOF)) demoMgr Map.empty =
         (m', fs', job, as, cmds)"
      "runJob as job (m', fs') = (mk, fsk)"
      "scanned (demoEnv (demoConn True ''stream: OK'') 10) False (j_OriginalURL job) (Final ''data'' EOF) None job = (j', ''data'')"
      "rp_code (handleDownload mk fsk demoPoll) = 200"
    using demo_browser_run by metis
  have "runJob (take (length as) as) job (m', fs') = (mk, fsk)"
    using run(2) by simp
  from browser_download_gate [OF _ run(1) this demoPoll_id _ run(4), of "demoConn True ''stream: OK''" j' "''data''"]
  show ?thesis
    using run(3,4) by (auto simp: demoEnv_def demoResp_def demoMgr_def NewManager_def)
qed

text \<open>
  Property C35. When the goroutine of a browser scan has ended, the next poll of the scan page settles it.
  A clean scan shows the download link, and the link answers 200 with the complete upstream body, given
  that the disk has room for it; a scan that failed shows the link to what was stored; an infected or too
  large body shows the threat or a notice, and its download answers 403.
\<close>

theorem browser_download_outcome:
  assumes "e_scan e = ScanReader cn" "e_max1 e = M" "e_max2 e = M" "0 \<le> M" "M < 2 ^ 63 - 1"
    and "room e (content (rs_Body resp)) = content (rs_Body resp)"
    and "StartBrowserJob jid now True e req resp m fs = (m', fs', job, as, cmds)"
    and "runJob as job (m', fs') = (mk, fsk)" "Query_Get (rq_URL r) ''id'' = jid"
    and "scanned e False (j_OriginalURL job) (rs_Body resp) (m_cache m) job = (j', file)"
  shows "case poll url (handleStatus mk r) of
           ShowLink l \<Rightarrow> l = url \<and> rp_code (handleDownload mk fsk r) = 200 \<and>
             (j_status j' = StatusClean \<and> rp_body (handleDownload mk fsk r) = BytesBody (content (rs_Body resp)) \<or>
              j_status j' = StatusError \<and> rp_body (handleDownload mk fsk r) = BytesBody file)
         | ShowThreat t \<Rightarrow> j_status j' = StatusInfected \<and> rp_code (handleDownload mk fsk r) = 403
         | ShowTooBig \<Rightarrow> j_status j' = StatusTooLarge \<and> rp_code (handleDownload mk fsk r) = 403
         | PollAgain ms \<Rightarrow> False"
proof -
  note view = browser_job_view [OF assms(7,8)]
  have run: "applyActs as (job, []) = (j', file)"
    using assms(10) view(4) by (simp add: scanned_def)
  then have job: "GetJob mk jid = Some j'" "fsk (j_TempPath j') = Some file"
    using view(5,6) by simp_all
  have "file = content (rs_Body resp)" if "j_status j' = StatusClean"
    using scanned_clean_complete [OF assms(1-6,10) that] .
  then show ?thesis
    using job assms(9) scanned_final [OF assms(1,10)] poll_handleStatus [of mk r j' url]
    by (auto simp: handleDownload_def ServeFile_def httpError_def Let_def)
qed

theorem browser_download_outcome_witness:
  "\<exists>mk fsk. poll ''/scan/download?id=1'' (handleStatus mk demoPoll) = ShowLink ''/scan/download?id=1'' \<and>
     rp_code (handleDownload mk fsk demoPoll) = 200 \<and> rp_body (handleDownload mk fsk demoPoll) = BytesBody ''data''"
proof -
  obtain m' fs' job as cmds mk fsk j' where run:
      "StartBrowserJob ''1'' 0 True (demoEnv (demoConn True ''stream: OK'') 10) demoReq (demoResp (Final ''data'' EOF)) demoMgr Map.empty =
         (m', fs', job, as, cmds)"
      "runJob as job (m', fs') = (mk, fsk)"
      "scanned (demoEnv (demoConn True ''stream: OK'') 10) False (j_OriginalURL job) (Final ''data'' EOF) None job = (j', ''data'')"
      "j_status j' = StatusClean"
    using demo_browser_run by metis
  from browser_download_outcome [OF _ _ _ _ _ _ run(1,2) demoPoll_id, of "demoConn True ''stream: OK''" 10 j' "''data''" "''/scan/download?id=1''"]
  show ?thesis
    using run(3,4)
    by (auto simp: demoEnv_def room_def demoResp_def demoMgr_def NewManager_def split: page_state.splits)
qed

end
