(* ===== verification/Scan_Transport.thy ===== *)
theory Scan_Transport
  imports Scan_Endpoint
begin

text \<open>
  The round trippers of the proxy: \<^verbatim>\<open>internal/proxy/timed_transport.go\<close>, which counts
  the bytes read from the upstream body, and \<^verbatim>\<open>internal/proxy/scantransport.go\<close>, which
  decides whether a response is passed through, redirected to the scan page or trickled. The
  \<open>http.Transport\<close> below them is a parameter: the upstream's response or an error.
\<close>

section \<open>The timed transport\<close>

record requestMeta =
  mt_start :: int
  mt_statusCode :: int
  mt_bytesSent :: int
  mt_contentType :: string

text \<open>The flag says whether the body was wrapped in a \<open>countingReadCloser\<close>.\<close>

definition timedRoundTrip :: "requestMeta option \<Rightarrow> 'b Response option \<Rightarrow> ('b Response \<times> bool) option \<times> requestMeta option" where
  "timedRoundTrip ometa base =
     (case base of
        None \<Rightarrow> (None, ometa)
      | Some resp \<Rightarrow>
          (case ometa of
             None \<Rightarrow> (Some (resp, False), None)
           | Some meta \<Rightarrow>
               (let meta = meta\<lparr>mt_statusCode := rs_StatusCode resp,
                                mt_contentType := Header_Get (rs_Header resp) ''Content-Type''\<rparr>
                in (Some (resp, rs_StatusCode resp \<noteq> 101), Some meta))))"

text \<open>One \<open>Read\<close> through the wrapper that returned the bytes \<open>p\<close>.\<close>

definition countRead :: "bytes \<Rightarrow> requestMeta \<Rightarrow> requestMeta" where
  "countRead p meta = meta\<lparr>mt_bytesSent := wrap64 (mt_bytesSent meta + int (length p))\<rparr>"

definition drainCounted :: "bool \<Rightarrow> reader \<Rightarrow> requestMeta \<Rightarrow> requestMeta" where
  "drainCounted wrapped body meta = (if wrapped then fold countRead (reads body) meta else meta)"

section \<open>The scan transport\<close>

datatype wbody = Upstream reader | Trickled session | NoBody

definition magicHost :: string where
  "magicHost = ''proxy.invalid''"

definition isBrowserRequest :: "Request \<Rightarrow> bool" where
  "isBrowserRequest r = Contains (Header_Get (rq_Header r) ''Accept'') ''text/html''"

definition scanRedirectResponse :: "string \<Rightarrow> wbody Response" where
  "scanRedirectResponse jobID =
     (let location = ''http://'' @ magicHost @ PathResult @ ''?id='' @ jobID
      in \<lparr>rs_StatusCode = 302, rs_Status = [], rs_ProtoMajor = 1, rs_ProtoMinor = 1,
          rs_Header = Header_Set [] ''Location'' location, rs_Body = NoBody, rs_ContentLength = 0, rs_Close = False\<rparr>)"

text \<open>
  The outcome: the response, the manager and the temp files, the scan goroutine that was started,
  and the Redis writes. \<open>tenv\<close> holds what the run draws from its environment.
\<close>

record transport_env =
  t_id :: string
  t_now :: int
  t_createOK :: bool
  t_openOK :: bool
  t_scan :: scan_env

record transport_out =
  to_resp :: "wbody Response"
  to_mgr :: Manager
  to_fs :: fs
  to_scan :: "(Job \<times> act list) option"
  to_cmds :: "redis_set list"

definition withBody :: "'b \<Rightarrow> 'a Response \<Rightarrow> 'b Response" where
  "withBody b r = \<lparr>rs_StatusCode = rs_StatusCode r, rs_Status = rs_Status r, rs_ProtoMajor = rs_ProtoMajor r,
     rs_ProtoMinor = rs_ProtoMinor r, rs_Header = rs_Header r, rs_Body = b, rs_ContentLength = rs_ContentLength r,
     rs_Close = rs_Close r\<rparr>"

abbreviation passThrough :: "reader Response \<Rightarrow> Manager \<Rightarrow> fs \<Rightarrow> transport_out" where
  "passThrough resp m fs \<equiv>
     \<lparr>to_resp = withBody (Upstream (rs_Body resp)) resp, to_mgr = m, to_fs = fs, to_scan = None, to_cmds = []\<rparr>"

definition handleBrowser :: "transport_env \<Rightarrow> Request \<Rightarrow> reader Response \<Rightarrow> Manager \<Rightarrow> fs \<Rightarrow> transport_out" where
  "handleBrowser t req resp m fs =
     (let (m', fs', job, as, cmds) = StartBrowserJob (t_id t) (t_now t) (t_createOK t) (t_scan t) req resp m fs;
          synth = scanRedirectResponse (j_ID job);
          synth = synth\<lparr>rs_Header := Header_Set (rs_Header synth) ''X-Proxy-Scan'' (''pending:'' @ j_ID job)\<rparr>
      in \<lparr>to_resp = synth, to_mgr = m', to_fs = fs', to_scan = Some (job, as), to_cmds = cmds\<rparr>)"

definition handleCLI :: "transport_env \<Rightarrow> Request \<Rightarrow> reader Response \<Rightarrow> Manager \<Rightarrow> fs \<Rightarrow> transport_out" where
  "handleCLI t req resp m fs =
     (let (m', fs', job, tb, cmds) = StartCLIJob (t_id t) (t_now t) (t_createOK t) (t_openOK t) (t_scan t) req resp m fs;
          synth = \<lparr>rs_StatusCode = rs_StatusCode resp, rs_Status = [], rs_ProtoMajor = rs_ProtoMajor resp,
                   rs_ProtoMinor = rs_ProtoMinor resp, rs_Header = Header_Del (rs_Header resp) ''Content-Length'',
                   rs_Body = (case tb of Inl body \<Rightarrow> Upstream body | Inr s \<Rightarrow> Trickled s), rs_ContentLength = -1, rs_Close = False\<rparr>
      in \<lparr>to_resp = synth, to_mgr = m', to_fs = fs',
          to_scan = (case tb of Inl _ \<Rightarrow> None | Inr s \<Rightarrow> Some (job, s_acts s)), to_cmds = cmds\<rparr>)"

definition scanRoundTrip :: "unicode \<Rightarrow> transport_env \<Rightarrow> Request \<Rightarrow> reader Response option \<Rightarrow> Manager \<Rightarrow> fs \<Rightarrow> transport_out option" where
  "scanRoundTrip u t req next m fs =
     (case next of
        None \<Rightarrow> None
      | Some resp \<Rightarrow>
          (let ct = Header_Get (rs_Header resp) ''Content-Type'' in
           if \<not> IsScannable u (m_config m) ct then Some (passThrough resp m fs)
           else if rs_ContentLength resp > m_maxSize m then Some (passThrough resp m fs)
           else
             (let e = t_scan t;
                  (m', hit) = LookupURL (e_sha e) (e_codec e) (e_rget e) (e_now e) m (URL_String (rq_URL req));
                  scan = (if isBrowserRequest req then handleBrowser t req resp m' fs else handleCLI t req resp m' fs)
              in case hit of
                   None \<Rightarrow> Some scan
                 | Some (status, threat) \<Rightarrow>
                     if status = StatusClean then Some (passThrough resp m' fs)
                     else if status = StatusInfected then
                       (let (m'', job) = NewPresetJob (t_id t) (t_now t) req resp StatusInfected threat m'
                        in Some \<lparr>to_resp = scanRedirectResponse (j_ID job), to_mgr = m'', to_fs = fs, to_scan = None, to_cmds = []\<rparr>)
                     else Some scan)))"

section \<open>Lemmas\<close>

lemma drainCounted_total:
  assumes "int64 (mt_bytesSent meta + int (length (content body)))" "0 \<le> mt_bytesSent meta"
  shows "mt_bytesSent (drainCounted True body meta) = mt_bytesSent meta + int (length (content body))"
proof -
  have "mt_bytesSent (fold countRead ps meta) = mt_bytesSent meta + int (length (concat ps))"
    if "int64 (mt_bytesSent meta + int (length (concat ps)))" "0 \<le> mt_bytesSent meta" for ps and meta :: requestMeta
    using that
  proof (induction ps arbitrary: meta)
    case (Cons p ps)
    have "int64 (mt_bytesSent meta + int (length p))"
      using Cons.prems by (auto simp: int64_def)
    then have "mt_bytesSent (countRead p meta) = mt_bytesSent meta + int (length p)"
      by (simp add: countRead_def)
    with Cons.IH [of "countRead p meta"] Cons.prems show ?case
      by (simp add: add.assoc)
  qed simp
  from this [of meta "reads body"] assms show ?thesis
    by (simp add: drainCounted_def)
qed

text \<open>The verdict the URL cache of the manager has for a request.\<close>

abbreviation cachedVerdict :: "scan_env \<Rightarrow> Manager \<Rightarrow> Request \<Rightarrow> (ScanStatus \<times> string) option" where
  "cachedVerdict e m req \<equiv> snd (LookupURL (e_sha e) (e_codec e) (e_rget e) (e_now e) m (URL_String (rq_URL req)))"

text \<open>When a response has to be looked at: its type is scanned and its length is within the limit or unknown.\<close>

definition mustScan :: "unicode \<Rightarrow> Manager \<Rightarrow> 'b Response \<Rightarrow> bool" where
  "mustScan u m resp \<longleftrightarrow>
     IsScannable u (m_config m) (Header_Get (rs_Header resp) ''Content-Type'') \<and> rs_ContentLength resp \<le> m_maxSize m"

lemma scanRoundTrip_pass:
  "\<not> mustScan u m resp \<Longrightarrow> scanRoundTrip u t req (Some resp) m fs = Some (passThrough resp m fs)"
  by (auto simp: scanRoundTrip_def mustScan_def Let_def)

lemma scanRoundTrip_must:
  assumes "mustScan u m resp"
    and "LookupURL (e_sha (t_scan t)) (e_codec (t_scan t)) (e_rget (t_scan t)) (e_now (t_scan t)) m (URL_String (rq_URL req)) = (m', hit)"
  shows "scanRoundTrip u t req (Some resp) m fs =
     (let scan = (if isBrowserRequest req then handleBrowser t req resp m' fs else handleCLI t req resp m' fs) in
      case hit of
        None \<Rightarrow> Some scan
      | Some (status, threat) \<Rightarrow>
          if status = StatusClean then Some (passThrough resp m' fs)
          else if status = StatusInfected then
            (let (m'', job) = NewPresetJob (t_id t) (t_now t) req resp StatusInfected threat m'
             in Some \<lparr>to_resp = scanRedirectResponse (j_ID job), to_mgr = m'', to_fs = fs, to_scan = None, to_cmds = []\<rparr>)
          else Some scan)"
  using assms by (simp add: scanRoundTrip_def mustScan_def)

lemma scanRoundTrip_defined: "\<exists>out. scanRoundTrip u t req (Some resp) m fs = Some out"
proof (cases "mustScan u m resp")
  case True
  obtain m' hit where "LookupURL (e_sha (t_scan t)) (e_codec (t_scan t)) (e_rget (t_scan t)) (e_now (t_scan t)) m (URL_String (rq_URL req)) = (m', hit)"
    by (metis surj_pair)
  from scanRoundTrip_must [OF True this] show ?thesis
    by (cases hit) (auto simp: Let_def NewPresetJob_def)
next
  case False
  then show ?thesis by (simp add: scanRoundTrip_pass)
qed

lemma handleBrowser_out:
  "rs_Body (to_resp (handleBrowser t req resp m fs)) = NoBody \<and> rs_StatusCode (to_resp (handleBrowser t req resp m fs)) = 302 \<and>
   Header_Get (rs_Header (to_resp (handleBrowser t req resp m fs))) ''Location'' = ''http://proxy.invalid/scan/result?id='' @ t_id t \<and>
   (\<exists>job as. to_scan (handleBrowser t req resp m fs) = Some (job, as) \<and> GetJob (to_mgr (handleBrowser t req resp m fs)) (t_id t) = Some job)"
  by (simp add: handleBrowser_def scanRedirectResponse_def StartBrowserJob_def newJob_def startScan_def storeJob_def GetJob_def
      magicHost_def PathResult_def PathPrefix_def Let_def split: prod.splits)

lemma handleCLI_out:
  fixes t req resp m fs
  defines "out \<equiv> handleCLI t req resp m fs"
  shows "case rs_Body (to_resp out) of
           Upstream b \<Rightarrow> b = rs_Body resp \<and> (\<not> t_openOK t \<or> to_fs out (tempPathOf (m_dir m) (t_id t)) = None)
         | Trickled s \<Rightarrow> (\<exists>job. freshJob job \<and> to_scan out = Some (job, s_acts s) \<and>
                s = startSession (fst (runScan (t_scan t) True (j_OriginalURL job) (rs_Body resp) (m_cache m))) job)
         | NoBody \<Rightarrow> False"
  by (simp add: out_def handleCLI_def StartCLIJob_def newJob_def startScan_def storeJob_def freshJob_def startSession_def Let_def
      split: prod.splits)

lemma LookupURL_keeps: "LookupURL sha codec rget now m url = (m', hit) \<Longrightarrow> m_dir m' = m_dir m \<and> m_jobs m' = m_jobs m"
  by (auto simp: LookupURL_def split: option.splits prod.splits)

text \<open>What becomes of the body of a response that must be scanned.\<close>

lemma scanRoundTrip_body:
  assumes "mustScan u m resp" "scanRoundTrip u t req (Some resp) m fs = Some out"
  shows "case rs_Body (to_resp out) of
           Upstream b \<Rightarrow> b = rs_Body resp \<and>
             ((\<exists>th. cachedVerdict (t_scan t) m req = Some (StatusClean, th)) \<or>
              \<not> isBrowserRequest req \<and> (\<not> t_openOK t \<or> to_fs out (tempPathOf (m_dir m) (t_id t)) = None))
         | Trickled s \<Rightarrow> \<not> isBrowserRequest req \<and>
             (\<exists>job oc. freshJob job \<and> to_scan out = Some (job, s_acts s) \<and>
                s = startSession (fst (runScan (t_scan t) True (j_OriginalURL job) (rs_Body resp) oc)) job)
         | NoBody \<Rightarrow> rs_StatusCode (to_resp out) = 302 \<and>
             Header_Get (rs_Header (to_resp out)) ''Location'' = ''http://proxy.invalid/scan/result?id='' @ t_id t"
proof -
  let ?e = "t_scan t"
  obtain m' hit where l: "LookupURL (e_sha ?e) (e_codec ?e) (e_rget ?e) (e_now ?e) m (URL_String (rq_URL req)) = (m', hit)"
    by (cases "LookupURL (e_sha ?e) (e_codec ?e) (e_rget ?e) (e_now ?e) m (URL_String (rq_URL req))")
  consider (clean) th where "hit = Some (StatusClean, th)" "out = passThrough resp m' fs"
    | (infected) th m'' job where "hit = Some (StatusInfected, th)" "NewPresetJob (t_id t) (t_now t) req resp StatusInfected th m' = (m'', job)"
        "out = \<lparr>to_resp = scanRedirectResponse (j_ID job), to_mgr = m'', to_fs = fs, to_scan = None, to_cmds = []\<rparr>"
    | (browser) "isBrowserRequest req" "out = handleBrowser t req resp m' fs"
    | (cli) "\<not> isBrowserRequest req" "out = handleCLI t req resp m' fs"
    using assms(2) unfolding scanRoundTrip_must [OF assms(1) l]
    by (auto simp: Let_def split: option.splits prod.splits if_splits)
  then show ?thesis
  proof cases
    case clean
    with l show ?thesis by (simp add: withBody_def)
  next
    case infected
    then have "j_ID job = t_id t"
      by (auto simp: NewPresetJob_def Let_def)
    with infected show ?thesis
      by (simp add: scanRedirectResponse_def magicHost_def PathResult_def PathPrefix_def)
  next
    case browser
    then show ?thesis using handleBrowser_out [of t req resp m' fs] by simp
  next
    case cli
    then show ?thesis
      using handleCLI_out [where t = t and req = req and resp = resp and m = m' and fs = fs] LookupURL_keeps [OF l] by (auto split: wbody.splits)
  qed
qed

text \<open>A trickled response keeps the status and loses the length.\<close>

lemma scanRoundTrip_trickled:
  assumes "scanRoundTrip u t req (Some resp) m fs = Some out" "rs_Body (to_resp out) = Trickled s0"
  obtains job oc where "freshJob job" "to_scan out = Some (job, s_acts s0)"
    "s0 = startSession (fst (runScan (t_scan t) True (j_OriginalURL job) (rs_Body resp) oc)) job"
    "rs_StatusCode (to_resp out) = rs_StatusCode resp" "rs_ContentLength (to_resp out) = -1" "\<not> rs_Close (to_resp out)"
    "Header_Get (rs_Header (to_resp out)) ''Content-Type'' = Header_Get (rs_Header resp) ''Content-Type''"
proof -
  let ?e = "t_scan t"
  have must: "mustScan u m resp"
    using assms scanRoundTrip_pass [of u m resp t req fs] by (cases "mustScan u m resp") (auto simp: withBody_def)
  obtain m' hit where l: "LookupURL (e_sha ?e) (e_codec ?e) (e_rget ?e) (e_now ?e) m (URL_String (rq_URL req)) = (m', hit)"
    by (cases "LookupURL (e_sha ?e) (e_codec ?e) (e_rget ?e) (e_now ?e) m (URL_String (rq_URL req))")
  have "out = handleCLI t req resp m' fs"
    using assms handleBrowser_out [of t req resp m' fs] unfolding scanRoundTrip_must [OF must l]
    by (auto simp: Let_def withBody_def scanRedirectResponse_def split: option.splits prod.splits if_splits)
  moreover have "rs_StatusCode (to_resp (handleCLI t req resp m' fs)) = rs_StatusCode resp \<and>
      rs_ContentLength (to_resp (handleCLI t req resp m' fs)) = -1 \<and> \<not> rs_Close (to_resp (handleCLI t req resp m' fs)) \<and>
      Header_Get (rs_Header (to_resp (handleCLI t req resp m' fs))) ''Content-Type'' = Header_Get (rs_Header resp) ''Content-Type''"
    by (simp add: handleCLI_def split: prod.splits)
  moreover obtain job oc where "freshJob job" "to_scan out = Some (job, s_acts s0)"
      "s0 = startSession (fst (runScan (t_scan t) True (j_OriginalURL job) (rs_Body resp) oc)) job"
    using scanRoundTrip_body [OF must assms(1)] assms(2) by auto
  ultimately show thesis
    using that by blast
qed

text \<open>Environments for the witnesses: without a cache, and with a remote infected verdict for every URL.\<close>

definition demoUni :: unicode where
  "demoUni = \<lparr>uni_ToLower = id, uni_TrimSpace = id\<rparr>"

definition demoTenv :: "scan_env \<Rightarrow> transport_env" where
  "demoTenv e = \<lparr>t_id = ''1'', t_now = 0, t_createOK = True, t_openOK = True, t_scan = e\<rparr>"

definition demoInfectedEnv :: scan_env where
  "demoInfectedEnv = (demoEnv (demoConn True ''stream: OK'') 10)\<lparr>
     e_codec := \<lparr>marshal = \<lambda>_. [], unmarshal = \<lambda>_. Some \<lparr>pay_Status = StatusInfected, pay_ThreatName = ''Eicar''\<rparr>\<rparr>,
     e_rget := \<lambda>_. RedisBytes []\<rparr>"

definition demoCacheMgr :: Manager where
  "demoCacheMgr = demoMgr\<lparr>m_cache := Some (NewResultCache 60 60 5 True)\<rparr>"

lemma demo_mustScan: "mustScan demoUni demoMgr (demoResp b)" "mustScan demoUni demoCacheMgr (demoResp b)"
proof -
  have "mediaType demoUni ''application/zip'' = ''application/zip''"
    by (simp add: mediaType_def TrimSpace_def ToLower_def is_ascii_def ascii_lower_def ascii_space_def)
  then show "mustScan demoUni demoMgr (demoResp b)" "mustScan demoUni demoCacheMgr (demoResp b)"
    by (simp_all add: mustScan_def IsScannable_def demoResp_def Header_Get_def demoCacheMgr_def demoMgr_def NewManager_def
        DefaultScanConfig_def)
qed

lemma demo_infected_verdict: "cachedVerdict demoInfectedEnv demoCacheMgr req = Some (StatusInfected, ''Eicar'')"
  by (simp add: LookupURL_def GetByURL_def cache_get_def demoCacheMgr_def demoInfectedEnv_def NewResultCache_def cm_Load_def
      split: prod.splits)

section \<open>Properties\<close>



text \<open>
  A URL with a cached infected verdict costs no scan and no body: the client is
  redirected, the job behind the redirect is infected with the cached threat, its status poll says
  so, and its download is refused.
\<close>

lemma scan_cached_infected:
  assumes "mustScan u m resp" "cachedVerdict (t_scan t) m req = Some (StatusInfected, th)"
    and "scanRoundTrip u t req (Some resp) m fs = Some out" "Query_Get (rq_URL r) ''id'' = t_id t"
  shows "rs_Body (to_resp out) = NoBody \<and> to_scan out = None \<and>
         rp_body (handleStatus (to_mgr out) r) =
           JsonBody (JObj ([(''status'', JStr ''infected'')] @ (if th = [] then [] else [(''threat'', JStr th)]))) \<and>
         rp_code (handleDownload (to_mgr out) fs' r) = 403"
proof -
  let ?e = "t_scan t"
  obtain m' where l: "LookupURL (e_sha ?e) (e_codec ?e) (e_rget ?e) (e_now ?e) m (URL_String (rq_URL req)) = (m', Some (StatusInfected, th))"
    using assms(2) by (metis prod.collapse)
  have "GetJob (to_mgr out) (t_id t) =
      Some (snd (NewPresetJob (t_id t) (t_now t) req resp StatusInfected th m'))" "rs_Body (to_resp out) = NoBody" "to_scan out = None"
    using assms(3) unfolding scanRoundTrip_must [OF assms(1) l]
    by (auto simp: NewPresetJob_def scanRedirectResponse_def Let_def)
  then show ?thesis
    using assms(4)
    by (simp add: handleStatus_def handleDownload_def ServeFile_def NewPresetJob_def httpError_def Let_def)
qed

text \<open>
  The access log's byte count is the length of the upstream body once it has been read
  to the end, for every response but a protocol switch, as long as the count fits in an
  \<open>int64\<close>.
\<close>

lemma timed_counts_body:
  assumes "timedRoundTrip (Some meta) (Some resp) = (Some (resp', wrapped), Some meta')"
    and "rs_StatusCode resp \<noteq> 101" "mt_bytesSent meta = 0" "int (length (content (rs_Body resp))) < 2 ^ 63"
  shows "mt_bytesSent (drainCounted wrapped (rs_Body resp') meta') = int (length (content (rs_Body resp))) \<and>
         mt_statusCode meta' = rs_StatusCode resp"
  using assms drainCounted_total [of meta' "rs_Body resp"]
  by (auto simp: timedRoundTrip_def int64_def)

end
