(* ===== verification/Chunked.thy ===== *)
theory Chunked
  imports Clamd
begin

text \<open>
  The chunked writer of \<^verbatim>\<open>internal/proxy/tunnel.go\<close> (\<open>loopChunkedWriter\<close>), with a
  reference decoder for the chunked transfer coding written from RFC 9112, section 7.1 (without
  chunk extensions and trailers, which the writer does not produce).
\<close>

section \<open>Model\<close>

definition CRLF :: string where
  "CRLF = [CHR 0x0D, CHR 0x0A]"

definition chunkWrite :: "bytes \<Rightarrow> bytes" where
  "chunkWrite p = (if p = [] then [] else fmt_x (length p) @ CRLF @ p @ CRLF)"

definition chunkClose :: bytes where
  "chunkClose = ''0'' @ CRLF @ CRLF"

section \<open>A reference decoder\<close>

definition hexVal :: "char \<Rightarrow> nat option" where
  "hexVal c =
     (let n = (of_char c :: nat) in
      if 48 \<le> n \<and> n \<le> 57 then Some (n - 48)
      else if 97 \<le> n \<and> n \<le> 102 then Some (n - 87)
      else if 65 \<le> n \<and> n \<le> 70 then Some (n - 55)
      else None)"

fun parseHex :: "nat \<Rightarrow> string \<Rightarrow> nat option" where
  "parseHex acc [] = Some acc"
| "parseHex acc (c # s) = (case hexVal c of None \<Rightarrow> None | Some d \<Rightarrow> parseHex (16 * acc + d) s)"

definition isHex :: "char \<Rightarrow> bool" where
  "isHex c \<longleftrightarrow> hexVal c \<noteq> None"

text \<open>The decoded body and what follows it; \<open>None\<close> is a malformed or incomplete body.\<close>

function decodeChunked :: "bytes \<Rightarrow> (bytes \<times> bytes) option" where
  "decodeChunked s =
     (let size = takeWhile isHex s; rest = dropWhile isHex s in
      if size = [] \<or> take 2 rest \<noteq> CRLF then None
      else (case parseHex 0 size of
              None \<Rightarrow> None
            | Some n \<Rightarrow>
                (let data = drop 2 rest in
                 if n = 0 then (if take 2 data = CRLF then Some ([], drop 2 data) else None)
                 else if length data < n + 2 \<or> take 2 (drop n data) \<noteq> CRLF then None
                 else map_option (\<lambda>(b, r). (take n data @ b, r)) (decodeChunked (drop (n + 2) data)))))"
  by pat_completeness auto
termination
proof (relation "measure length", goal_cases)
  case (2 s size rest n data)
  have "length rest \<le> length s"
    using 2 by (simp add: length_dropWhile_le)
  with 2 show ?case by auto
qed simp

declare decodeChunked.simps [simp del]

section \<open>Lemmas\<close>

lemma hexVal_digit: "d < 16 \<Longrightarrow> hexVal (digit_char d) = Some d"
proof -
  have "\<forall>d \<in> {..<16}. hexVal (digit_char d) = Some d"
    by code_simp
  then show "d < 16 \<Longrightarrow> hexVal (digit_char d) = Some d" by simp
qed

lemma parseHex_append: "parseHex acc (a @ b) = Option.bind (parseHex acc a) (\<lambda>v. parseHex v b)"
  by (induction a arbitrary: acc) (auto split: option.splits)

lemma digits_16: "list_all isHex (digits 16 n) \<and> digits 16 n \<noteq> [] \<and> parseHex 0 (digits 16 n) = Some n"
proof (induction "16 :: nat" n rule: digits.induct)
  case (1 n)
  show ?case
  proof (cases "n < 16")
    case True
    then show ?thesis by (subst (1 2 3) digits.simps) (simp add: isHex_def hexVal_digit)
  next
    case False
    then show ?thesis
      using 1 by (subst (1 2 3) digits.simps) (simp add: isHex_def hexVal_digit parseHex_append)
  qed
qed

lemma CRLF_not_hex: "\<not> isHex CHR 0x0D"
  by (simp add: isHex_def hexVal_def)

lemma hex_prefix:
  assumes "list_all isHex h"
  shows "takeWhile isHex (h @ CRLF @ s) = h" "dropWhile isHex (h @ CRLF @ s) = CRLF @ s"
  using assms CRLF_not_hex by (simp_all add: CRLF_def takeWhile_append2 dropWhile_append2 list_all_iff)

lemma decodeChunked_close: "decodeChunked (chunkClose @ s) = Some ([], s)"
proof -
  have "list_all isHex ''0''"
    by (simp add: isHex_def hexVal_def)
  from hex_prefix [OF this, of "CRLF @ s"] show ?thesis
    by (subst decodeChunked.simps) (simp add: chunkClose_def CRLF_def hexVal_def)
qed

lemma decodeChunked_chunk:
  assumes "p \<noteq> []"
  shows "decodeChunked (chunkWrite p @ s) = map_option (\<lambda>(b, r). (p @ b, r)) (decodeChunked s)"
proof -
  have hex: "list_all isHex (fmt_x (length p))" "fmt_x (length p) \<noteq> []" "parseHex 0 (fmt_x (length p)) = Some (length p)"
    using digits_16 [of "length p"] by (simp_all add: fmt_x_def)
  have "drop 2 (CRLF @ x) = x" "take 2 (CRLF @ x) = CRLF" for x
    by (simp_all add: CRLF_def)
  moreover have "length CRLF = 2"
    by (simp add: CRLF_def)
  ultimately show ?thesis
    using assms hex hex_prefix [OF hex(1), of "p @ CRLF @ s"]
    by (subst decodeChunked.simps) (simp add: chunkWrite_def Let_def)
qed

lemma decodeChunked_chunks:
  "decodeChunked (concat (map chunkWrite ps) @ chunkClose @ s) = Some (concat ps, s)"
proof (induction ps)
  case Nil
  show ?case by (simp add: decodeChunked_close)
next
  case (Cons p ps)
  show ?case
  proof (cases "p = []")
    case True
    with Cons show ?thesis by (simp add: chunkWrite_def)
  next
    case False
    with Cons show ?thesis by (simp add: decodeChunked_chunk)
  qed
qed

end
