(* ===== verification/Domain_Blocklist.thy ===== *)
theory Domain_Blocklist
  imports Prelude
begin

text \<open>
  The proxy's domain blocklist, \<^verbatim>\<open>internal/proxy/blocklist.go\<close>: exact entries in a set,
  wildcard entries \<open>*.base\<close> in a trie over the reversed labels of the base domain, whose
  \<open>*\<close> child marks the end of an entry. Go mutates the trie through the node pointers that
  \<open>getOrCreate\<close> returns; the model returns the updated node with the child and writes the
  changed child back.

  The locale \<open>subdomain_index\<close> states what the blocklist needs of an index of wildcard
  bases; the trie interprets it. The theorems show that the trie walk decides exactly "some
  wildcard base is a proper suffix of the host's labels", and that \<open>IsBlocked\<close> decides
  the textual meaning of the entry list.
\<close>

section \<open>Model\<close>

datatype trieNode = TrieNode (children: "string \<Rightarrow> trieNode option") (terminal: bool)

record Blocklist =
  exact :: "string set"
  trie :: trieNode

definition emptyNode :: trieNode where
  "emptyNode = TrieNode (\<lambda>_. None) False"

definition setChild :: "trieNode \<Rightarrow> string \<Rightarrow> trieNode \<Rightarrow> trieNode" where
  "setChild n label child = TrieNode ((children n)(label := Some child)) (terminal n)"

definition getOrCreate :: "trieNode \<Rightarrow> string \<Rightarrow> trieNode \<times> trieNode" where
  "getOrCreate n label =
     (case children n label of
        Some child \<Rightarrow> (n, child)
      | None \<Rightarrow> (setChild n label emptyNode, emptyNode))"

text \<open>The insertion loop of \<open>addEntry\<close>: one step per reversed label, then the sentinel.\<close>

fun addLabels :: "trieNode \<Rightarrow> string list \<Rightarrow> trieNode" where
  "addLabels n [] =
     (let (n', wc) = getOrCreate n ''*'' in setChild n' ''*'' (TrieNode (children wc) True))"
| "addLabels n (l # ls) =
     (let (n', child) = getOrCreate n l in setChild n' l (addLabels child ls))"

definition addEntry :: "unicode \<Rightarrow> Blocklist \<Rightarrow> string \<Rightarrow> Blocklist" where
  "addEntry u bl line0 =
     (let line = ToLower u (TrimSpace u line0) in
      if line = [] then bl
      else if HasPrefix line ''*.'' then
        (let base = drop 2 line; labels = Split CHR ''.'' base in
         bl\<lparr>trie := addLabels (trie bl) (rev labels)\<rparr>)
      else bl\<lparr>exact := insert line (exact bl)\<rparr>)"

definition NewBlocklist :: "unicode \<Rightarrow> string list \<Rightarrow> Blocklist" where
  "NewBlocklist u domains = foldl (addEntry u) \<lparr>exact = {}, trie = emptyNode\<rparr> domains"

text \<open>
  The loop of \<open>wildcardBlocked\<close> over the labels from the last to the first; \<open>i > 0\<close>
  in the source is \<open>ls \<noteq> []\<close> here.
\<close>

fun walkLabels :: "trieNode \<Rightarrow> string list \<Rightarrow> bool" where
  "walkLabels n [] = False"
| "walkLabels n (l # ls) =
     (case children n l of
        None \<Rightarrow> False
      | Some node \<Rightarrow>
          (case children node ''*'' of
             Some wc \<Rightarrow> if terminal wc \<and> ls \<noteq> [] then True else walkLabels node ls
           | None \<Rightarrow> walkLabels node ls))"

definition wildcardBlocked :: "Blocklist \<Rightarrow> string \<Rightarrow> bool" where
  "wildcardBlocked bl h = walkLabels (trie bl) (rev (Split CHR ''.'' h))"

text \<open>\<open>IsBlocked\<close> may be called on a nil \<open>*Blocklist\<close>.\<close>

definition hostOf :: "unicode \<Rightarrow> string \<Rightarrow> string" where
  "hostOf u host =
     (let h = ToLower u host in case SplitHostPort h of Some (stripped, _) \<Rightarrow> stripped | None \<Rightarrow> h)"

definition IsBlocked :: "unicode \<Rightarrow> Blocklist option \<Rightarrow> string \<Rightarrow> bool" where
  "IsBlocked u obl host =
     (case obl of
        None \<Rightarrow> False
      | Some bl \<Rightarrow> (let h = hostOf u host in h \<in> exact bl \<or> wildcardBlocked bl h))"

section \<open>Specification\<close>

text \<open>
  The meaning of one normalised entry: the empty line matches nothing, \<open>*.base\<close> matches
  the names that end in \<open>.base\<close>, any other entry matches itself only.
\<close>

definition entryMatches :: "string \<Rightarrow> string \<Rightarrow> bool" where
  "entryMatches e h \<longleftrightarrow>
     e \<noteq> [] \<and> (if HasPrefix e ''*.'' then HasSuffix h (CHR ''.'' # drop 2 e) else h = e)"

definition normEntry :: "unicode \<Rightarrow> string \<Rightarrow> string" where
  "normEntry u d = ToLower u (TrimSpace u d)"

section \<open>The interface of a wildcard index\<close>

locale subdomain_index =
  fixes nothing :: 't
    and add :: "'t \<Rightarrow> string list \<Rightarrow> 't"
    and hit :: "'t \<Rightarrow> string list \<Rightarrow> bool"
  assumes hit_nothing: "\<not> hit nothing ls"
    and hit_add: "p \<noteq> [] \<Longrightarrow> hit (add t p) ls \<longleftrightarrow> hit t ls \<or> (\<exists>r. r \<noteq> [] \<and> ls = p @ r)"
begin

lemma hit_add_labels:
  "hit (add t (rev (Split c b))) (rev (Split c h)) \<longleftrightarrow>
     hit t (rev (Split c h)) \<or> HasSuffix h (c # b)"
proof -
  have "(\<exists>r. r \<noteq> [] \<and> rev (Split c h) = rev (Split c b) @ r) \<longleftrightarrow>
        (\<exists>pre. pre \<noteq> [] \<and> Split c h = pre @ Split c b)"
    by (metis rev_append rev_is_Nil_conv rev_rev_ident)
  then show ?thesis
    by (simp add: hit_add Split_suffix_iff HasSuffix_iff)
qed

lemma hit_foldl:
  "hit (foldl (\<lambda>t b. add t (rev (Split c b))) t bs) (rev (Split c h)) \<longleftrightarrow>
     hit t (rev (Split c h)) \<or> (\<exists>b \<in> set bs. HasSuffix h (c # b))"
  by (induction bs arbitrary: t) (auto simp: hit_add_labels)

end

section \<open>The trie implements it\<close>

text \<open>\<open>hasBase n p\<close>: an entry whose reversed base labels are \<open>p\<close> ends below \<open>n\<close>.\<close>

fun hasBase :: "trieNode \<Rightarrow> string list \<Rightarrow> bool" where
  "hasBase n [] = (case children n ''*'' of Some wc \<Rightarrow> terminal wc | None \<Rightarrow> False)"
| "hasBase n (l # ls) = (case children n l of None \<Rightarrow> False | Some c \<Rightarrow> hasBase c ls)"

lemma children_setChild [simp]:
  "children (setChild n l c) l' = (if l' = l then Some c else children n l')"
  by (simp add: setChild_def)

lemma terminal_setChild [simp]: "terminal (setChild n l c) = terminal n"
  by (simp add: setChild_def)

lemma hasBase_emptyNode [simp]: "\<not> hasBase emptyNode p"
  by (cases p) (auto simp: emptyNode_def)

lemma addLabels_terminal [simp]: "terminal (addLabels n p) = terminal n"
  by (cases p) (auto simp: getOrCreate_def split: option.splits)

lemma terminal_emptyNode [simp]: "\<not> terminal emptyNode"
  by (simp add: emptyNode_def)

lemma hasBase_terminal_irrelevant [simp]: "hasBase (TrieNode (children n) t) p = hasBase n p"
  by (cases p) auto

lemma hasBase_addLabels: "hasBase (addLabels n p) q \<longleftrightarrow> q = p \<or> hasBase n q"
proof (induction n p arbitrary: q rule: addLabels.induct)
  case (1 n)
  show ?case
    by (cases q) (auto simp: getOrCreate_def split: option.splits)
next
  case (2 n l ls)
  show ?case
  proof (cases q)
    case Nil
    then show ?thesis
      by (auto simp: getOrCreate_def split: option.splits)
  next
    case (Cons x xs)
    then show ?thesis
      using 2 by (auto simp: getOrCreate_def split: option.splits)
  qed
qed

lemma walkLabels_iff:
  "walkLabels n ls \<longleftrightarrow> (\<exists>p r. p \<noteq> [] \<and> r \<noteq> [] \<and> ls = p @ r \<and> hasBase n p)"
proof (induction n ls rule: walkLabels.induct)
  case (1 n)
  show ?case by simp
next
  case (2 n l ls)
  have split: "(\<exists>p r. p \<noteq> [] \<and> r \<noteq> [] \<and> l # ls = p @ r \<and> hasBase n p) \<longleftrightarrow>
      (ls \<noteq> [] \<and> hasBase n [l]) \<or>
      (\<exists>p r. p \<noteq> [] \<and> r \<noteq> [] \<and> ls = p @ r \<and> hasBase n (l # p))" (is "?lhs \<longleftrightarrow> ?rhs")
  proof
    assume ?lhs
    then obtain p r where pr: "p \<noteq> []" "r \<noteq> []" "l # ls = p @ r" "hasBase n p"
      by blast
    then obtain p' where p': "p = l # p'" "ls = p' @ r"
      by (cases p) auto
    show ?rhs
    proof (cases "p' = []")
      case True
      with pr p' show ?thesis by simp
    next
      case False
      with pr p' show ?thesis by blast
    qed
  next
    assume ?rhs
    then show ?lhs by (metis append_Cons append_Nil list.discI)
  qed
  show ?case
    unfolding split using 2 by (auto split: option.splits)
qed

interpretation trie: subdomain_index emptyNode addLabels walkLabels
proof unfold_locales
  show "\<not> walkLabels emptyNode ls" for ls
    by (simp add: walkLabels_iff)
  show "walkLabels (addLabels t p) ls \<longleftrightarrow> walkLabels t ls \<or> (\<exists>r. r \<noteq> [] \<and> ls = p @ r)"
    if "p \<noteq> []" for t p ls
    using that by (auto simp: walkLabels_iff hasBase_addLabels)
qed

section \<open>Correctness of the blocklist\<close>

definition blocks :: "Blocklist \<Rightarrow> string \<Rightarrow> bool" where
  "blocks bl h \<longleftrightarrow> h \<in> exact bl \<or> wildcardBlocked bl h"

lemma blocks_addEntry: "blocks (addEntry u bl d) h \<longleftrightarrow> blocks bl h \<or> entryMatches (normEntry u d) h"
  by (auto simp: blocks_def addEntry_def normEntry_def entryMatches_def wildcardBlocked_def Let_def
      trie.hit_add_labels)

lemma blocks_foldl:
  "blocks (foldl (addEntry u) bl ds) h \<longleftrightarrow> blocks bl h \<or> (\<exists>d \<in> set ds. entryMatches (normEntry u d) h)"
  by (induction ds arbitrary: bl) (auto simp: blocks_addEntry)

lemma blocks_NewBlocklist:
  "blocks (NewBlocklist u ds) h \<longleftrightarrow> (\<exists>d \<in> set ds. entryMatches (normEntry u d) h)"
  unfolding NewBlocklist_def blocks_foldl
  by (simp add: blocks_def wildcardBlocked_def trie.hit_nothing)

lemma IsBlocked_blocks: "IsBlocked u (Some bl) host = blocks bl (hostOf u host)"
  by (simp add: IsBlocked_def blocks_def Let_def)

lemma hostOf_ascii_case:
  "list_all is_ascii h \<Longrightarrow> hostOf u (ToLower u h) = hostOf u h"
  using ToLower_idem [of h u] by (simp add: hostOf_def)

lemma ascii_lower_special:
  "ascii_lower c = CHR '':'' \<longleftrightarrow> c = CHR '':''"
  "ascii_lower c = CHR ''['' \<longleftrightarrow> c = CHR ''[''"
  "ascii_lower c = CHR '']'' \<longleftrightarrow> c = CHR '']''"
proof -
  have "ascii_lower c = d \<longleftrightarrow> c = d" if "(of_char d :: nat) < 97 \<or> 122 < (of_char d :: nat)"
      "\<not> (65 \<le> (of_char d :: nat) \<and> (of_char d :: nat) \<le> 90)" for d
    using that by (auto simp: ascii_lower_def Let_def)
  then show
    "ascii_lower c = CHR '':'' \<longleftrightarrow> c = CHR '':''"
    "ascii_lower c = CHR ''['' \<longleftrightarrow> c = CHR ''[''"
    "ascii_lower c = CHR '']'' \<longleftrightarrow> c = CHR '']''"
    by simp_all
qed

lemma hostOf_port:
  assumes "list_all is_ascii h" "list_all is_ascii p"
    and "set h \<inter> {CHR '':'', CHR ''['', CHR '']''} = {}" "set p \<inter> {CHR '':'', CHR ''['', CHR '']''} = {}"
  shows "hostOf u (h @ CHR '':'' # p) = hostOf u h"
proof -
  have special: "set (map ascii_lower s) \<inter> {CHR '':'', CHR ''['', CHR '']''} = {}"
    if "set s \<inter> {CHR '':'', CHR ''['', CHR '']''} = {}" for s
    using that by (auto simp: ascii_lower_special dest!: sym [of _ "ascii_lower _"])
  have lower: "ToLower u (h @ CHR '':'' # p) = map ascii_lower h @ CHR '':'' # map ascii_lower p"
    using assms(1,2) by (simp add: is_ascii_def ascii_lower_def)
  show ?thesis
    using SplitHostPort_plain [OF special [OF assms(3)] special [OF assms(4)]] special [OF assms(3)] assms(1)
    by (simp add: hostOf_def lower Let_def)
qed

section \<open>Properties\<close>

text \<open>
  Property C3. The trie with its exact set blocks a host exactly when some line of the list matches
  the lower-cased host without its port: the line itself, or for \<open>*.base\<close> any name
  ending in \<open>.base\<close>. It holds for every list, in every order, duplicates and blank lines included.
\<close>

theorem IsBlocked_iff_entry:
  "IsBlocked u (Some (NewBlocklist u ds)) host \<longleftrightarrow> (\<exists>d \<in> set ds. entryMatches (normEntry u d) (hostOf u host))"
  by (simp add: IsBlocked_blocks blocks_NewBlocklist)

text \<open>
  A wildcard line does not block its own base name, and blocks every name with at
  least one more label in front of it, whatever port the request names and whatever its case.
\<close>

lemma wildcard_subdomains_only:
  assumes "list_all is_ascii base" "map ascii_lower base = base" "map ascii_lower sub = sub" "list_all is_ascii sub"
    and "list_all is_ascii port" "set (base @ sub @ port) \<inter> {CHR '':'', CHR ''['', CHR '']''} = {}"
    and "TrimSpace u (''*.'' @ base) = ''*.'' @ base"
    and "list_all is_ascii host" "map ascii_lower host = sub @ ''.'' @ base"
  shows "IsBlocked u (Some (NewBlocklist u [''*.'' @ base])) (host @ '':'' @ port)
       \<and> \<not> IsBlocked u (Some (NewBlocklist u [''*.'' @ base])) base"
proof -
  have norm: "normEntry u (''*.'' @ base) = ''*.'' @ base"
    using assms(1,2,7) by (simp add: normEntry_def is_ascii_def ascii_lower_def)
  have base: "hostOf u base = base"
    using assms(1,2,6) by (auto simp: hostOf_def)
  have host_set: "set (map ascii_lower host) \<inter> {CHR '':'', CHR ''['', CHR '']''} = {}"
    using assms(6,9) by auto
  then have "set host \<inter> {CHR '':'', CHR ''['', CHR '']''} = {}"
    using ascii_lower_special by (metis (no_types, lifting) disjoint_insert(1) imageI inf_bot_right list.set_map)
  then have "hostOf u (host @ CHR '':'' # port) = hostOf u host"
    using assms(5,6,8) by (intro hostOf_port) auto
  also have "hostOf u host = sub @ ''.'' @ base"
    using assms(8,9) host_set by (simp add: hostOf_def)
  finally have "hostOf u (host @ '':'' @ port) = sub @ ''.'' @ base" by simp
  moreover have "entryMatches (''*.'' @ base) (sub @ ''.'' @ base)"
    by (simp add: entryMatches_def HasPrefix_def HasSuffix_iff)
  moreover have "\<not> entryMatches (''*.'' @ base) base"
    by (auto simp: entryMatches_def HasPrefix_def HasSuffix_iff dest: arg_cong [where f = length])
  ultimately show ?thesis
    using norm by (simp add: IsBlocked_blocks blocks_NewBlocklist base)
qed

end
