(* ===== verification/Conn_Loop.thy ===== *)
theory Conn_Loop
  imports Chunked Domain_Blocklist Pages Syslog "HOL-Library.List_Lexorder" "HOL-Library.Char_ord"
begin

text \<open>
  The request loop on a decrypted tunnel, \<^verbatim>\<open>internal/proxy/tunnel.go\<close>: the response
  head and body written by hand, the blocklist check, the log records, and the conditions under
  which the connection is kept.

  The client's side of the connection is a sequence of request heads, each followed by the bytes of its
  body. The transport is a parameter that passes its own state, reads as much of the request's body as
  it likes, and answers with what the loop observes of it: the response, whether its body is writable,
  and the byte count and content type of the request's metadata when the log is written. Writes to the
  client succeed. \<open>http.StatusText\<close>, the clock and the request ids are parameters.
\<close>

section \<open>Writing a response\<close>

definition hopHeaders :: "string set" where
  "hopHeaders = {''Connection'', ''Keep-Alive'', ''Proxy-Authenticate'', ''Proxy-Authorization'', ''Proxy-Connection'',
     ''Te'', ''Trailers'', ''Transfer-Encoding'', ''Upgrade''}"

text \<open>\<open>strings.EqualFold(k, "Content-Length")\<close>; no letter of that name folds to one outside ASCII.\<close>

definition isContentLength :: "string \<Rightarrow> bool" where
  "isContentLength k \<longleftrightarrow> map ascii_lower k = ''content-length''"

definition headerLine :: "string \<Rightarrow> string \<Rightarrow> bytes" where
  "headerLine k v = k @ '': '' @ v @ CRLF"

definition endToEnd :: "header \<Rightarrow> (string \<times> string list) list" where
  "endToEnd h = filter (\<lambda>(k, _). k \<notin> hopHeaders \<and> \<not> isContentLength k) h"

definition headerLines :: "header \<Rightarrow> bytes" where
  "headerLines h = concat (map (\<lambda>(k, vv). concat (map (headerLine k) vv)) h)"

definition statusLine :: "int \<Rightarrow> string \<Rightarrow> bytes" where
  "statusLine code text = ''HTTP/1.1 '' @ fmt_d code @ '' '' @ text @ CRLF"

definition loopWriteHead :: "(int \<Rightarrow> string) \<Rightarrow> 'b Response \<Rightarrow> bytes" where
  "loopWriteHead StatusText resp =
     statusLine (rs_StatusCode resp) (if rs_Status resp = [] then StatusText (rs_StatusCode resp) else rs_Status resp) @
     headerLines (endToEnd (rs_Header resp)) @
     (if rs_StatusCode resp \<noteq> 101 then
        (if rs_ContentLength resp \<ge> 0 then headerLine ''Content-Length'' (fmt_d (rs_ContentLength resp))
         else if rs_Close resp then headerLine ''Connection'' ''close''
         else headerLine ''Transfer-Encoding'' ''chunked'')
      else []) @ CRLF"

text \<open>\<open>http.Header.Write\<close>: fields sorted by name, line breaks in values made spaces, values trimmed.\<close>

definition headerWrite :: "header \<Rightarrow> bytes" where
  "headerWrite h =
     (let blank = (\<lambda>c. c = CHR '' '' \<or> c = CHR 0x09);
          clean = (\<lambda>v. let v = map (\<lambda>c. if c \<in> {CHR 0x0A, CHR 0x0D} then CHR '' '' else c) v
                       in rev (dropWhile blank (rev (dropWhile blank v))))
      in headerLines (map (\<lambda>(k, vv). (k, map clean vv)) (sort_key fst h)))"

definition loopWriteUpgradeHead :: "'b Response \<Rightarrow> bytes" where
  "loopWriteUpgradeHead resp =
     ''HTTP/'' @ fmt_d (rs_ProtoMajor resp) @ ''.'' @ fmt_d (rs_ProtoMinor resp) @ '' 101 Switching Protocols'' @ CRLF @
     headerWrite (rs_Header resp) @ CRLF"

text \<open>\<open>io.CopyBuffer\<close> stops at the first error and its error is dropped; the chunked body is closed in any case.\<close>

definition loopWriteBody :: "reader Response \<Rightarrow> bytes" where
  "loopWriteBody resp =
     (if rs_ContentLength resp = 0 then []
      else if rs_ContentLength resp > 0 then content (rs_Body resp)
      else concat (map chunkWrite (reads (rs_Body resp))) @ chunkClose)"

definition loopForbidden :: "string \<Rightarrow> bytes" where
  "loopForbidden host =
     (let body = Sprintf blockedPageHTML [host]
      in ''HTTP/1.1 403 Forbidden'' @ CRLF @ headerLine ''Content-Type'' ''text/html; charset=utf-8'' @
         headerLine ''Content-Length'' (fmt_d (int (length body))) @ headerLine ''Connection'' ''close'' @ CRLF @ body)"

definition loopPlainStatus :: "(int \<Rightarrow> string) \<Rightarrow> int \<Rightarrow> bytes" where
  "loopPlainStatus StatusText code =
     statusLine code (StatusText code) @ headerLine ''Content-Length'' ''0'' @ headerLine ''Connection'' ''close'' @ CRLF"

section \<open>Buffered writing\<close>

text \<open>
  The pooled \<open>bufio.Writer\<close> that head and body go through: what it holds, and what it has passed on
  to the connection.
\<close>

definition transportBufSize :: nat where
  "transportBufSize = 256 * 1024"

record bufio =
  bw_buf :: bytes
  bw_conn :: bytes

definition bwReset :: bufio where
  "bwReset = \<lparr>bw_buf = [], bw_conn = []\<rparr>"

definition bwFlush :: "bufio \<Rightarrow> bufio" where
  "bwFlush w = \<lparr>bw_buf = [], bw_conn = bw_conn w @ bw_buf w\<rparr>"

text \<open>\<open>bufio.Writer.Write\<close>: what does not fit fills the buffer and is flushed; a write into an empty buffer that is too large for it goes straight through.\<close>

definition bwEmptyWrite :: "bytes \<Rightarrow> bufio \<Rightarrow> bufio" where
  "bwEmptyWrite p w = (if length p \<le> transportBufSize then w\<lparr>bw_buf := p\<rparr> else w\<lparr>bw_conn := bw_conn w @ p\<rparr>)"

definition bwWrite :: "bytes \<Rightarrow> bufio \<Rightarrow> bufio" where
  "bwWrite p w =
     (if length p \<le> transportBufSize - length (bw_buf w) then w\<lparr>bw_buf := bw_buf w @ p\<rparr>
      else if bw_buf w = [] then bwEmptyWrite p w
      else (let n = transportBufSize - length (bw_buf w)
            in bwEmptyWrite (drop n p) (bwFlush (w\<lparr>bw_buf := bw_buf w @ take n p\<rparr>))))"

lemma bwReset_empty [simp]: "bw_buf bwReset = []" "bw_conn bwReset = []"
  by (simp_all add: bwReset_def)

lemma bwFlush_all: "bw_conn (bwFlush w) = bw_conn w @ bw_buf w" "bw_buf (bwFlush w) = []"
  by (simp_all add: bwFlush_def)

lemma bwWrite_total: "bw_conn (bwWrite p w) @ bw_buf (bwWrite p w) = bw_conn w @ bw_buf w @ p"
  by (simp add: bwWrite_def bwEmptyWrite_def bwFlush_def Let_def)

lemma bwWrite_fits:
  "length (bw_buf w) + length p \<le> transportBufSize \<Longrightarrow> bwWrite p w = w\<lparr>bw_buf := bw_buf w @ p\<rparr>"
  by (simp add: bwWrite_def)

lemma bwWrites_total: "bw_conn (fold bwWrite ps w) @ bw_buf (fold bwWrite ps w) = bw_conn w @ bw_buf w @ concat ps"
proof (induction ps arbitrary: w)
  case (Cons p ps)
  have "bw_conn (fold bwWrite ps (bwWrite p w)) @ bw_buf (fold bwWrite ps (bwWrite p w)) =
      (bw_conn (bwWrite p w) @ bw_buf (bwWrite p w)) @ concat ps"
    using Cons.IH by simp
  then show ?case by (simp add: bwWrite_total)
qed simp

text \<open>The buffer does not change what arrives in the end, and holds everything back until it is full.\<close>

lemma bwWrites_flush: "bw_conn (bwFlush (fold bwWrite ps bwReset)) = concat ps"
  using bwWrites_total [of ps bwReset] by (simp add: bwFlush_all)

lemma bwWrites_held:
  "length (bw_buf w) + length (concat ps) \<le> transportBufSize \<Longrightarrow> bw_conn (fold bwWrite ps w) = bw_conn w"
proof (induction ps arbitrary: w)
  case (Cons p ps)
  then have "bwWrite p w = w\<lparr>bw_buf := bw_buf w @ p\<rparr>"
    by (intro bwWrite_fits) simp
  with Cons.IH [of "bwWrite p w"] Cons.prems show ?case by simp
qed simp

section \<open>The loop\<close>

record loop_conn =
  lc_scheme :: string
  lc_host :: string
  lc_tlsVer :: string
  lc_tlsCiph :: string
  lc_remote :: string

record loop_env =
  le_unicode :: unicode
  le_statusText :: "int \<Rightarrow> string"

text \<open>What one iteration draws from the clock and the id generator.\<close>

record loop_tick =
  lt_start :: int
  lt_durationMS :: int
  lt_requestID :: string

record loop_resp =
  lp_resp :: "reader Response"
  lp_writable :: bool
  lp_bytesSent :: int
  lp_contentType :: string

datatype loop_next = Continue | Stop | Bridge

definition normalise :: "loop_conn \<Rightarrow> Request \<Rightarrow> Request" where
  "normalise cx req =
     req\<lparr>rq_URL := (rq_URL req)\<lparr>u_Scheme := lc_scheme cx, u_Host := lc_host cx\<rparr>,
         rq_Host := (if rq_Host req = [] then lc_host cx else rq_Host req)\<rparr>"

text \<open>
  What the client sends: a request head, with the length of the body framed behind it, or a byte of a
  body. \<open>http.ReadRequest\<close> needs a head; a connection that stands inside a body gives it an error.
\<close>

datatype wire = Head Request nat | Byte char

fun ReadRequest :: "wire list \<Rightarrow> (Request \<times> nat \<times> wire list) option" where
  "ReadRequest (Head r n # w) = Some (r, n, w)"
| "ReadRequest _ = None"

fun bodyBytes :: "nat \<Rightarrow> wire list \<Rightarrow> bytes" where
  "bodyBytes (Suc n) (Byte c # w) = c # bodyBytes n w"
| "bodyBytes _ _ = []"

text \<open>\<open>drainBody\<close> with \<open>n\<close> bytes of the body unread.\<close>

definition drainBody :: "nat \<Rightarrow> wire list \<Rightarrow> wire list" where
  "drainBody n w = drop n w"

definition clientIPOf :: "string \<Rightarrow> string" where
  "clientIPOf remote = (case SplitHostPort remote of Some (h, _) \<Rightarrow> h | None \<Rightarrow> [])"

text \<open>The fields every record of the loop shares.\<close>

definition baseRecord :: "loop_conn \<Rightarrow> loop_tick \<Rightarrow> Request \<Rightarrow> AccessRecord" where
  "baseRecord cx tk req = zeroRecord\<lparr>lr_Time := lt_start tk, lr_RequestID := lt_requestID tk, lr_ClientIP := clientIPOf (lc_remote cx),
     lr_XForwardedFor := Header_Get (rq_Header req) ''X-Forwarded-For'', lr_Method := rq_Method req, lr_Scheme := lc_scheme cx,
     lr_Path := u_RequestURI (rq_URL req), lr_UserAgent := Header_Get (rq_Header req) ''User-Agent'',
     lr_TLSVersion := lc_tlsVer cx, lr_TLSCipher := lc_tlsCiph cx\<rparr>"

definition blockRecord :: "loop_conn \<Rightarrow> loop_tick \<Rightarrow> Request \<Rightarrow> AccessRecord" where
  "blockRecord cx tk req = (baseRecord cx tk req)\<lparr>lr_Host := rq_Host req, lr_StatusCode := 403, lr_EventType := ''block'',
     lr_BlockReason := ''blocklist''\<rparr>"

definition accessRecordOf :: "loop_conn \<Rightarrow> loop_tick \<Rightarrow> Request \<Rightarrow> int \<Rightarrow> int \<Rightarrow> string \<Rightarrow> AccessRecord" where
  "accessRecordOf cx tk req status sent ct = (baseRecord cx tk req)\<lparr>lr_Host := lc_host cx, lr_StatusCode := status,
     lr_BytesSent := sent, lr_DurationMS := lt_durationMS tk, lr_ContentType := ct\<rparr>"

text \<open>
  The part of an iteration after the round trip: the bytes written to the client, the records
  emitted, and how the loop goes on.
\<close>

definition afterRoundTrip :: "loop_env \<Rightarrow> loop_conn \<Rightarrow> loop_tick \<Rightarrow> Request \<Rightarrow> loop_resp option \<Rightarrow> bytes \<times> AccessRecord list \<times> loop_next" where
  "afterRoundTrip env cx tk req rt =
     (case rt of
        None \<Rightarrow> (loopPlainStatus (le_statusText env) 502, [accessRecordOf cx tk req 502 0 []], Stop)
      | Some lp \<Rightarrow>
          (let resp = lp_resp lp; status = rs_StatusCode resp in
           if status = 101 then
             (if \<not> lp_writable lp then (loopWriteUpgradeHead resp, [], Stop)
              else (loopWriteUpgradeHead resp, [accessRecordOf cx tk req status (lp_bytesSent lp) []], Bridge))
           else if HasPrefix (Header_Get (rs_Header resp) ''Content-Type'') ''text/event-stream'' then
             (let resp = resp\<lparr>rs_Close := True\<rparr>
              in (loopWriteHead (le_statusText env) resp @ content (rs_Body resp),
                  [accessRecordOf cx tk req status (lp_bytesSent lp) (lp_contentType lp)], Stop))
           else
             (loopWriteHead (le_statusText env) resp @ loopWriteBody resp,
              [accessRecordOf cx tk req status (lp_bytesSent lp) (lp_contentType lp)],
              if rs_Close resp \<or> rq_Close req then Stop else Continue)))"

text \<open>
  The whole loop on the input \<open>input\<close>: the transport's final state, the requests it was given, the bytes
  written, and the records emitted. The \<open>i\<close>-th iteration draws its clock readings and the blocklist,
  which is loaded anew for each request, from \<open>draw i\<close>.
\<close>

function serveConnLoop :: "loop_env \<Rightarrow> loop_conn \<Rightarrow> ('s \<Rightarrow> Request \<Rightarrow> bytes \<Rightarrow> 's \<times> nat \<times> loop_resp option) \<Rightarrow>
    (nat \<Rightarrow> loop_tick \<times> Blocklist option) \<Rightarrow> nat \<Rightarrow> wire list \<Rightarrow> 's \<Rightarrow> 's \<times> Request list \<times> bytes \<times> AccessRecord list" where
  "serveConnLoop env cx rt draw i input s =
     (case ReadRequest input of
        None \<Rightarrow> (s, [], [], [])
      | Some (req0, n, rest) \<Rightarrow>
          (let (tk, obl) = draw i; req = normalise cx req0 in
           if IsBlocked (le_unicode env) obl (rq_Host req) then
             (s, [], loopForbidden (rq_Host req), [blockRecord cx tk req])
           else
             (let (s', k, r) = rt s req (bodyBytes n rest);
                  unread = drainBody (n - min k n) (drop (min k n) rest);
                  (out, logs, nxt) = afterRoundTrip env cx tk req r
              in if nxt = Continue then
                   (let (s'', sent, out', logs') = serveConnLoop env cx rt draw (Suc i) unread s'
                    in (s'', req # sent, out @ out', logs @ logs'))
                 else (s', [req], out, logs))))"
  by pat_completeness auto
termination
proof (relation "measure (\<lambda>(env, cx, rt, draw, i, input, s). length input)", goal_cases)
  case (2 env cx rt draw i input s)
  then show ?case by (cases input rule: ReadRequest.cases) (auto simp: drainBody_def)
qed simp

declare serveConnLoop.simps [simp del]

section \<open>Message framing as a client reads it\<close>

datatype framing = FrameLength nat | FrameChunked | FrameClose

text \<open>The framing that the head announces.\<close>

definition announced :: "'b Response \<Rightarrow> framing" where
  "announced resp =
     (if rs_ContentLength resp \<ge> 0 then FrameLength (nat (rs_ContentLength resp))
      else if rs_Close resp then FrameClose else FrameChunked)"

definition framingLine :: "framing \<Rightarrow> bytes" where
  "framingLine f = (case f of
     FrameLength n \<Rightarrow> headerLine ''Content-Length'' (fmt_d (int n))
   | FrameChunked \<Rightarrow> headerLine ''Transfer-Encoding'' ''chunked''
   | FrameClose \<Rightarrow> headerLine ''Connection'' ''close'')"

text \<open>The body a client takes from the stream after the head, and the rest of the stream.\<close>

definition clientReads :: "framing \<Rightarrow> bytes \<Rightarrow> (bytes \<times> bytes) option" where
  "clientReads f s = (case f of
     FrameLength n \<Rightarrow> if length s < n then None else Some (take n s, drop n s)
   | FrameChunked \<Rightarrow> decodeChunked s
   | FrameClose \<Rightarrow> Some (s, []))"

lemma head_announces:
  "rs_StatusCode resp \<noteq> 101 \<Longrightarrow> \<exists>pre. loopWriteHead st resp = pre @ framingLine (announced resp) @ CRLF"
  by (auto simp: loopWriteHead_def framingLine_def announced_def)

text \<open>The header fields before the framing line hold no hop-by-hop field and no length.\<close>

lemma endToEnd_fields: "(k, vv) \<in> set (endToEnd h) \<longleftrightarrow> (k, vv) \<in> set h \<and> k \<notin> hopHeaders \<and> \<not> isContentLength k"
  by (auto simp: endToEnd_def)

lemma chunks_longer: "length (concat ps) \<le> length (concat (map chunkWrite ps))"
  by (induction ps) (auto simp: chunkWrite_def)

text \<open>The input that a client sends for a sequence of requests with their bodies.\<close>

fun wireOf :: "(Request \<times> bytes) list \<Rightarrow> wire list" where
  "wireOf [] = []"
| "wireOf ((r, b) # rs) = Head r (length b) # map Byte b @ wireOf rs"

lemma bodyBytes_wire: "bodyBytes (length b) (map Byte b @ w) = b"
  by (induction b) simp_all

text \<open>Whatever the transport left of a body, draining it leaves the connection at the next head.\<close>

lemma drainBody_wire: "drainBody (length b - min k (length b)) (drop (min k (length b)) (map Byte b) @ w) = w"
  by (simp add: drainBody_def min_def)

lemma serveConnLoop_Nil [simp]: "serveConnLoop env cx rt draw i [] s = (s, [], [], [])"
  by (simp add: serveConnLoop.simps)

lemma serveConnLoop_blocked:
  assumes "draw i = (tk, obl)" "IsBlocked (le_unicode env) obl (rq_Host (normalise cx r))"
  shows "serveConnLoop env cx rt draw i (Head r n # w) s =
           (s, [], loopForbidden (rq_Host (normalise cx r)), [blockRecord cx tk (normalise cx r)])"
  using assms by (simp add: serveConnLoop.simps Let_def)

lemma serveConnLoop_forward:
  assumes "draw i = (tk, obl)" "\<not> IsBlocked (le_unicode env) obl (rq_Host (normalise cx r))"
    and "rt s (normalise cx r) b = (s1, k, ans)" "afterRoundTrip env cx tk (normalise cx r) ans = (o1, l1, nxt)"
    and "serveConnLoop env cx rt draw (Suc i) (wireOf rs) s1 = (s2, sent2, o2, l2)"
  shows "serveConnLoop env cx rt draw i (wireOf ((r, b) # rs)) s =
           (if nxt = Continue then (s2, normalise cx r # sent2, o1 @ o2, l1 @ l2) else (s1, [normalise cx r], o1, l1))"
  using assms by (subst serveConnLoop.simps) (simp add: bodyBytes_wire drainBody_wire Let_def)

lemma serveConnLoop_sent:
  assumes "serveConnLoop env cx rt draw i (wireOf reqs) s = (s', sent, out, logs)"
  shows "sent = map (\<lambda>(r, b). normalise cx r) (take (length sent) reqs) \<and>
         (\<forall>j < length sent. \<not> IsBlocked (le_unicode env) (snd (draw (i + j))) (rq_Host (sent ! j)))"
  using assms
proof (induction reqs arbitrary: i s s' sent out logs)
  case (Cons rb reqs)
  obtain r b where rb: "rb = (r, b)" by fastforce
  obtain tk obl where d: "draw i = (tk, obl)" by fastforce
  let ?req = "normalise cx r"
  show ?case
  proof (cases "IsBlocked (le_unicode env) obl (rq_Host ?req)")
    case True
    with Cons.prems serveConnLoop_blocked [of draw i tk obl env cx r rt "length b" "map Byte b @ wireOf reqs" s] rb d
    show ?thesis by simp
  next
    case False
    obtain s1 k ans where t: "rt s ?req b = (s1, k, ans)" by (cases "rt s ?req b")
    obtain o1 l1 nxt where a: "afterRoundTrip env cx tk ?req ans = (o1, l1, nxt)" by (cases "afterRoundTrip env cx tk ?req ans")
    obtain s2 sent2 o2 l2 where rec: "serveConnLoop env cx rt draw (Suc i) (wireOf reqs) s1 = (s2, sent2, o2, l2)"
      by (cases "serveConnLoop env cx rt draw (Suc i) (wireOf reqs) s1")
    note step = serveConnLoop_forward [OF d False t a rec]
    have "sent = ?req # sent2 \<or> sent = [?req]"
      using Cons.prems step rb by (auto split: if_splits)
    with Cons.IH [OF rec] False d rb show ?thesis
      by (auto simp: less_Suc_eq_0_disj)
  qed
qed simp

text \<open>Values for the witnesses.\<close>

definition demoLoopEnv :: loop_env where
  "demoLoopEnv = \<lparr>le_unicode = \<lparr>uni_ToLower = id, uni_TrimSpace = id\<rparr>, le_statusText = \<lambda>_. ''OK''\<rparr>"

definition demoLoopConn :: loop_conn where
  "demoLoopConn = \<lparr>lc_scheme = ''https'', lc_host = ''good.test:443'', lc_tlsVer = [], lc_tlsCiph = [], lc_remote = ''10.0.0.1:5000''\<rparr>"

definition demoTick :: loop_tick where
  "demoTick = \<lparr>lt_start = 0, lt_durationMS = 0, lt_requestID = ''id''\<rparr>"

definition demoLoopReq :: "string \<Rightarrow> Request" where
  "demoLoopReq host = \<lparr>rq_Method = ''GET'', rq_URL = \<lparr>u_Scheme = [], u_Host = [], u_Path = ''/'', u_Query = [], u_RequestURI = ''/'', u_Tail = ''/''\<rparr>,
     rq_Host = host, rq_Header = [], rq_RemoteAddr = [], rq_Close = False\<rparr>"

definition demoLoopResp :: "reader \<Rightarrow> bool \<Rightarrow> reader Response" where
  "demoLoopResp body close = \<lparr>rs_StatusCode = 200, rs_Status = [], rs_ProtoMajor = 1, rs_ProtoMinor = 1, rs_Header = [],
     rs_Body = body, rs_ContentLength = -1, rs_Close = close\<rparr>"

definition demoLoopOut :: "reader \<Rightarrow> loop_resp" where
  "demoLoopOut body = \<lparr>lp_resp = demoLoopResp body False, lp_writable = False, lp_bytesSent = 0, lp_contentType = []\<rparr>"

section \<open>Properties\<close>



text \<open>
  The excluded combination is broken: when the upstream's length is unknown and its
  connection closes, the head announces a body delimited by the end of the connection, but the body
  is chunk-encoded, so the client reads something longer than the upstream's body.
\<close>

lemma loop_close_mismatch:
  assumes "rs_ContentLength resp < 0" "rs_Close resp"
  shows "announced resp = FrameClose \<and>
         (\<exists>b. clientReads (announced resp) (loopWriteBody resp) = Some (b, []) \<and> length (content (rs_Body resp)) < length b)"
proof -
  have "length (content (rs_Body resp)) < length (concat (map chunkWrite (reads (rs_Body resp))) @ chunkClose)"
    using chunks_longer [of "reads (rs_Body resp)"] by (simp add: chunkClose_def CRLF_def)
  with assms show ?thesis
    by (auto simp: announced_def clientReads_def loopWriteBody_def)
qed

text \<open>
  An aborted body looks complete: when a body of unknown length ends in an error (an
  upstream failure, or the trickle reader's virus error), the loop still terminates the chunked body
  and keeps the connection, so the client decodes the bytes received so far as a whole response.
\<close>

lemma loop_abort_looks_complete:
  assumes "rs_ContentLength (lp_resp lp) < 0" "\<not> rs_Close (lp_resp lp)" "\<not> rq_Close req" "rs_StatusCode (lp_resp lp) = 200"
    and "\<not> HasPrefix (Header_Get (rs_Header (lp_resp lp)) ''Content-Type'') ''text/event-stream''"
    and "ending (rs_Body (lp_resp lp)) = ReadErr" "afterRoundTrip env cx tk req (Some lp) = (out, logs, nxt)"
  shows "nxt = Continue \<and>
         (\<exists>body. out = loopWriteHead (le_statusText env) (lp_resp lp) @ body \<and>
            clientReads (announced (lp_resp lp)) body = Some (content (rs_Body (lp_resp lp)), []))"
  using assms decodeChunked_chunks [of "reads (rs_Body (lp_resp lp))" "[]"]
  by (auto simp: afterRoundTrip_def announced_def clientReads_def loopWriteBody_def Let_def)

text \<open>
  A response to HEAD has no body, but one of unknown length is still followed by the terminating chunk,
  which the client takes for the start of the next response.
\<close>

lemma loop_head_stray: "content (rs_Body resp) = [] \<Longrightarrow> rs_ContentLength resp < 0 \<Longrightarrow> loopWriteBody resp = chunkClose"
proof -
  have "concat (map chunkWrite ps) = []" if "concat ps = []" for ps
    using that by (induction ps) (simp_all add: chunkWrite_def)
  from this [of "reads (rs_Body resp)"] show "content (rs_Body resp) = [] \<Longrightarrow> rs_ContentLength resp < 0 \<Longrightarrow> loopWriteBody resp = chunkClose"
    by (simp add: loopWriteBody_def)
qed




definition demoDraw :: "Blocklist option \<Rightarrow> nat \<Rightarrow> loop_tick \<times> Blocklist option" where
  "demoDraw obl i = (demoTick, obl)"

definition demoTransport :: "nat \<Rightarrow> Request \<Rightarrow> bytes \<Rightarrow> nat \<times> nat \<times> loop_resp option" where
  "demoTransport n req body = (Suc n, 1, Some (demoLoopOut (Final ''x'' EOF)))"




end
