(* ===== verification/Reverse_Proxy.thy ===== *)
theory Reverse_Proxy
  imports Conn_Loop
begin

text \<open>
  The part of \<open>httputil.ReverseProxy\<close> that serves plain proxy requests: how it prepares the outgoing
  request for the \<open>Rewrite\<close> function of \<^verbatim>\<open>internal/proxy/handler.go\<close>, and what it writes for the
  answer of the transport. The query is one that parses, and trailers and informational responses are
  left out.
\<close>

section \<open>Header fields\<close>

definition Header_Values :: "header \<Rightarrow> string \<Rightarrow> string list" where
  "Header_Values h k = (case map_of h k of Some vv \<Rightarrow> vv | None \<Rightarrow> [])"

definition ascii_upper :: "char \<Rightarrow> char" where
  "ascii_upper c = (let n = (of_char c :: nat) in if 97 \<le> n \<and> n \<le> 122 then char_of (n - 32) else c)"

text \<open>\<open>textproto.CanonicalMIMEHeaderKey\<close>; a name with a byte that no token has is left alone.\<close>

definition tokenChar :: "char \<Rightarrow> bool" where
  "tokenChar c \<longleftrightarrow>
     (let n = (of_char c :: nat) in
      48 \<le> n \<and> n \<le> 57 \<or> 65 \<le> n \<and> n \<le> 90 \<or> 97 \<le> n \<and> n \<le> 122 \<or> c \<in> set ''!#$%&*+-.^_|~'' \<or> n \<in> {39, 96})"

fun canonicalFrom :: "bool \<Rightarrow> string \<Rightarrow> string" where
  "canonicalFrom upper [] = []"
| "canonicalFrom upper (c # s) = (if upper then ascii_upper c else ascii_lower c) # canonicalFrom (c = CHR ''-'') s"

definition CanonicalKey :: "string \<Rightarrow> string" where
  "CanonicalKey k = (if list_all tokenChar k then canonicalFrom True k else k)"

definition trimChars :: "char set \<Rightarrow> string \<Rightarrow> string" where
  "trimChars cs s = rev (dropWhile (\<lambda>c. c \<in> cs) (rev (dropWhile (\<lambda>c. c \<in> cs) s)))"

text \<open>\<open>httpguts.HeaderValuesContainsToken\<close>.\<close>

definition ContainsToken :: "string list \<Rightarrow> string \<Rightarrow> bool" where
  "ContainsToken vv token \<longleftrightarrow>
     list_ex (\<lambda>v. list_ex (\<lambda>t. map ascii_lower (trimChars {CHR '' '', CHR 0x09} t) = map ascii_lower token) (Split (CHR '','') v)) vv"

definition upgradeType :: "header \<Rightarrow> string" where
  "upgradeType h = (if ContainsToken (Header_Values h ''Connection'') ''Upgrade'' then Header_Get h ''Upgrade'' else [])"

definition rpHopHeaders :: "string list" where
  "rpHopHeaders = [''Connection'', ''Proxy-Connection'', ''Keep-Alive'', ''Proxy-Authenticate'', ''Proxy-Authorization'', ''Te'',
     ''Trailer'', ''Transfer-Encoding'', ''Upgrade'']"

definition connectionTokens :: "header \<Rightarrow> string list" where
  "connectionTokens h =
     filter (\<lambda>t. t \<noteq> [])
       (map (trimChars {CHR '' '', CHR 0x09, CHR 0x0A, CHR 0x0D}) (concat (map (Split (CHR '','')) (Header_Values h ''Connection''))))"

definition removeHopByHop :: "header \<Rightarrow> header" where
  "removeHopByHop h = fold (\<lambda>k h. Header_Del h k) (map CanonicalKey (connectionTokens h) @ rpHopHeaders) h"

definition isPrint :: "string \<Rightarrow> bool" where
  "isPrint s \<longleftrightarrow> list_all (\<lambda>c. 32 \<le> (of_char c :: nat) \<and> (of_char c :: nat) \<le> 126) s"

text \<open>The header of the outgoing request before \<open>Rewrite\<close> sees it, and the user agent it is given after.\<close>

definition outHeader :: "header \<Rightarrow> header" where
  "outHeader h =
     (let up = upgradeType h;
          h1 = removeHopByHop h;
          h2 = (if ContainsToken (Header_Values h ''Te'') ''trailers'' then Header_Set h1 ''Te'' ''trailers'' else h1);
          h3 = (if up = [] then h2 else Header_Set (Header_Set h2 ''Connection'' ''Upgrade'') ''Upgrade'' up)
      in fold (\<lambda>k h. Header_Del h k) [''Forwarded'', ''X-Forwarded-For'', ''X-Forwarded-Host'', ''X-Forwarded-Proto''] h3)"

definition defaultAgent :: "header \<Rightarrow> header" where
  "defaultAgent h = (if map_of h ''User-Agent'' = None then Header_Set h ''User-Agent'' [] else h)"

section \<open>Serving a request\<close>

text \<open>The calls on the response writer, and how the handler ends: it returns, hijacks the connection for an upgrade, or panics with \<open>http.ErrAbortHandler\<close>.\<close>

datatype rw_op = CopyHeader header | WriteHeader int | WriteBytes bytes

datatype rp_end = RpReturned | RpUpgraded | RpAborted

definition outRequest :: "(Request \<Rightarrow> Request) \<Rightarrow> Request \<Rightarrow> Request" where
  "outRequest rewrite r =
     (let out = rewrite (r\<lparr>rq_Header := outHeader (rq_Header r), rq_Close := False\<rparr>)
      in out\<lparr>rq_Header := defaultAgent (rq_Header out)\<rparr>)"

text \<open>\<open>copyResponse\<close>: every read is written; an end other than EOF aborts the connection, which the server only sees through the panic.\<close>

definition answer_ops :: "reader Response \<Rightarrow> rw_op list" where
  "answer_ops resp = [CopyHeader (removeHopByHop (rs_Header resp)), WriteHeader (rs_StatusCode resp)] @
     map WriteBytes (filter (\<lambda>p. p \<noteq> []) (reads (rs_Body resp)))"

definition badGateway :: "rw_op list \<times> rp_end" where
  "badGateway = ([WriteHeader 502], RpReturned)"

definition writeAnswer :: "string \<Rightarrow> loop_resp option \<Rightarrow> rw_op list \<times> rp_end" where
  "writeAnswer reqUp ans =
     (case ans of
        None \<Rightarrow> badGateway
      | Some lp \<Rightarrow>
          (let resp = lp_resp lp; resUp = upgradeType (rs_Header resp) in
           if rs_StatusCode resp = 101 then
             (if isPrint resUp \<and> map ascii_lower reqUp = map ascii_lower resUp \<and> lp_writable lp then ([], RpUpgraded) else badGateway)
           else (answer_ops resp, if ending (rs_Body resp) = EOF then RpReturned else RpAborted)))"

text \<open>The request given to the transport, if any, with the calls and the end.\<close>

definition rpServeHTTP :: "(Request \<Rightarrow> Request) \<Rightarrow> (Request \<Rightarrow> loop_resp option) \<Rightarrow> Request \<Rightarrow> Request option \<times> rw_op list \<times> rp_end" where
  "rpServeHTTP rewrite rt r =
     (let up = upgradeType (rq_Header r) in
      if \<not> isPrint up then (None, badGateway)
      else (let out = outRequest rewrite r in (Some out, writeAnswer up (rt out))))"

section \<open>Lemmas\<close>

text \<open>The body bytes among the calls.\<close>

fun written :: "rw_op list \<Rightarrow> bytes" where
  "written [] = []"
| "written (WriteBytes b # ops) = b @ written ops"
| "written (_ # ops) = written ops"

lemma written_answer [simp]: "written (answer_ops resp) = content (rs_Body resp)"
proof -
  have "written (map WriteBytes (filter (\<lambda>p. p \<noteq> []) ps)) = concat ps" for ps
    by (induction ps) auto
  from this [of "reads (rs_Body resp)"] show ?thesis by (simp add: answer_ops_def)
qed

lemma Header_Get_dels: "Header_Get (fold (\<lambda>k h. Header_Del h k) ks h) k = (if k \<in> set ks then [] else Header_Get h k)"
  by (induction ks arbitrary: h) auto

text \<open>No hop-by-hop field of the client and no forwarding field reaches the upstream, an upgrade apart.\<close>

lemma outHeader_strips:
  assumes "upgradeType h = []"
    and "k \<in> {''Connection'', ''Upgrade'', ''Proxy-Authorization'', ''Proxy-Connection'', ''Keep-Alive'', ''Transfer-Encoding'',
              ''Forwarded'', ''X-Forwarded-For'', ''X-Forwarded-Host'', ''X-Forwarded-Proto''}"
  shows "Header_Get (outHeader h) k = []"
  using assms by (auto simp: outHeader_def removeHopByHop_def rpHopHeaders_def Header_Get_dels Let_def)

lemma rpServeHTTP_upstream:
  "rpServeHTTP rewrite rt r = (Some out, ops, e) \<Longrightarrow> out = outRequest rewrite r \<and> (ops, e) = writeAnswer (upgradeType (rq_Header r)) (rt out)"
  by (auto simp: rpServeHTTP_def Let_def split: if_splits)

end
