(* ===== verification/Proxy_Server.thy ===== *)
theory Proxy_Server
  imports Scan_Transport Reverse_Proxy
begin

text \<open>
  The proxy's HTTP handler: \<^verbatim>\<open>internal/proxy/handler.go\<close>,
  \<^verbatim>\<open>internal/proxy/magichost.go\<close> and \<^verbatim>\<open>internal/proxy/connect.go\<close>.

  The TLS handshake and hijacking are parameters, the handshake by the negotiated version and cipher
  suite or a failure. Plain requests go through \<open>Reverse_Proxy\<close>, tunnels through \<open>Conn_Loop\<close>, both
  on the same transport.
\<close>

section \<open>The connection wrapper of a tunnel\<close>

text \<open>\<open>connWithReader.Read\<close>: buffered bytes first, then the connection's reads.\<close>

record connWithReader =
  cw_br :: "bytes option"
  cw_conn :: reader

fun connRead :: "nat \<Rightarrow> reader \<Rightarrow> bytes \<times> rerr option \<times> reader" where
  "connRead n (Read p r) = (if length p \<le> n then (p, None, r) else (take n p, None, Read (drop n p) r))"
| "connRead n (Final p e) = (if length p \<le> n then (p, Some e, Final [] e) else (take n p, None, Final (drop n p) e))"

definition connWithReader_Read :: "nat \<Rightarrow> connWithReader \<Rightarrow> bytes \<times> rerr option \<times> connWithReader" where
  "connWithReader_Read n c =
     (case cw_br c of
        Some b \<Rightarrow>
          if b \<noteq> [] then (take n b, None, c\<lparr>cw_br := Some (drop n b)\<rparr>)
          else (let (p, err, r) = connRead n (cw_conn c) in (p, err, c\<lparr>cw_br := None, cw_conn := r\<rparr>))
      | None \<Rightarrow> (let (p, err, r) = connRead n (cw_conn c) in (p, err, c\<lparr>cw_conn := r\<rparr>)))"

definition unread :: "connWithReader \<Rightarrow> bytes" where
  "unread c = (case cw_br c of Some b \<Rightarrow> b | None \<Rightarrow> []) @ content (cw_conn c)"

section \<open>The response recorder\<close>

text \<open>\<open>responseRecorder\<close>: the status it keeps.\<close>

fun recordOp :: "rw_op \<Rightarrow> int \<Rightarrow> int" where
  "recordOp (CopyHeader h) status = status"
| "recordOp (WriteHeader code) status = code"
| "recordOp (WriteBytes b) status = (if status = 0 then 200 else status)"

section \<open>The server\<close>

record Server =
  sv_blocklist :: "Blocklist option"
  sv_manager :: "Manager option"
  sv_fs :: fs
  sv_sender :: bool
  sv_pac :: "bytes option"
  sv_caPEM :: bytes
  sv_caDER :: bytes

text \<open>Tables the handlers use.\<close>

record server_env =
  se_loop :: loop_env
  se_quote :: "string \<Rightarrow> string"
  se_cipherName :: "16 word \<Rightarrow> string"

definition emitLog :: "Server \<Rightarrow> AccessRecord \<Rightarrow> AccessRecord list" where
  "emitLog s r = (if sv_sender s then [r] else [])"

datatype outcome =
    Replied reply "AccessRecord list"
  | Proxied "Request option" "rw_op list" rp_end "AccessRecord list"
  | Tunnelled "Request list" bytes "AccessRecord list"

definition fileReply :: "string \<Rightarrow> string \<Rightarrow> bytes \<Rightarrow> reply" where
  "fileReply ct name data =
     \<lparr>rp_code = 200,
      rp_header = [(''Content-Type'', [ct]), (''Content-Disposition'', [''attachment; filename='' @ [CHR 0x22] @ name @ [CHR 0x22]])],
      rp_body = BytesBody data\<rparr>"

definition serveCertPEM :: "Server \<Rightarrow> reply" where
  "serveCertPEM s = fileReply ''application/x-pem-file'' ''proxy-ca.pem'' (sv_caPEM s)"

definition serveCertDER :: "Server \<Rightarrow> reply" where
  "serveCertDER s = fileReply ''application/x-x509-ca-cert'' ''proxy-ca.crt'' (sv_caDER s)"

text \<open>The scan handler is \<open>http.NotFoundHandler\<close> when the proxy runs without a scan manager.\<close>

definition scanHandler :: "server_env \<Rightarrow> Server \<Rightarrow> Request \<Rightarrow> reply" where
  "scanHandler env s r =
     (case sv_manager s of None \<Rightarrow> NotFound | Some m \<Rightarrow> scanServeHTTP (se_quote env) m (sv_fs s) r)"

definition serveMagicHost :: "server_env \<Rightarrow> Server \<Rightarrow> Request \<Rightarrow> reply" where
  "serveMagicHost env s r =
     (let path = u_Path (rq_URL r) in
      if HasPrefix path PathPrefix then scanHandler env s r
      else if path = ''/cert.pem'' then serveCertPEM s
      else if path = ''/cert.crt'' then serveCertDER s
      else NotFound)"

definition serveBlockedPage :: "string \<Rightarrow> reply" where
  "serveBlockedPage host =
     \<lparr>rp_code = 403, rp_header = [(''Content-Type'', [''text/html; charset=utf-8''])],
      rp_body = BytesBody (Sprintf blockedPageHTML [host])\<rparr>"

text \<open>\<open>Rewrite\<close> of the reverse proxy: scheme and host of the outgoing request.\<close>

definition rpRewrite :: "Request \<Rightarrow> Request" where
  "rpRewrite r = r\<lparr>rq_URL := (rq_URL r)\<lparr>u_Host := rq_Host r\<rparr>\<rparr>"

definition plainRecord :: "loop_tick \<Rightarrow> Request \<Rightarrow> string \<Rightarrow> AccessRecord" where
  "plainRecord tk r scheme = zeroRecord\<lparr>lr_Time := lt_start tk, lr_RequestID := lt_requestID tk,
     lr_ClientIP := clientIPOf (rq_RemoteAddr r), lr_XForwardedFor := Header_Get (rq_Header r) ''X-Forwarded-For'',
     lr_Method := rq_Method r, lr_Scheme := scheme, lr_Host := rq_Host r, lr_Path := u_RequestURI (rq_URL r),
     lr_UserAgent := Header_Get (rq_Header r) ''User-Agent''\<rparr>"

text \<open>
  What a request meets: the transport with its state and the body of a plain request, and for CONNECT
  whether hijacking and the acknowledgement succeed, the handshake, what the client sends on the tunnel
  and what the iterations of the loop draw.
\<close>

record 's serve_run =
  cr_transport :: "'s \<Rightarrow> Request \<Rightarrow> bytes \<Rightarrow> 's \<times> nat \<times> loop_resp option"
  cr_state :: 's
  cr_body :: bytes
  cr_hijackOK :: bool
  cr_flushOK :: bool
  cr_handshake :: "(16 word \<times> 16 word) option"
  cr_input :: "wire list"
  cr_draw :: "nat \<Rightarrow> loop_tick \<times> Blocklist option"

definition plainAnswer :: "'s serve_run \<Rightarrow> Request \<Rightarrow> loop_resp option" where
  "plainAnswer run out = snd (snd (cr_transport run (cr_state run) out (cr_body run)))"

text \<open>A panic of the reverse proxy leaves the handler before the record is sent.\<close>

definition handlePlain :: "server_env \<Rightarrow> Server \<Rightarrow> loop_tick \<Rightarrow> 's serve_run \<Rightarrow> Request \<Rightarrow> string \<Rightarrow> outcome" where
  "handlePlain env s tk run r scheme =
     (let r = r\<lparr>rq_URL := (rq_URL r)\<lparr>u_Scheme := scheme\<rparr>\<rparr>;
          (out, ops, e) = rpServeHTTP rpRewrite (plainAnswer run) r;
          (sent, ct) = (case Option.bind out (plainAnswer run) of None \<Rightarrow> (0, []) | Some lp \<Rightarrow> (lp_bytesSent lp, lp_contentType lp));
          status = fold recordOp ops 0;
          rec = (plainRecord tk r scheme)\<lparr>lr_StatusCode := status, lr_BytesSent := sent,
                   lr_DurationMS := lt_durationMS tk, lr_ContentType := ct\<rparr>
      in Proxied out ops e (if e = RpAborted then [] else emitLog s rec))"

definition handleConnect :: "server_env \<Rightarrow> Server \<Rightarrow> 's serve_run \<Rightarrow> Request \<Rightarrow> outcome" where
  "handleConnect env s run r =
     (if \<not> cr_hijackOK run then Replied (httpError ''hijack failed'' 500) []
      else if \<not> cr_flushOK run then Tunnelled [] [] []
      else (case cr_handshake run of
              None \<Rightarrow> Tunnelled [] (''HTTP/1.1 200 Connection established'' @ CRLF @ CRLF) []
            | Some (ver, ciph) \<Rightarrow>
                (let cx = \<lparr>lc_scheme = ''https'', lc_host = rq_Host r, lc_tlsVer = TLSVersionString ver,
                           lc_tlsCiph = TLSCipherString (se_cipherName env) ciph, lc_remote = rq_RemoteAddr r\<rparr>;
                     (st, sent, out, logs) = serveConnLoop (se_loop env) cx (cr_transport run) (cr_draw run) 0 (cr_input run) (cr_state run)
                 in Tunnelled sent (''HTTP/1.1 200 Connection established'' @ CRLF @ CRLF @ out) (concat (map (emitLog s) logs)))))"

definition ServeHTTP :: "server_env \<Rightarrow> Server \<Rightarrow> loop_tick \<Rightarrow> 's serve_run \<Rightarrow> Request \<Rightarrow> outcome" where
  "ServeHTTP env s tk run r =
     (if rq_Method r = ''CONNECT'' then handleConnect env s run r
      else if u_Host (rq_URL r) = magicHost then Replied (serveMagicHost env s r) []
      else if u_Host (rq_URL r) = [] then
        (let path = u_Path (rq_URL r) in
         if HasPrefix path PathPrefix then Replied (scanHandler env s r) []
         else if path = ''/proxy.pac'' \<and> sv_pac s \<noteq> None then
           Replied \<lparr>rp_code = 200, rp_header = [(''Content-Type'', [''application/x-ns-proxy-autoconfig''])],
                    rp_body = BytesBody (the (sv_pac s))\<rparr> []
         else if path = ''/cert.pem'' then Replied (serveCertPEM s) []
         else if path = ''/cert.crt'' then Replied (serveCertDER s) []
         else Replied NotFound [])
      else
        (let r = (if u_Scheme (rq_URL r) = [] then r\<lparr>rq_URL := (rq_URL r)\<lparr>u_Scheme := ''http''\<rparr>\<rparr> else r) in
         if IsBlocked (le_unicode (se_loop env)) (sv_blocklist s) (rq_Host r) then
           Replied (serveBlockedPage (rq_Host r))
             (emitLog s ((plainRecord tk r ''http'')\<lparr>lr_StatusCode := 403, lr_EventType := ''block'', lr_BlockReason := ''blocklist''\<rparr>))
         else handlePlain env s tk run r ''http''))"

text \<open>\<open>NewServer\<close>: the handler state it builds.\<close>

definition NewServer :: "bytes \<Rightarrow> bytes \<Rightarrow> bool \<Rightarrow> Blocklist option \<Rightarrow> Manager option \<Rightarrow> bytes option \<Rightarrow> Server" where
  "NewServer caPEM caDER sender bl mgr pac =
     \<lparr>sv_blocklist = bl, sv_manager = mgr, sv_fs = Map.empty, sv_sender = sender, sv_pac = pac, sv_caPEM = caPEM, sv_caDER = caDER\<rparr>"

section \<open>Lemmas\<close>

lemma connRead_splits: "connRead n c = (p, err, c') \<Longrightarrow> content c = p @ content c' \<and> length p \<le> n"
  by (cases c) (auto split: if_splits)

lemma connWithReader_Read_splits:
  "connWithReader_Read n c = (p, err, c') \<Longrightarrow> unread c = p @ unread c' \<and> length p \<le> n"
  by (auto simp: connWithReader_Read_def unread_def Let_def split: option.splits if_splits prod.splits dest: connRead_splits)

lemma handleConnect_not_Proxied: "handleConnect env s run r \<noteq> Proxied out ops e logs"
  by (auto simp: handleConnect_def Let_def split: option.splits prod.splits)

text \<open>The request a plain proxy request becomes upstream.\<close>

lemma handlePlain_Proxied:
  assumes "rpServeHTTP rpRewrite (plainAnswer run) (r\<lparr>rq_URL := (rq_URL r)\<lparr>u_Scheme := scheme\<rparr>\<rparr>) = (out, ops, e)"
  shows "\<exists>logs. handlePlain env s tk run r scheme = Proxied out ops e logs \<and> (e = RpAborted \<longrightarrow> logs = [])"
  using assms by (simp add: handlePlain_def Let_def split: prod.splits)

lemma outRequest_strips:
  "Header_Get (rq_Header (outRequest rpRewrite r)) ''X-Forwarded-For'' = []"
  "Header_Get (rq_Header (outRequest rpRewrite r)) ''Proxy-Authorization'' = []"
  by (simp_all add: outRequest_def rpRewrite_def defaultAgent_def outHeader_def removeHopByHop_def rpHopHeaders_def Header_Get_dels Let_def)

lemma outRequest_target:
  "u_Host (rq_URL (outRequest rpRewrite r)) = rq_Host r \<and> rq_Host (outRequest rpRewrite r) = rq_Host r"
  by (simp add: outRequest_def rpRewrite_def Let_def)

section \<open>Properties\<close>

definition upstream_bound :: "server_env \<Rightarrow> Server \<Rightarrow> Request \<Rightarrow> bool" where
  "upstream_bound env s r \<longleftrightarrow> rq_Method r \<noteq> ''CONNECT'' \<and> u_Host (rq_URL r) \<noteq> magicHost \<and> u_Host (rq_URL r) \<noteq> [] \<and>
     \<not> IsBlocked (le_unicode (se_loop env)) (sv_blocklist s) (rq_Host r)"


text \<open>
  A plain request to a blocked host gets the 403 page and, with a sender, exactly one
  record with status 403 and event type \<open>block\<close>.
\<close>

lemma plain_blocked_page:
  assumes "rq_Method r \<noteq> ''CONNECT''" "u_Host (rq_URL r) \<noteq> magicHost" "u_Host (rq_URL r) \<noteq> []"
    and "IsBlocked (le_unicode (se_loop env)) (sv_blocklist s) (rq_Host r)"
  shows "\<exists>logs. ServeHTTP env s tk run r = Replied (serveBlockedPage (rq_Host r)) logs \<and>
           rp_code (serveBlockedPage (rq_Host r)) = 403 \<and>
           map (\<lambda>l. (lr_StatusCode l, lr_EventType l, lr_Host l)) logs = (if sv_sender s then [(403, ''block'', rq_Host r)] else [])"
  using assms by (auto simp: ServeHTTP_def serveBlockedPage_def emitLog_def plainRecord_def zeroRecord_def Let_def)

end
