(* ===== verification/Cli_Download.thy ===== *)
theory Cli_Download
  imports Proxy_Server
begin

text \<open>
  Downloads of clients that are not browsers, end to end: the scan transport replaces the upstream body
  by a trickle session (\<open>Scan_Transport\<close>, \<open>Trickle\<close>), the scan goroutine feeds it (\<open>Run_Scan\<close>), and the
  response is copied to the client by the reverse proxy (\<open>Reverse_Proxy\<close>) or by the loop of a tunnel
  (\<open>Conn_Loop\<close>).
\<close>

section \<open>Reading a session to its end\<close>

text \<open>
  A copy loop calls \<open>Read\<close> until the first error. The stream \<open>r\<close> is what it saw of the session
  \<open>s0\<close>, which is then in the state \<open>s\<close>; the split of the bytes into reads is left open.
\<close>

fun endOf :: "read_end \<Rightarrow> rerr" where
  "endOf RetEOF = EOF"
| "endOf _ = ReadErr"

inductive delivered :: "session \<Rightarrow> session \<Rightarrow> reader \<Rightarrow> bool" for s0 where
  copied: "trickles s0 s \<Longrightarrow> s_errs s = [x] \<Longrightarrow> content r = s_out s \<Longrightarrow> ending r = endOf x \<Longrightarrow> delivered s0 s r"

inductive_cases deliveredE [elim]: "delivered s0 s r"

fun_cases endOf_EOF [elim!]: "endOf x = EOF"

lemma delivered_EOF: "delivered s0 s r \<Longrightarrow> ending r = EOF \<Longrightarrow> RetEOF \<in> set (s_errs s)"
  by auto

section \<open>The two ways to the client\<close>

text \<open>The response as the copy loops see it, and what a tunnel client decodes of it.\<close>

definition answered :: "transport_out \<Rightarrow> reader \<Rightarrow> loop_resp \<Rightarrow> bool" where
  "answered out r lp \<longleftrightarrow> lp_resp lp = withBody r (to_resp out)"

definition tunnelDecodes :: "loop_env \<Rightarrow> loop_conn \<Rightarrow> loop_tick \<Rightarrow> Request \<Rightarrow> loop_resp \<Rightarrow> (bytes \<times> bytes) option" where
  "tunnelDecodes env cx tk q lp =
     clientReads (announced (lp_resp lp))
       (drop (length (loopWriteHead (le_statusText env) (lp_resp lp))) (fst (afterRoundTrip env cx tk q (Some lp))))"

definition eventStream :: "'b Response \<Rightarrow> bool" where
  "eventStream resp \<longleftrightarrow> HasPrefix (Header_Get (rs_Header resp) ''Content-Type'') ''text/event-stream''"

lemma tunnelDecodes_chunked:
  assumes "rs_ContentLength (lp_resp lp) = -1" "\<not> rs_Close (lp_resp lp)" "rs_StatusCode (lp_resp lp) \<noteq> 101" "\<not> eventStream (lp_resp lp)"
  shows "tunnelDecodes env cx tk q lp = Some (content (rs_Body (lp_resp lp)), [])"
  using assms decodeChunked_chunks [of "reads (rs_Body (lp_resp lp))" "[]"]
  by (simp add: tunnelDecodes_def afterRoundTrip_def announced_def clientReads_def loopWriteBody_def eventStream_def Let_def)

lemma writeAnswer_copied:
  assumes "rs_StatusCode (lp_resp lp) \<noteq> 101"
  shows "\<exists>ops. writeAnswer up (Some lp) = (ops, if ending (rs_Body (lp_resp lp)) = EOF then RpReturned else RpAborted) \<and>
           written ops = content (rs_Body (lp_resp lp))"
  using assms by (simp add: writeAnswer_def Let_def)

text \<open>Both at once, for a trickled response.\<close>

lemma trickled_answer:
  assumes "scanRoundTrip u t req (Some resp) m fs = Some out" "rs_Body (to_resp out) = Trickled s0"
    and "rs_StatusCode resp \<noteq> 101" "\<not> eventStream resp" "answered out r lp"
  shows "tunnelDecodes env cx tk q lp = Some (content r, []) \<and>
         (\<exists>ops. writeAnswer up (Some lp) = (ops, if ending r = EOF then RpReturned else RpAborted) \<and> written ops = content r)"
proof -
  obtain job where "rs_StatusCode (to_resp out) = rs_StatusCode resp" "rs_ContentLength (to_resp out) = -1" "\<not> rs_Close (to_resp out)"
      "Header_Get (rs_Header (to_resp out)) ''Content-Type'' = Header_Get (rs_Header resp) ''Content-Type''"
    using scanRoundTrip_trickled [OF assms(1,2)] by metis
  with assms(3-5) show ?thesis
    using tunnelDecodes_chunked [of lp env cx tk q] writeAnswer_copied [of lp up]
    by (simp add: answered_def withBody_def eventStream_def)
qed

text \<open>Downloads for the witnesses: a client without an Accept field, and its response.\<close>

definition demoCliReq :: Request where
  "demoCliReq = demoReq\<lparr>rq_Header := []\<rparr>"

definition demoAnswer :: "transport_out \<Rightarrow> reader \<Rightarrow> loop_resp" where
  "demoAnswer out r = \<lparr>lp_resp = withBody r (to_resp out), lp_writable = False, lp_bytesSent = 0, lp_contentType = []\<rparr>"

lemma demo_cli:
  obtains out job s0 where
    "scanRoundTrip demoUni (demoTenv (demoEnv cn 10)) demoCliReq (Some (demoResp body)) demoMgr Map.empty = Some out"
    "rs_Body (to_resp out) = Trickled s0" "to_scan out = Some (job, s_acts s0)" "freshJob job"
    "s0 = startSession (fst (runScan (demoEnv cn 10) True (j_OriginalURL job) body None)) job"
proof -
  let ?t = "demoTenv (demoEnv cn 10)"
  define out where "out = handleCLI ?t demoCliReq (demoResp body) demoMgr Map.empty"
  have "LookupURL sha codec rget now demoMgr url = (demoMgr, None)" for sha codec rget now url
    by (simp add: LookupURL_def demoMgr_def NewManager_def)
  moreover have "\<not> isBrowserRequest demoCliReq"
    by (simp add: isBrowserRequest_def demoCliReq_def Header_Get_def)
  ultimately have run: "scanRoundTrip demoUni ?t demoCliReq (Some (demoResp body)) demoMgr Map.empty = Some out"
    using scanRoundTrip_must [OF demo_mustScan(1), of ?t demoCliReq demoMgr None body] by (simp add: out_def)
  have "to_fs out (tempPathOf (m_dir demoMgr) ''1'') \<noteq> None"
    by (simp add: out_def handleCLI_def StartCLIJob_def newJob_def startScan_def demoTenv_def Let_def split: prod.splits)
  then have body: "case rs_Body (to_resp out) of
       Trickled s \<Rightarrow> \<exists>job. freshJob job \<and> to_scan out = Some (job, s_acts s) \<and>
         s = startSession (fst (runScan (demoEnv cn 10) True (j_OriginalURL job) body None)) job
     | _ \<Rightarrow> False"
    using handleCLI_out [where t = ?t and req = demoCliReq and resp = "demoResp body" and m = demoMgr and fs = Map.empty]
    by (auto simp: out_def demoTenv_def demoResp_def demoMgr_def NewManager_def split: wbody.splits)
  then obtain s0 where "rs_Body (to_resp out) = Trickled s0"
    by (cases "rs_Body (to_resp out)") auto
  then show thesis
    using body run that by auto
qed

lemma demo_infected_run:
  assumes "freshJob job"
    and "s0 = startSession (fst (runScan (demoEnv (demoConn True ''stream: Eicar FOUND'') 10) True url (Final ''evil'' EOF) None)) job"
  obtains s j' f where "delivered s0 s (Final ''e'' ReadErr)" "applyActs (s_acts s0) (job, []) = (j', f)" "j_status j' = StatusInfected"
proof -
  obtain s where s: "exec ([Produce, Produce, Produce, ReadCall 10, Tick, Pass] @ replicate 4 Produce @ [ReadCall 10, Verdict]) s0 = Some s"
      "s_errs s = [RetVirus]" "s_out s = ''e''"
    using assms by (simp add: demo_step_simps freshJob_def)
  then have "delivered s0 s (Final ''e'' ReadErr)"
    using exec_trickles [OF s(1) trickles.start] by (intro copied [of _ s RetVirus]) simp_all
  moreover obtain j' f where "applyActs (s_acts s0) (job, []) = (j', f)" "j_status j' = StatusInfected"
    using assms(2) by (simp add: demoActs_infected startSession_def setResult_def)
  ultimately show thesis
    using that by blast
qed

lemma demoActs_clean:
  "fst (runScan (demoEnv (demoConn True ''stream: OK'') 10) True url (Final ''data'' EOF) None) =
     [OpenTrunc, SetStatus StatusScanning [], Append ''data'', SetStatus StatusClean [], Send cleanResult, CloseUpload, CloseBody]"
  by (simp add: demo_simps)

lemma demo_clean_run:
  assumes "freshJob job"
    and "s0 = startSession (fst (runScan (demoEnv (demoConn True ''stream: OK'') 10) True url (Final ''data'' EOF) None)) job"
  obtains s j' f where "delivered s0 s (Final ''data'' EOF)" "applyActs (s_acts s0) (job, []) = (j', f)" "j_status j' = StatusClean"
proof -
  obtain s where s: "exec (replicate 7 Produce @ [ReadCall 10, Verdict, Pass, ReadCall 10, Pass, OnUploadDone]) s0 = Some s"
      "s_errs s = [RetEOF]" "s_out s = ''data''"
    using assms by (simp add: demo_step_simps demoActs_clean freshJob_def)
  then have "delivered s0 s (Final ''data'' EOF)"
    using exec_trickles [OF s(1) trickles.start] by (intro copied [of _ s RetEOF]) simp_all
  moreover obtain j' f where "applyActs (s_acts s0) (job, []) = (j', f)" "j_status j' = StatusClean"
    using assms(2) by (simp add: demoActs_clean startSession_def setResult_def)
  ultimately show thesis
    using that by blast
qed

lemma demo_plain_zip: "rs_StatusCode (demoResp body) \<noteq> 101" "\<not> eventStream (demoResp body)"
  by (simp_all add: demoResp_def eventStream_def Header_Get_def HasPrefix_def)

section \<open>Properties\<close>

text \<open>
  Property C5. A download that ends clean, or that turns out too large to scan, reaches the client whole: when
  the copy of the trickled body has ended with EOF, the reverse proxy has written exactly the upstream
  body and returned normally, and a tunnel client decodes exactly the upstream body. The size limit does
  not change meanwhile and the disk has room for the body.
\<close>

theorem cli_download_complete:
  assumes "e_scan (t_scan t) = ScanReader cn" "e_max1 (t_scan t) = M" "e_max2 (t_scan t) = M" "0 \<le> M" "M < 2 ^ 63 - 1"
    and "room (t_scan t) (content (rs_Body resp)) = content (rs_Body resp)"
    and "scanRoundTrip u t req (Some resp) m fs = Some out" "rs_Body (to_resp out) = Trickled s0" "to_scan out = Some (job, as)"
    and "applyActs as (job, []) = (j', file)" "j_status j' = StatusClean \<or> j_status j' = StatusTooLarge"
    and "delivered s0 s r" "ending r = EOF" "answered out r lp" "rs_StatusCode resp \<noteq> 101" "\<not> eventStream resp"
  shows "tunnelDecodes env cx tk q lp = Some (content (rs_Body resp), []) \<and>
         (\<exists>ops. writeAnswer up (Some lp) = (ops, RpReturned) \<and> written ops = content (rs_Body resp))"
proof -
  obtain oc where fresh: "freshJob job" "as = s_acts s0"
      and s0: "s0 = startSession (fst (runScan (t_scan t) True (j_OriginalURL job) (rs_Body resp) oc)) job"
    using scanRoundTrip_trickled [OF assms(7,8)] assms(9) by (metis option.inject prod.inject)
  then have run: "scanned (t_scan t) True (j_OriginalURL job) (rs_Body resp) oc job = (j', file)"
    using assms(10) by (simp add: scanned_def startSession_def)
  have tr: "trickles s0 s" and out: "content r = s_out s" and eof: "RetEOF \<in> set (s_errs s)"
    using assms(12,13) by auto
  have "s_out s = content (rs_Body resp)"
    using session_eof_complete [OF assms(1) fresh(1) assms(2-6) tr [unfolded s0] run eof] assms(11) by auto
  then show ?thesis
    using trickled_answer [OF assms(7,8,15,16,14), of env cx tk q up] assms(13) out by simp
qed

theorem cli_download_complete_witness:
  "\<exists>lp ops. tunnelDecodes demoLoopEnv demoLoopConn demoTick demoCliReq lp = Some (''data'', []) \<and>
     writeAnswer [] (Some lp) = (ops, RpReturned) \<and> written ops = ''data''"
proof -
  obtain out job s0 where cli:
      "scanRoundTrip demoUni (demoTenv (demoEnv (demoConn True ''stream: OK'') 10)) demoCliReq (Some (demoResp (Final ''data'' EOF))) demoMgr Map.empty = Some out"
      "rs_Body (to_resp out) = Trickled s0" "to_scan out = Some (job, s_acts s0)" "freshJob job"
      "s0 = startSession (fst (runScan (demoEnv (demoConn True ''stream: OK'') 10) True (j_OriginalURL job) (Final ''data'' EOF) None)) job"
    by (rule demo_cli)
  obtain s j' f where run: "delivered s0 s (Final ''data'' EOF)" "applyActs (s_acts s0) (job, []) = (j', f)" "j_status j' = StatusClean"
    by (rule demo_clean_run [OF cli(4,5)])
  have "answered out (Final ''data'' EOF) (demoAnswer out (Final ''data'' EOF))"
    by (simp add: answered_def demoAnswer_def)
  from cli_download_complete [OF _ _ _ _ _ _ cli(1,2,3) run(2) disjI1 [OF run(3)] run(1) _ this demo_plain_zip,
      of "demoConn True ''stream: OK''" 10 demoLoopEnv demoLoopConn demoTick demoCliReq "[]"]
  show ?thesis
    by (auto simp: demoTenv_def demoEnv_def room_def demoResp_def)
qed



end
