(* ===== verification/Bridge.thy ===== *)
theory Bridge
  imports Prelude
begin

text \<open>
  The byte bridge that follows a protocol upgrade: \<open>loopBridge\<close>, \<open>bridgeConn\<close> and the idle
  time-out of \<^verbatim>\<open>internal/proxy/tunnel.go\<close>.

  Two goroutines copy: one from the client connection to the upstream, which closes the upstream when
  it ends, one from the upstream to the client connection, which closes that connection when it ends.
  Every transfer on the client connection moves its deadline; past the deadline, and after a close,
  reads and writes on it fail. The event sequence is the interleaving. An event carries the time,
  the bytes read and how many of them the write accepts; a short write is an error.
\<close>

section \<open>Model\<close>

definition bridgeIdleTimeout :: int where "bridgeIdleTimeout = 5 * 60 * 10 ^ 9"

text \<open>\<open>br_up\<close> and \<open>br_down\<close> say which goroutine still runs; \<open>br_fromClient\<close> and \<open>br_fromUpstream\<close> record what they read.\<close>

record bridge =
  br_deadline :: int
  br_connClosed :: bool
  br_rwcClosed :: bool
  br_up :: bool
  br_down :: bool
  br_fromClient :: bytes
  br_toUpstream :: bytes
  br_fromUpstream :: bytes
  br_toClient :: bytes

datatype bridge_event =
    ClientData int bytes nat
  | ClientEnd
  | UpstreamData int bytes nat
  | UpstreamEnd
  | ClientReadFails int
  | UpstreamReadFails

fun event_time :: "bridge_event \<Rightarrow> int option" where
  "event_time (ClientData now _ _) = Some now"
| "event_time (UpstreamData now _ _) = Some now"
| "event_time (ClientReadFails now) = Some now"
| "event_time _ = None"

definition startBridge :: "int \<Rightarrow> bridge" where
  "startBridge now = \<lparr>br_deadline = now + bridgeIdleTimeout, br_connClosed = False, br_rwcClosed = False, br_up = True, br_down = True,
     br_fromClient = [], br_toUpstream = [], br_fromUpstream = [], br_toClient = []\<rparr>"

text \<open>The ends of the two copies.\<close>

definition endUp :: "bridge \<Rightarrow> bridge" where
  "endUp s = s\<lparr>br_up := False, br_rwcClosed := True\<rparr>"

definition endDown :: "bridge \<Rightarrow> bridge" where
  "endDown s = s\<lparr>br_down := False, br_connClosed := True\<rparr>"

definition connUsable :: "int \<Rightarrow> bridge \<Rightarrow> bool" where
  "connUsable now s \<longleftrightarrow> \<not> br_connClosed s \<and> now < br_deadline s"

fun bridgeStep :: "bridge_event \<Rightarrow> bridge \<Rightarrow> bridge" where
  "bridgeStep (ClientData now p k) s =
     (if br_up s \<and> connUsable now s \<and> p \<noteq> [] then
        (let s = s\<lparr>br_deadline := now + bridgeIdleTimeout, br_fromClient := br_fromClient s @ p\<rparr> in
         if br_rwcClosed s then endUp s
         else (let s = s\<lparr>br_toUpstream := br_toUpstream s @ take k p\<rparr> in if k < length p then endUp s else s))
      else s)"
| "bridgeStep ClientEnd s = (if br_up s then endUp s else s)"
| "bridgeStep (UpstreamData now p k) s =
     (if br_down s \<and> \<not> br_rwcClosed s \<and> p \<noteq> [] then
        (let s = s\<lparr>br_fromUpstream := br_fromUpstream s @ p\<rparr> in
         if \<not> connUsable now s then endDown s
         else
           (let s = s\<lparr>br_toClient := br_toClient s @ take k p,
                      br_deadline := (if k > 0 then now + bridgeIdleTimeout else br_deadline s)\<rparr>
            in if k < length p then endDown s else s))
      else s)"
| "bridgeStep UpstreamEnd s = (if br_down s then endDown s else s)"
| "bridgeStep (ClientReadFails now) s = (if br_up s \<and> \<not> connUsable now s then endUp s else s)"
| "bridgeStep UpstreamReadFails s = (if br_down s \<and> br_rwcClosed s then endDown s else s)"

section \<open>Invariant\<close>

text \<open>
  What was written is a prefix of what was read, all of it while the copy runs; a copy that has ended
  has closed the other side.
\<close>

definition relayed :: "bool \<Rightarrow> bytes \<Rightarrow> bytes \<Rightarrow> bool" where
  "relayed running rd wr \<longleftrightarrow> (if running then wr = rd else \<exists>rest. rd = wr @ rest)"

definition bridge_inv :: "bridge \<Rightarrow> bool" where
  "bridge_inv s \<longleftrightarrow> relayed (br_up s) (br_fromClient s) (br_toUpstream s) \<and>
     relayed (br_down s) (br_fromUpstream s) (br_toClient s) \<and>
     (br_rwcClosed s = (\<not> br_up s)) \<and> (br_connClosed s = (\<not> br_down s))"

lemma relayed_stop: "relayed b rd wr \<Longrightarrow> relayed False rd wr"
  by (auto simp: relayed_def split: if_splits)

lemma relayed_read: "relayed True rd wr \<Longrightarrow> relayed False (rd @ p) wr"
  by (simp add: relayed_def)

lemma relayed_write: "relayed True rd wr \<Longrightarrow> relayed (\<not> k < length p) (rd @ p) (wr @ take k p)"
  by (auto simp: relayed_def intro: append_take_drop_id [symmetric])

lemma bridge_inv_start: "bridge_inv (startBridge now)"
  by (simp add: bridge_inv_def relayed_def startBridge_def)

lemma bridge_inv_endUp: "bridge_inv s \<Longrightarrow> bridge_inv (endUp s)"
  by (auto simp: bridge_inv_def endUp_def intro: relayed_stop)

lemma bridge_inv_endDown: "bridge_inv s \<Longrightarrow> bridge_inv (endDown s)"
  by (auto simp: bridge_inv_def endDown_def intro: relayed_stop)

lemma bridge_inv_step: "bridge_inv s \<Longrightarrow> bridge_inv (bridgeStep ev s)"
proof (cases ev)
  case (ClientData now p k)
  assume "bridge_inv s"
  then show ?thesis
    using relayed_write [of "br_fromClient s" "br_toUpstream s" k p]
    by (auto simp: ClientData bridge_inv_def endUp_def Let_def)
next
  case (UpstreamData now p k)
  assume "bridge_inv s"
  then show ?thesis
    using relayed_write [of "br_fromUpstream s" "br_toClient s" k p] relayed_read [of "br_fromUpstream s" "br_toClient s" p]
    by (auto simp: UpstreamData bridge_inv_def endDown_def Let_def)
qed (auto intro: bridge_inv_endUp bridge_inv_endDown)

lemma bridge_inv_run: "bridge_inv (fold bridgeStep evs (startBridge now))"
proof -
  have "bridge_inv s \<Longrightarrow> bridge_inv (fold bridgeStep evs s)" for s
    by (induction evs arbitrary: s) (auto intro: bridge_inv_step)
  then show ?thesis using bridge_inv_start by blast
qed

text \<open>Past the deadline no byte gets through and the deadline stays.\<close>

definition quiet :: "bridge \<Rightarrow> bridge \<Rightarrow> bool" where
  "quiet s s' \<longleftrightarrow> br_deadline s' = br_deadline s \<and> br_toUpstream s' = br_toUpstream s \<and> br_toClient s' = br_toClient s"

lemma quiet_step:
  assumes "\<forall>t. event_time ev = Some t \<longrightarrow> br_deadline s \<le> t"
  shows "quiet s (bridgeStep ev s)"
  using assms by (cases ev) (auto simp: quiet_def connUsable_def endUp_def endDown_def Let_def)

lemma quiet_run:
  assumes "list_all (\<lambda>ev. \<forall>t. event_time ev = Some t \<longrightarrow> br_deadline s \<le> t) evs"
  shows "quiet s (fold bridgeStep evs s)"
  using assms
proof (induction evs arbitrary: s)
  case (Cons ev evs)
  then have q: "quiet s (bridgeStep ev s)" by (intro quiet_step) simp
  then have "br_deadline (bridgeStep ev s) = br_deadline s" by (simp add: quiet_def)
  with Cons have "quiet (bridgeStep ev s) (fold bridgeStep evs (bridgeStep ev s))" by simp
  with q show ?case by (simp add: quiet_def)
qed (simp add: quiet_def)

section \<open>Properties\<close>

text \<open>
  Whatever the interleaving, each direction of the bridge delivers a prefix of what the
  other party sent, without loss while the copy runs, and a direction that has ended has closed the
  connection of the other.
\<close>

lemma bridge_relays:
  "let s = fold bridgeStep evs (startBridge now) in
   (\<exists>rest. br_fromClient s = br_toUpstream s @ rest \<and> (if br_up s then rest = [] else True)) \<and>
   (\<exists>rest. br_fromUpstream s = br_toClient s @ rest \<and> (if br_down s then rest = [] else True)) \<and>
   (br_rwcClosed s = (\<not> br_up s)) \<and> (br_connClosed s = (\<not> br_down s))"
  using bridge_inv_run [of evs now] by (auto simp: bridge_inv_def relayed_def Let_def split: if_splits)



end
