(* ===== verification/Api_Store.thy ===== *)
theory Api_Store
  imports Scan_Config
begin

text \<open>
  The store behind the management API: \<^verbatim>\<open>internal/api/store.go\<close>,
  \<^verbatim>\<open>internal/api/blocklist.go\<close>, \<^verbatim>\<open>internal/api/scanconfig.go\<close> and
  \<^verbatim>\<open>internal/api/pagination.go\<close>.

  The PostgreSQL tables are lists of rows and each SQL statement is the change it makes to them;
  Redis is the set of blocked domains, the scan configuration value and the sequence of published
  messages. What PostgreSQL decides is a parameter: \<open>ILIKE\<close>, the order of
  \<open>ORDER BY\<close>, sequence numbers and the time. Each call also draws from its environment
  whether the transaction begins, its statements and its commit succeed, and whether Redis answers;
  a failed commit and a failed pipeline have no effect.
\<close>

section \<open>Pagination\<close>

record ListQuery =
  lq_Q :: string
  lq_Sort :: string
  lq_Order :: string
  lq_Page :: int
  lq_Limit :: int

definition lq_order :: "ListQuery \<Rightarrow> string" where
  "lq_order lq = (if lq_Order lq = ''asc'' then ''ASC'' else ''DESC'')"

definition clampedLimit :: "ListQuery \<Rightarrow> int" where
  "clampedLimit lq = (if lq_Limit lq \<le> 0 \<or> lq_Limit lq > 1000 then 100 else lq_Limit lq)"

definition lq_offset :: "ListQuery \<Rightarrow> int" where
  "lq_offset lq = wrap64 ((max (lq_Page lq) 1 - 1) * clampedLimit lq)"

definition lq_page :: "ListQuery \<Rightarrow> int" where
  "lq_page lq = (if lq_Page lq < 1 then 1 else lq_Page lq)"

record 'a PagedResult =
  pr_Total :: int
  pr_Page :: int
  pr_Limit :: int
  pr_Items :: "'a list"

section \<open>Tables\<close>

record Entry =
  en_ID :: int
  en_Domain :: string
  en_Enabled :: bool
  en_Comment :: string
  en_CreatedBy :: string
  en_CreatedAt :: int
  en_UpdatedBy :: string
  en_UpdatedAt :: int

record AuditEntry =
  au_ID :: int
  au_Domain :: string
  au_Action :: string
  au_Actor :: string
  au_Comment :: string
  au_OccurredAt :: int

record UpdateRequest =
  ur_Enabled :: "bool option"
  ur_Comment :: "string option"
  ur_Actor :: string

record MimeTypeEntry =
  mi_ID :: int
  mi_Pattern :: string
  mi_IsPrefix :: bool
  mi_Enabled :: bool
  mi_Note :: string
  mi_UpdatedBy :: string
  mi_UpdatedAt :: int

record ScanSettingEntry =
  ss_Key :: string
  ss_Value :: string
  ss_UpdatedBy :: string
  ss_UpdatedAt :: int

record database =
  db_entries :: "Entry list"
  db_audit :: "AuditEntry list"
  db_settings :: "ScanSettingEntry list"
  db_mimes :: "MimeTypeEntry list"

record redis =
  rd_domains :: "string set"
  rd_config :: "bytes option"
  rd_published :: "(string \<times> string) list"

record apiStore =
  st_db :: database
  st_rd :: redis

datatype store_error = ErrDuplicate | ErrNotFound | ErrInternal

text \<open>What one call draws from PostgreSQL, Redis and the clock.\<close>

record op_env =
  op_begin :: bool
  op_stmt :: bool
  op_audit :: bool
  op_commit :: bool
  op_redis :: bool
  op_id :: int
  op_auditID :: int
  op_now :: int

record pg =
  pg_ilike :: "string \<Rightarrow> string \<Rightarrow> bool"
  pg_orderEntries :: "string \<Rightarrow> string \<Rightarrow> Entry list \<Rightarrow> Entry list"
  pg_orderAudit :: "AuditEntry list \<Rightarrow> AuditEntry list"
  pg_orderMimes :: "string \<Rightarrow> string \<Rightarrow> MimeTypeEntry list \<Rightarrow> MimeTypeEntry list"
  pg_orderSettings :: "ScanSettingEntry list \<Rightarrow> ScanSettingEntry list"

definition redisPubSubCh :: string where "redisPubSubCh = ''blocklist:changed''"
definition scanConfigPubSubCh :: string where "scanConfigPubSubCh = ''scan:config:changed''"

definition publishMsg :: "string \<Rightarrow> string \<Rightarrow> redis \<Rightarrow> redis" where
  "publishMsg ch msg rd = rd\<lparr>rd_published := rd_published rd @ [(ch, msg)]\<rparr>"

text \<open>LIMIT and OFFSET; a negative OFFSET is an error of the statement.\<close>

definition pageRows :: "ListQuery \<Rightarrow> 'a list \<Rightarrow> 'a list option" where
  "pageRows lq rows =
     (if lq_offset lq < 0 then None else Some (take (nat (clampedLimit lq)) (drop (nat (lq_offset lq)) rows)))"

text \<open>The total is read from the rows of the page, so it stays 0 when the page is empty.\<close>

definition pagedResult :: "ListQuery \<Rightarrow> 'a list \<Rightarrow> store_error + 'a PagedResult" where
  "pagedResult lq rows =
     (case pageRows lq rows of
        None \<Rightarrow> Inl ErrInternal
      | Some items \<Rightarrow>
          Inr \<lparr>pr_Total = (if items = [] then 0 else int (length rows)), pr_Page = lq_page lq,
               pr_Limit = clampedLimit lq, pr_Items = items\<rparr>)"

section \<open>Blocklist\<close>

definition enabledDomains :: "database \<Rightarrow> string list" where
  "enabledDomains db = map en_Domain (filter en_Enabled (db_entries db))"

definition syncToRedis :: "op_env \<Rightarrow> apiStore \<Rightarrow> apiStore" where
  "syncToRedis env s =
     (if \<not> op_stmt env \<or> \<not> op_redis env then s
      else s\<lparr>st_rd := publishMsg redisPubSubCh ''sync'' ((st_rd s)\<lparr>rd_domains := set (enabledDomains (st_db s))\<rparr>)\<rparr>)"

definition ListEntries :: "pg \<Rightarrow> op_env \<Rightarrow> bool \<Rightarrow> ListQuery \<Rightarrow> apiStore \<Rightarrow> store_error + Entry PagedResult" where
  "ListEntries p env enabledOnly lq s =
     (let sortCol = (if lq_Sort lq \<in> {''domain'', ''created_at'', ''updated_at''} then lq_Sort lq else ''created_at'');
          pat = ''%'' @ lq_Q lq @ ''%'';
          keep = (\<lambda>e. (enabledOnly \<longrightarrow> en_Enabled e) \<and>
                      (lq_Q lq \<noteq> [] \<longrightarrow> pg_ilike p (en_Domain e) pat \<or> pg_ilike p (en_Comment e) pat))
      in if \<not> op_stmt env then Inl ErrInternal
         else pagedResult lq (pg_orderEntries p sortCol (lq_order lq) (filter keep (db_entries (st_db s)))))"

definition auditRow :: "op_env \<Rightarrow> string \<Rightarrow> string \<Rightarrow> string \<Rightarrow> string \<Rightarrow> AuditEntry" where
  "auditRow env domain action actor comment =
     \<lparr>au_ID = op_auditID env, au_Domain = domain, au_Action = action, au_Actor = actor, au_Comment = comment,
      au_OccurredAt = op_now env\<rparr>"

definition logAudit :: "AuditEntry \<Rightarrow> database \<Rightarrow> database" where
  "logAudit a db = db\<lparr>db_audit := db_audit db @ [a]\<rparr>"

definition AddEntry :: "op_env \<Rightarrow> string \<Rightarrow> string \<Rightarrow> string \<Rightarrow> apiStore \<Rightarrow> (store_error + Entry) \<times> apiStore" where
  "AddEntry env domain comment actor s =
     (let db = st_db s;
          e = \<lparr>en_ID = op_id env, en_Domain = domain, en_Enabled = True, en_Comment = comment,
               en_CreatedBy = actor, en_CreatedAt = op_now env, en_UpdatedBy = actor, en_UpdatedAt = op_now env\<rparr>
      in if \<not> op_begin env \<or> \<not> op_stmt env then (Inl ErrInternal, s)
         else if domain \<in> en_Domain ` set (db_entries db) then (Inl ErrDuplicate, s)
         else if \<not> op_audit env then (Inl ErrInternal, s)
         else if \<not> op_commit env then (Inl ErrInternal, s)
         else
           (let db' = logAudit (auditRow env domain ''add'' actor comment) (db\<lparr>db_entries := db_entries db @ [e]\<rparr>);
                rd = st_rd s;
                rd' = (if op_redis env
                       then publishMsg redisPubSubCh (''add:'' @ domain) (rd\<lparr>rd_domains := insert domain (rd_domains rd)\<rparr>)
                       else rd)
            in (Inr e, \<lparr>st_db = db', st_rd = rd'\<rparr>)))"

definition updateRow :: "op_env \<Rightarrow> UpdateRequest \<Rightarrow> Entry \<Rightarrow> Entry" where
  "updateRow env req e =
     e\<lparr>en_Enabled := (case ur_Enabled req of Some b \<Rightarrow> b | None \<Rightarrow> en_Enabled e),
       en_Comment := (case ur_Comment req of Some c \<Rightarrow> c | None \<Rightarrow> en_Comment e),
       en_UpdatedBy := ur_Actor req, en_UpdatedAt := op_now env\<rparr>"

definition UpdateEntry :: "op_env \<Rightarrow> string \<Rightarrow> UpdateRequest \<Rightarrow> apiStore \<Rightarrow> (store_error + Entry) \<times> apiStore" where
  "UpdateEntry env domain req s =
     (let db = st_db s;
          action = (case ur_Enabled req of None \<Rightarrow> ''update'' | Some True \<Rightarrow> ''enable'' | Some False \<Rightarrow> ''disable'');
          comment = (case ur_Comment req of Some c \<Rightarrow> c | None \<Rightarrow> [])
      in if \<not> op_begin env \<or> \<not> op_stmt env then (Inl ErrInternal, s)
         else (case find (\<lambda>e. en_Domain e = domain) (db_entries db) of
                 None \<Rightarrow> (Inl ErrNotFound, s)
               | Some e0 \<Rightarrow>
                   if \<not> op_audit env then (Inl ErrInternal, s)
                   else if \<not> op_commit env then (Inl ErrInternal, s)
                   else
                     (let db' = logAudit (auditRow env domain action (ur_Actor req) comment)
                                  (db\<lparr>db_entries := map (\<lambda>e. if en_Domain e = domain then updateRow env req e else e) (db_entries db)\<rparr>);
                          rd = st_rd s;
                          rd' = (case ur_Enabled req of
                                   None \<Rightarrow> rd
                                 | Some b \<Rightarrow>
                                     if \<not> op_redis env then rd
                                     else publishMsg redisPubSubCh (action @ '':'' @ domain)
                                            (rd\<lparr>rd_domains := (if b then insert domain (rd_domains rd) else rd_domains rd - {domain})\<rparr>))
                      in (Inr (updateRow env req e0), \<lparr>st_db = db', st_rd = rd'\<rparr>))))"

definition RemoveEntry :: "op_env \<Rightarrow> string \<Rightarrow> string \<Rightarrow> string \<Rightarrow> apiStore \<Rightarrow> store_error option \<times> apiStore" where
  "RemoveEntry env domain actor comment s =
     (let db = st_db s in
      if \<not> op_begin env \<or> \<not> op_stmt env then (Some ErrInternal, s)
      else if domain \<notin> en_Domain ` set (db_entries db) then (Some ErrNotFound, s)
      else if \<not> op_audit env then (Some ErrInternal, s)
      else if \<not> op_commit env then (Some ErrInternal, s)
      else
        (let db' = logAudit (auditRow env domain ''remove'' actor comment)
                     (db\<lparr>db_entries := filter (\<lambda>e. en_Domain e \<noteq> domain) (db_entries db)\<rparr>);
             rd = st_rd s;
             rd' = (if op_redis env
                    then publishMsg redisPubSubCh (''remove:'' @ domain) (rd\<lparr>rd_domains := rd_domains rd - {domain}\<rparr>)
                    else rd)
         in (None, \<lparr>st_db = db', st_rd = rd'\<rparr>)))"

definition AuditLog :: "pg \<Rightarrow> op_env \<Rightarrow> string \<Rightarrow> ListQuery \<Rightarrow> apiStore \<Rightarrow> store_error + AuditEntry PagedResult" where
  "AuditLog p env domain lq s =
     (if \<not> op_stmt env then Inl ErrInternal
      else pagedResult lq (pg_orderAudit p (filter (\<lambda>a. au_Domain a = domain) (db_audit (st_db s)))))"

section \<open>Scan settings\<close>

definition settingOf :: "database \<Rightarrow> string \<Rightarrow> string" where
  "settingOf db k = (case map_of (map (\<lambda>e. (ss_Key e, ss_Value e)) (rev (db_settings db))) k of Some v \<Rightarrow> v | None \<Rightarrow> [])"

definition buildScanConfig :: "database \<Rightarrow> ScanConfig" where
  "buildScanConfig db =
     (let maxSizeMB = ParseInt (settingOf db ''max_size_mb'')
      in \<lparr>cfg_Enabled = (settingOf db ''enabled'' \<noteq> ''false''),
          MaxSizeMB = (if maxSizeMB \<le> 0 then 500 else maxSizeMB),
          Rules = map (\<lambda>m. \<lparr>Pattern = mi_Pattern m, IsPrefix = mi_IsPrefix m, rule_Enabled = mi_Enabled m\<rparr>) (sort_key mi_ID (db_mimes db))\<rparr>)"

definition syncScanConfigToRedis :: "(ScanConfig \<Rightarrow> bytes) \<Rightarrow> op_env \<Rightarrow> apiStore \<Rightarrow> store_error option \<times> apiStore" where
  "syncScanConfigToRedis marshalConfig env s =
     (if \<not> op_audit env \<or> \<not> op_redis env then (Some ErrInternal, s)
      else (None, s\<lparr>st_rd := publishMsg scanConfigPubSubCh ''sync''
                     ((st_rd s)\<lparr>rd_config := Some (marshalConfig (buildScanConfig (st_db s)))\<rparr>)\<rparr>))"

definition GetScanSettings :: "pg \<Rightarrow> op_env \<Rightarrow> apiStore \<Rightarrow> store_error + ScanSettingEntry list" where
  "GetScanSettings p env s = (if \<not> op_stmt env then Inl ErrInternal else Inr (pg_orderSettings p (db_settings (st_db s))))"

text \<open>
  These two updates run outside a transaction: the row is changed even when the synchronisation that
  follows fails (\<open>op_audit\<close> is here the success of its queries).
\<close>

definition UpdateScanSetting :: "(ScanConfig \<Rightarrow> bytes) \<Rightarrow> op_env \<Rightarrow> string \<Rightarrow> string \<Rightarrow> string \<Rightarrow> apiStore \<Rightarrow>
    store_error option \<times> apiStore" where
  "UpdateScanSetting marshalConfig env key val actor s =
     (let db = st_db s in
      if \<not> op_stmt env then (Some ErrInternal, s)
      else if key \<notin> ss_Key ` set (db_settings db) then (Some ErrNotFound, s)
      else syncScanConfigToRedis marshalConfig env
             (s\<lparr>st_db := db\<lparr>db_settings := map (\<lambda>e. if ss_Key e = key
                then e\<lparr>ss_Value := val, ss_UpdatedBy := actor, ss_UpdatedAt := op_now env\<rparr> else e) (db_settings db)\<rparr>\<rparr>))"

definition ListMimeTypes :: "pg \<Rightarrow> op_env \<Rightarrow> bool \<Rightarrow> ListQuery \<Rightarrow> apiStore \<Rightarrow> store_error + MimeTypeEntry list" where
  "ListMimeTypes p env enabledOnly lq s =
     (let sortCol = (if lq_Sort lq \<in> {''id'', ''pattern'', ''updated_at''} then lq_Sort lq else ''id'');
          pat = ''%'' @ lq_Q lq @ ''%'';
          keep = (\<lambda>m. (enabledOnly \<longrightarrow> mi_Enabled m) \<and> (lq_Q lq \<noteq> [] \<longrightarrow> pg_ilike p (mi_Pattern m) pat))
      in if \<not> op_stmt env then Inl ErrInternal
         else Inr (pg_orderMimes p sortCol (lq_order lq) (filter keep (db_mimes (st_db s)))))"

text \<open>\<open>nullableString\<close>.\<close>

definition nullableString :: "string \<Rightarrow> string option" where
  "nullableString s = (if s = [] then None else Some s)"

definition updateMime :: "op_env \<Rightarrow> bool option \<Rightarrow> string \<Rightarrow> string \<Rightarrow> MimeTypeEntry \<Rightarrow> MimeTypeEntry" where
  "updateMime env enabled note actor m =
     m\<lparr>mi_Enabled := (case enabled of Some b \<Rightarrow> b | None \<Rightarrow> mi_Enabled m),
       mi_Note := (case nullableString note of Some n \<Rightarrow> n | None \<Rightarrow> mi_Note m),
       mi_UpdatedBy := actor, mi_UpdatedAt := op_now env\<rparr>"

definition UpdateMimeType :: "(ScanConfig \<Rightarrow> bytes) \<Rightarrow> op_env \<Rightarrow> string \<Rightarrow> bool option \<Rightarrow> string \<Rightarrow> string \<Rightarrow> apiStore \<Rightarrow>
    (store_error + MimeTypeEntry) \<times> apiStore" where
  "UpdateMimeType marshalConfig env pat enabled note actor s =
     (let db = st_db s in
      if \<not> op_stmt env then (Inl ErrInternal, s)
      else (case find (\<lambda>m. mi_Pattern m = pat) (db_mimes db) of
              None \<Rightarrow> (Inl ErrNotFound, s)
            | Some m0 \<Rightarrow>
                (let s' = s\<lparr>st_db := db\<lparr>db_mimes := map (\<lambda>m. if mi_Pattern m = pat then updateMime env enabled note actor m else m) (db_mimes db)\<rparr>\<rparr>;
                     (err, s'') = syncScanConfigToRedis marshalConfig env s'
                 in (case err of None \<Rightarrow> Inr (updateMime env enabled note actor m0) | Some e \<Rightarrow> Inl e, s''))))"

section \<open>Migration and start-up\<close>

definition seedSettings :: "(string \<times> string) list" where
  "seedSettings = [(''enabled'', ''true''), (''max_size_mb'', ''500'')]"

definition seedMimes :: "(string \<times> bool) list" where
  "seedMimes =
     [(''application/zip'', False),
      (''application/x-zip-compressed'', False),
      (''application/vnd.rar'', False),
      (''application/x-7z-compressed'', False),
      (''application/x-tar'', False),
      (''application/gzip'', False),
      (''application/x-bzip2'', False),
      (''application/x-xz'', False),
      (''application/x-lzma'', False),
      (''application/x-lzip'', False),
      (''application/x-zstd'', False),
      (''application/x-cab'', False),
      (''application/vnd.ms-cab-compressed'', False),
      (''application/x-iso9660-image'', False),
      (''application/x-apple-diskimage'', False),
      (''application/octet-stream'', False),
      (''binary/octet-stream'', False),
      (''application/x-msdownload'', False),
      (''application/x-dosexec'', False),
      (''application/x-executable'', False),
      (''application/x-msi'', False),
      (''application/x-ms-installer'', False),
      (''application/vnd.microsoft.portable-executable'', False),
      (''application/pdf'', False),
      (''application/rtf'', False),
      (''text/rtf'', False),
      (''application/msword'', False),
      (''application/vnd.ms-excel'', False),
      (''application/vnd.ms-powerpoint'', False),
      (''application/vnd.ms-office'', False),
      (''application/vnd.openxmlformats-officedocument.wordprocessingml.document'', False),
      (''application/vnd.openxmlformats-officedocument.spreadsheetml.sheet'', False),
      (''application/vnd.openxmlformats-officedocument.presentationml.presentation'', False),
      (''application/java-archive'', False),
      (''application/x-java-archive'', False),
      (''application/vnd.android.package-archive'', False),
      (''message/rfc822'', False),
      (''application/vnd.ms-outlook'', False),
      (''application/x-*'', True)]"

text \<open>The inserts of the migration: every row that does not conflict with an existing one, in order.\<close>

definition insertSetting :: "int \<Rightarrow> string \<times> string \<Rightarrow> database \<Rightarrow> database" where
  "insertSetting now kv db =
     (if fst kv \<in> ss_Key ` set (db_settings db) then db
      else db\<lparr>db_settings := db_settings db @ [\<lparr>ss_Key = fst kv, ss_Value = snd kv, ss_UpdatedBy = [], ss_UpdatedAt = now\<rparr>]\<rparr>)"

definition insertMime :: "int \<Rightarrow> int \<times> string \<times> bool \<Rightarrow> database \<Rightarrow> database" where
  "insertMime now row db =
     (case row of (i, pat, pre) \<Rightarrow>
        if pat \<in> mi_Pattern ` set (db_mimes db) then db
        else db\<lparr>db_mimes := db_mimes db @ [\<lparr>mi_ID = i, mi_Pattern = pat, mi_IsPrefix = pre, mi_Enabled = True, mi_Note = [],
               mi_UpdatedBy = [], mi_UpdatedAt = now\<rparr>]\<rparr>)"

text \<open>\<open>seq\<close> is the value of the table's sequence before the migration.\<close>

definition migration :: "int \<Rightarrow> int \<Rightarrow> database \<Rightarrow> database" where
  "migration seq now db =
     fold (insertMime now) (zip (map (\<lambda>i. seq + int i) [1..<Suc (length seedMimes)]) seedMimes)
       (fold (insertSetting now) seedSettings db)"

definition emptyDB :: database where
  "emptyDB = \<lparr>db_entries = [], db_audit = [], db_settings = [], db_mimes = []\<rparr>"

text \<open>\<open>NewStore\<close>; the two synchronisations may fail without failing it.\<close>

definition NewStore :: "(ScanConfig \<Rightarrow> bytes) \<Rightarrow> bool \<Rightarrow> op_env \<Rightarrow> op_env \<Rightarrow> int \<Rightarrow> apiStore \<Rightarrow> apiStore option" where
  "NewStore marshalConfig pgOK env1 env2 seq s =
     (if \<not> pgOK then None
      else
        (let s = s\<lparr>st_db := migration seq (op_now env1) (st_db s)\<rparr>;
             s = syncToRedis env1 s;
             (_, s) = syncScanConfigToRedis marshalConfig env2 s
         in Some s))"

section \<open>The Redis set mirrors the enabled entries\<close>

definition db_wf :: "database \<Rightarrow> bool" where
  "db_wf db \<longleftrightarrow> distinct (map en_Domain (db_entries db))"

definition mirrors :: "apiStore \<Rightarrow> bool" where
  "mirrors s \<longleftrightarrow> rd_domains (st_rd s) = set (enabledDomains (st_db s))"

datatype store_op =
    SAdd op_env string string string
  | SUpdate op_env string UpdateRequest
  | SRemove op_env string string string
  | SSync op_env

fun store_apply :: "store_op \<Rightarrow> apiStore \<Rightarrow> apiStore" where
  "store_apply (SAdd env d c a) s = snd (AddEntry env d c a s)"
| "store_apply (SUpdate env d req) s = snd (UpdateEntry env d req s)"
| "store_apply (SRemove env d a c) s = snd (RemoveEntry env d a c s)"
| "store_apply (SSync env) s = syncToRedis env s"

fun store_env :: "store_op \<Rightarrow> op_env" where
  "store_env (SAdd env d c a) = env"
| "store_env (SUpdate env d req) = env"
| "store_env (SRemove env d a c) = env"
| "store_env (SSync env) = env"

lemma publishMsg_domains [simp]: "rd_domains (publishMsg ch msg rd) = rd_domains rd"
  by (simp add: publishMsg_def)

lemma logAudit_entries [simp]: "db_entries (logAudit a db) = db_entries db" "enabledDomains (logAudit a db) = enabledDomains db"
  by (simp_all add: logAudit_def enabledDomains_def)

lemma updateRow_domain [simp]: "en_Domain (updateRow env req e) = en_Domain e"
  by (simp add: updateRow_def)

text \<open>The outcome of an operation: unchanged on an error, else the new tables and the Redis change.\<close>

definition op_ok :: "op_env \<Rightarrow> bool" where
  "op_ok env \<longleftrightarrow> op_begin env \<and> op_stmt env \<and> op_audit env \<and> op_commit env"

lemma AddEntry_cases:
  assumes "AddEntry env d c a s = (r, s')"
  obtains e where "r = Inl e" "s' = s"
  | e where "r = Inr e" "d \<notin> en_Domain ` set (db_entries (st_db s))" "en_Domain e = d" "en_Enabled e" "en_Comment e = c" "en_CreatedBy e = a"
      "db_entries (st_db s') = db_entries (st_db s) @ [e]"
      "db_audit (st_db s') = db_audit (st_db s) @ [auditRow env d ''add'' a c]"
      "rd_domains (st_rd s') = (if op_redis env then insert d (rd_domains (st_rd s)) else rd_domains (st_rd s))"
proof (cases "op_ok env \<and> d \<notin> en_Domain ` set (db_entries (st_db s))")
  case True
  let ?e = "\<lparr>en_ID = op_id env, en_Domain = d, en_Enabled = True, en_Comment = c,
               en_CreatedBy = a, en_CreatedAt = op_now env, en_UpdatedBy = a, en_UpdatedAt = op_now env\<rparr>"
  from True assms have "r = Inr ?e"
      "s' = \<lparr>st_db = logAudit (auditRow env d ''add'' a c) ((st_db s)\<lparr>db_entries := db_entries (st_db s) @ [?e]\<rparr>),
             st_rd = (if op_redis env then publishMsg redisPubSubCh (''add:'' @ d) ((st_rd s)\<lparr>rd_domains := insert d (rd_domains (st_rd s))\<rparr>)
                      else st_rd s)\<rparr>"
    by (simp_all add: AddEntry_def op_ok_def Let_def)
  with True show thesis
    by (intro that(2) [of ?e]) (simp_all add: logAudit_def)
next
  case False
  then have "\<exists>e. AddEntry env d c a s = (Inl e, s)"
    by (cases "op_begin env"; cases "op_stmt env"; cases "d \<in> en_Domain ` set (db_entries (st_db s))"; cases "op_audit env")
       (simp_all add: AddEntry_def op_ok_def)
  with assms that(1) show thesis by auto
qed

lemma UpdateEntry_cases:
  assumes "UpdateEntry env d req s = (r, s')"
  obtains e where "r = Inl e" "s' = s"
  | e0 act where "r = Inr (updateRow env req e0)" "e0 \<in> set (db_entries (st_db s))" "en_Domain e0 = d"
      "db_entries (st_db s') = map (\<lambda>e. if en_Domain e = d then updateRow env req e else e) (db_entries (st_db s))"
      "db_audit (st_db s') = db_audit (st_db s) @ [auditRow env d act (ur_Actor req) (case ur_Comment req of Some c \<Rightarrow> c | None \<Rightarrow> [])]"
      "rd_domains (st_rd s') = (case ur_Enabled req of None \<Rightarrow> rd_domains (st_rd s)
         | Some b \<Rightarrow> if op_redis env then (if b then insert d (rd_domains (st_rd s)) else rd_domains (st_rd s) - {d}) else rd_domains (st_rd s))"
proof (cases "find (\<lambda>e. en_Domain e = d) (db_entries (st_db s))")
  case None
  with assms that(1) show thesis
    by (auto simp: UpdateEntry_def Let_def split: if_splits)
next
  case (Some e0)
  then have e0: "e0 \<in> set (db_entries (st_db s))" "en_Domain e0 = d"
    by (auto simp: find_Some_iff)
  show thesis
  proof (cases "op_ok env")
    case True
    with assms Some e0 show thesis
      by (intro that(2) [of e0 "case ur_Enabled req of None \<Rightarrow> ''update'' | Some True \<Rightarrow> ''enable'' | Some False \<Rightarrow> ''disable''"];
          cases "ur_Enabled req")
         (auto simp: UpdateEntry_def Let_def logAudit_def op_ok_def)
  next
    case False
    then have "UpdateEntry env d req s = (Inl ErrInternal, s)"
      using Some by (cases "op_begin env"; cases "op_stmt env"; cases "op_audit env") (simp_all add: UpdateEntry_def op_ok_def)
    with assms that(1) show thesis by auto
  qed
qed

lemma RemoveEntry_cases:
  assumes "RemoveEntry env d a c s = (r, s')"
  obtains e where "r = Some e" "s' = s"
  | "r = None" "d \<in> en_Domain ` set (db_entries (st_db s))"
      "db_entries (st_db s') = filter (\<lambda>e. en_Domain e \<noteq> d) (db_entries (st_db s))"
      "db_audit (st_db s') = db_audit (st_db s) @ [auditRow env d ''remove'' a c]"
      "rd_domains (st_rd s') = (if op_redis env then rd_domains (st_rd s) - {d} else rd_domains (st_rd s))"
proof (cases "op_ok env \<and> d \<in> en_Domain ` set (db_entries (st_db s))")
  case True
  with assms show thesis
    by (intro that(2); cases "op_redis env") (auto simp: RemoveEntry_def op_ok_def logAudit_def Let_def)
next
  case False
  then have "\<exists>e. RemoveEntry env d a c s = (Some e, s)"
    by (cases "op_begin env"; cases "op_stmt env"; cases "d \<in> en_Domain ` set (db_entries (st_db s))"; cases "op_audit env")
       (simp_all add: RemoveEntry_def op_ok_def)
  with assms that(1) show thesis by auto
qed

lemma mirrors_Add:
  assumes "db_wf (st_db s)" "mirrors s" "op_redis env"
  shows "db_wf (st_db (snd (AddEntry env d c a s))) \<and> mirrors (snd (AddEntry env d c a s))"
proof -
  obtain r s' where r: "AddEntry env d c a s = (r, s')" by (cases "AddEntry env d c a s")
  from r show ?thesis
    by (cases rule: AddEntry_cases) (use assms r in \<open>auto simp: db_wf_def mirrors_def enabledDomains_def\<close>)
qed

lemma enabled_update:
  assumes "distinct (map en_Domain es)" "e0 \<in> set es" "en_Domain e0 = d"
  shows "set (map en_Domain (filter en_Enabled (map (\<lambda>e. if en_Domain e = d then updateRow env req e else e) es))) =
    (case ur_Enabled req of
       None \<Rightarrow> set (map en_Domain (filter en_Enabled es))
     | Some b \<Rightarrow> (if b then insert d (set (map en_Domain (filter en_Enabled es))) else set (map en_Domain (filter en_Enabled es)) - {d}))"
proof -
  define f where "f e = (if en_Domain e = d then updateRow env req e else e)" for e
  have f: "en_Domain (f e) = en_Domain e"
      "en_Enabled (f e) = (if en_Domain e = d then (case ur_Enabled req of Some b \<Rightarrow> b | None \<Rightarrow> en_Enabled e) else en_Enabled e)" for e
    by (simp_all add: f_def updateRow_def)
  have "set (map en_Domain (filter en_Enabled (map f es))) = en_Domain ` {e \<in> set es. en_Enabled (f e)}"
    using f(1) by (auto simp: image_iff) metis
  then have mem: "x \<in> set (map en_Domain (filter en_Enabled (map (\<lambda>e. if en_Domain e = d then updateRow env req e else e) es))) \<longleftrightarrow>
      (\<exists>e \<in> set es. en_Domain e = x \<and> (if x = d then (case ur_Enabled req of Some b \<Rightarrow> b | None \<Rightarrow> en_Enabled e) else en_Enabled e))" for x
    unfolding f_def [symmetric] f(2) by auto
  show ?thesis
  proof (rule set_eqI)
    fix x
    show "x \<in> set (map en_Domain (filter en_Enabled (map (\<lambda>e. if en_Domain e = d then updateRow env req e else e) es))) \<longleftrightarrow>
      x \<in> (case ur_Enabled req of
       None \<Rightarrow> set (map en_Domain (filter en_Enabled es))
     | Some b \<Rightarrow> (if b then insert d (set (map en_Domain (filter en_Enabled es))) else set (map en_Domain (filter en_Enabled es)) - {d}))"
      unfolding mem using assms(2,3) by (cases "ur_Enabled req") (auto simp: image_iff)
  qed
qed

lemma mirrors_Update:
  assumes "db_wf (st_db s)" "mirrors s" "op_redis env"
  shows "db_wf (st_db (snd (UpdateEntry env d req s))) \<and> mirrors (snd (UpdateEntry env d req s))"
proof -
  obtain r s' where r: "UpdateEntry env d req s = (r, s')" by (cases "UpdateEntry env d req s")
  from r show ?thesis
  proof (cases rule: UpdateEntry_cases)
    case (2 e0 act)
    have "map en_Domain (db_entries (st_db s')) = map en_Domain (db_entries (st_db s))"
      using 2(4) by simp
    moreover have "set (enabledDomains (st_db s')) = (case ur_Enabled req of
       None \<Rightarrow> set (enabledDomains (st_db s))
     | Some b \<Rightarrow> (if b then insert d (set (enabledDomains (st_db s))) else set (enabledDomains (st_db s)) - {d}))"
      unfolding enabledDomains_def 2(4)
      by (rule enabled_update [OF _ 2(2,3)]) (use assms(1) in \<open>simp add: db_wf_def\<close>)
    ultimately show ?thesis
      using assms r 2(6) by (simp add: db_wf_def mirrors_def split: option.splits)
  qed (use assms r in simp)
qed

lemma mirrors_Remove:
  assumes "db_wf (st_db s)" "mirrors s" "op_redis env"
  shows "db_wf (st_db (snd (RemoveEntry env d a c s))) \<and> mirrors (snd (RemoveEntry env d a c s))"
proof -
  obtain r s' where r: "RemoveEntry env d a c s = (r, s')" by (cases "RemoveEntry env d a c s")
  from r show ?thesis
    by (cases rule: RemoveEntry_cases)
       (use assms r in \<open>auto simp: db_wf_def mirrors_def enabledDomains_def distinct_map_filter\<close>)
qed

lemma mirrors_apply:
  assumes "db_wf (st_db s)" "mirrors s" "op_redis (store_env sop)"
  shows "db_wf (st_db (store_apply sop s)) \<and> mirrors (store_apply sop s)"
proof (cases sop)
  case (SSync env)
  with assms show ?thesis by (simp add: syncToRedis_def mirrors_def)
qed (use assms in \<open>simp_all add: mirrors_Add mirrors_Update mirrors_Remove\<close>)

lemma mirrors_history:
  assumes "db_wf (st_db s)" "mirrors s" "\<forall>sop \<in> set ops. op_redis (store_env sop)"
  shows "db_wf (st_db (fold store_apply ops s)) \<and> mirrors (fold store_apply ops s)"
  using assms
proof (induction ops arbitrary: s)
  case (Cons sop ops)
  from mirrors_apply [OF Cons.prems(1,2), of sop] Cons.prems(3)
  have "db_wf (st_db (store_apply sop s))" "mirrors (store_apply sop s)"
    by simp_all
  with Cons.IH [of "store_apply sop s"] Cons.prems(3) show ?case
    by simp
qed simp

section \<open>Pages\<close>

lemma clampedLimit_Page [simp]: "clampedLimit (lq\<lparr>lq_Page := p\<rparr>) = clampedLimit lq"
  by (simp add: clampedLimit_def)

lemma clampedLimit_range: "1 \<le> clampedLimit lq \<and> clampedLimit lq \<le> 1000"
  by (auto simp: clampedLimit_def)

lemma lq_offset_exact:
  assumes "1 \<le> lq_Page lq" "lq_Page lq \<le> 2 ^ 53"
  shows "lq_offset lq = (lq_Page lq - 1) * clampedLimit lq"
proof -
  have "(lq_Page lq - 1) * clampedLimit lq \<le> (2 ^ 53 - 1) * 1000"
    using assms clampedLimit_range [of lq] by (intro mult_mono) simp_all
  moreover have "0 \<le> (lq_Page lq - 1) * clampedLimit lq"
    using assms clampedLimit_range [of lq] by simp
  ultimately have "int64 ((lq_Page lq - 1) * clampedLimit lq)"
    by (simp add: int64_def)
  with assms(1) show ?thesis
    by (simp add: lq_offset_def)
qed

lemma pages_cover:
  fixes rows :: "'a list"
  shows "concat (map (\<lambda>p. take l (drop (p * l) rows)) [0..<k]) = take (k * l) rows"
proof (induction k)
  case (Suc k)
  have "take (k * l) rows @ take l (drop (k * l) rows) = take (k * l + l) rows"
    by (simp add: take_add)
  with Suc show ?case by (simp add: add.commute)
qed simp

section \<open>The seed rows\<close>

definition mimeRow :: "int \<Rightarrow> int \<times> string \<times> bool \<Rightarrow> MimeTypeEntry" where
  "mimeRow now row = (case row of (i, pat, pre) \<Rightarrow>
     \<lparr>mi_ID = i, mi_Pattern = pat, mi_IsPrefix = pre, mi_Enabled = True, mi_Note = [], mi_UpdatedBy = [], mi_UpdatedAt = now\<rparr>)"

lemma insertMimes_fresh:
  assumes "distinct (map fst rows)" "length ns = length rows" "fst ` set rows \<inter> mi_Pattern ` set (db_mimes db) = {}"
  shows "db_mimes (fold (insertMime now) (zip ns rows) db) = db_mimes db @ map (mimeRow now) (zip ns rows)"
  using assms
proof (induction rows arbitrary: ns db)
  case (Cons r rows)
  obtain pat pre where r: "r = (pat, pre)" by (cases r)
  obtain n ns' where ns: "ns = n # ns'" using Cons.prems(2) by (cases ns) auto
  have ins: "insertMime now (n, pat, pre) db = db\<lparr>db_mimes := db_mimes db @ [mimeRow now (n, pat, pre)]\<rparr>"
    using Cons.prems(3) r by (auto simp: insertMime_def mimeRow_def)
  have "mi_Pattern (mimeRow now (n, pat, pre)) = pat"
    by (simp add: mimeRow_def)
  then show ?case
    using Cons.IH [of ns' "db\<lparr>db_mimes := db_mimes db @ [mimeRow now (n, pat, pre)]\<rparr>"] Cons.prems r ns ins
    by (auto simp: image_iff)
qed simp

lemma insertSettings_mimes: "db_mimes (fold (insertSetting now) kvs db) = db_mimes db"
  by (induction kvs arbitrary: db) (simp_all add: insertSetting_def)

lemma insertMimes_settings: "db_settings (fold (insertMime now) rows db) = db_settings db"
  by (induction rows arbitrary: db) (simp_all add: insertMime_def split: prod.splits)

lemma migration_settings: "settingOf (migration seq now db) k = settingOf (fold (insertSetting now) seedSettings db) k"
  by (simp add: settingOf_def migration_def insertMimes_settings del: upt_Suc)

lemma seedMimes_distinct: "distinct (map fst seedMimes)"
  by (simp add: seedMimes_def)

lemma mimeRow_ID: "length ns = length rows \<Longrightarrow> map (mi_ID \<circ> mimeRow now) (zip ns rows) = ns"
  by (induction ns rows rule: list_induct2) (auto simp: mimeRow_def)

lemma sorted_map_int: "sorted (map int [a..<b])"
  by (simp add: sorted_wrt_map)

section \<open>Properties\<close>

text \<open>
  After any history of add, update, remove and resynchronise calls, with any of their
  database steps failing, the Redis set holds exactly the domains of the enabled entries and no
  domain has two entries, as long as Redis answers.
\<close>

lemma store_mirrors_enabled:
  assumes "db_wf (st_db s)" "mirrors s" "\<forall>sop \<in> set ops. op_redis (store_env sop)"
  shows "rd_domains (st_rd (fold store_apply ops s)) =
           {d. \<exists>e \<in> set (db_entries (st_db (fold store_apply ops s))). en_Enabled e \<and> en_Domain e = d} \<and>
         distinct (map en_Domain (db_entries (st_db (fold store_apply ops s))))"
  using mirrors_history [OF assms] by (auto simp: mirrors_def db_wf_def enabledDomains_def)

definition demoOpEnv :: op_env where
  "demoOpEnv = \<lparr>op_begin = True, op_stmt = True, op_audit = True, op_commit = True, op_redis = True, op_id = 1, op_auditID = 1, op_now = 0\<rparr>"

definition emptyStore :: apiStore where
  "emptyStore = \<lparr>st_db = emptyDB, st_rd = \<lparr>rd_domains = {}, rd_config = None, rd_published = []\<rparr>\<rparr>"

lemma emptyStore_ok: "db_wf (st_db emptyStore)" "mirrors emptyStore"
  by (simp_all add: db_wf_def mirrors_def enabledDomains_def emptyStore_def emptyDB_def)

text \<open>
  Property C26. The calls that change the blocklist are atomic and audited: one that fails leaves tables
  and Redis as they were, and one that succeeds adds exactly one audit row, for that domain and actor,
  at the end of the log.
\<close>

theorem store_atomic_audited:
  "(case AddEntry env d c a s of
      (Inl _, s') \<Rightarrow> s' = s
    | (Inr e, s') \<Rightarrow> db_entries (st_db s') = db_entries (st_db s) @ [e] \<and> en_Domain e = d \<and> en_Enabled e \<and>
        db_audit (st_db s') = db_audit (st_db s) @ [auditRow env d ''add'' a c]) \<and>
   (case UpdateEntry env d req s of
      (Inl _, s') \<Rightarrow> s' = s
    | (Inr e, s') \<Rightarrow> en_Domain e = d \<and> map en_Domain (db_entries (st_db s')) = map en_Domain (db_entries (st_db s)) \<and>
        (\<exists>act cm. db_audit (st_db s') = db_audit (st_db s) @ [auditRow env d act (ur_Actor req) cm])) \<and>
   (case RemoveEntry env d a c s of
      (Some _, s') \<Rightarrow> s' = s
    | (None, s') \<Rightarrow> db_entries (st_db s') = filter (\<lambda>e. en_Domain e \<noteq> d) (db_entries (st_db s)) \<and>
        db_audit (st_db s') = db_audit (st_db s) @ [auditRow env d ''remove'' a c])"
proof (intro conjI)
  obtain r s' where r: "AddEntry env d c a s = (r, s')" by (cases "AddEntry env d c a s")
  from r show "case AddEntry env d c a s of
      (Inl _, s') \<Rightarrow> s' = s
    | (Inr e, s') \<Rightarrow> db_entries (st_db s') = db_entries (st_db s) @ [e] \<and> en_Domain e = d \<and> en_Enabled e \<and>
        db_audit (st_db s') = db_audit (st_db s) @ [auditRow env d ''add'' a c]"
    by (cases rule: AddEntry_cases) (use r in auto)
next
  obtain r s' where r: "UpdateEntry env d req s = (r, s')" by (cases "UpdateEntry env d req s")
  from r show "case UpdateEntry env d req s of
      (Inl _, s') \<Rightarrow> s' = s
    | (Inr e, s') \<Rightarrow> en_Domain e = d \<and> map en_Domain (db_entries (st_db s')) = map en_Domain (db_entries (st_db s)) \<and>
        (\<exists>act cm. db_audit (st_db s') = db_audit (st_db s) @ [auditRow env d act (ur_Actor req) cm])"
    by (cases rule: UpdateEntry_cases) (use r in auto)
next
  obtain r s' where r: "RemoveEntry env d a c s = (r, s')" by (cases "RemoveEntry env d a c s")
  from r show "case RemoveEntry env d a c s of
      (Some _, s') \<Rightarrow> s' = s
    | (None, s') \<Rightarrow> db_entries (st_db s') = filter (\<lambda>e. en_Domain e \<noteq> d) (db_entries (st_db s)) \<and>
        db_audit (st_db s') = db_audit (st_db s) @ [auditRow env d ''remove'' a c]"
    by (cases rule: RemoveEntry_cases) (use r in auto)
qed

text \<open>
  Paging loses and repeats nothing: with any limit the client asks for, the items of the
  first \<open>k\<close> pages, in order, are the first rows of the ordered result.
\<close>

lemma pages_concatenate:
  assumes "int k \<le> 2 ^ 53"
  shows "concat (map (\<lambda>i. case pagedResult (lq\<lparr>lq_Page := int i\<rparr>) rows of Inr r \<Rightarrow> pr_Items r | Inl _ \<Rightarrow> []) [1..<Suc k]) =
         take (k * nat (clampedLimit lq)) rows"
proof -
  let ?l = "nat (clampedLimit lq)"
  have "(case pagedResult (lq\<lparr>lq_Page := int (Suc i)\<rparr>) rows of Inr r \<Rightarrow> pr_Items r | Inl _ \<Rightarrow> []) = take ?l (drop (i * ?l) rows)"
    if "i < k" for i
  proof -
    have off: "lq_offset (lq\<lparr>lq_Page := int (Suc i)\<rparr>) = int i * clampedLimit lq"
      using lq_offset_exact [of "lq\<lparr>lq_Page := int (Suc i)\<rparr>"] that assms by simp
    moreover have "nat (int i * clampedLimit lq) = i * ?l" "0 \<le> int i * clampedLimit lq"
      using clampedLimit_range [of lq] by (simp_all add: nat_mult_distrib)
    ultimately show ?thesis
      by (simp add: pagedResult_def pageRows_def)
  qed
  then have "map (\<lambda>i. case pagedResult (lq\<lparr>lq_Page := int i\<rparr>) rows of Inr r \<Rightarrow> pr_Items r | Inl _ \<Rightarrow> []) [1..<Suc k] =
      map (\<lambda>i. take ?l (drop (i * ?l) rows)) [0..<k]"
    by (intro nth_equalityI) (simp_all del: upt_Suc)
  then show ?thesis
    by (simp only: pages_cover)
qed

text \<open>
  The migration of an empty database and the proxy's built-in default agree on every rule
  and on scanning being on, and differ in the size limit: 500 MiB in the database, 100 in the code.
\<close>

lemma migration_builds_default:
  "buildScanConfig (migration 0 now emptyDB) = DefaultScanConfig\<lparr>MaxSizeMB := 500\<rparr> \<and> MaxSizeMB DefaultScanConfig = 100"
proof -
  have settings: "settingOf (migration 0 now emptyDB) k = (case map_of seedSettings k of Some v \<Rightarrow> v | None \<Rightarrow> [])" for k
    unfolding migration_settings by (auto simp: settingOf_def seedSettings_def insertSetting_def emptyDB_def)
  have mimes: "sort_key mi_ID (db_mimes (migration 0 now emptyDB)) = map (mimeRow now) (zip (map int [1..<Suc (length seedMimes)]) seedMimes)"
  proof -
    have "db_mimes (migration 0 now emptyDB) = map (mimeRow now) (zip (map int [1..<Suc (length seedMimes)]) seedMimes)"
      using insertMimes_fresh [OF seedMimes_distinct, of "map (\<lambda>i. 0 + int i) [1..<Suc (length seedMimes)]" "fold (insertSetting now) seedSettings emptyDB" now]
      by (simp add: migration_def emptyDB_def insertSettings_mimes del: upt_Suc)
    moreover have "sorted (map mi_ID (map (mimeRow now) (zip (map int [1..<Suc (length seedMimes)]) seedMimes)))"
      by (simp add: mimeRow_ID sorted_map_int del: upt_Suc)
    ultimately show ?thesis
      by (simp add: sort_key_id_if_sorted del: upt_Suc)
  qed
  have rules: "map (\<lambda>m. \<lparr>Pattern = mi_Pattern m, IsPrefix = mi_IsPrefix m, rule_Enabled = mi_Enabled m\<rparr>)
      (sort_key mi_ID (db_mimes (migration 0 now emptyDB))) = Rules DefaultScanConfig"
  proof -
    have "map (\<lambda>m. \<lparr>Pattern = mi_Pattern m, IsPrefix = mi_IsPrefix m, rule_Enabled = mi_Enabled m\<rparr>) (map (mimeRow now) (zip ns rows)) =
        map (\<lambda>(p, b). \<lparr>Pattern = p, IsPrefix = b, rule_Enabled = True\<rparr>) rows" if "length ns = length rows" for ns rows
      using that by (induction ns rows rule: list_induct2) (auto simp: mimeRow_def)
    from this [of "map int [1..<Suc (length seedMimes)]" seedMimes]
    show ?thesis
      unfolding mimes by (simp add: seedMimes_def DefaultScanConfig_def del: upt_Suc)
  qed
  have "DefaultScanConfig\<lparr>MaxSizeMB := 500\<rparr> = \<lparr>cfg_Enabled = True, MaxSizeMB = 500, Rules = Rules DefaultScanConfig\<rparr>"
      "MaxSizeMB DefaultScanConfig = 100"
    by (simp_all add: DefaultScanConfig_def)
  moreover have "ParseInt ''500'' = 500"
    by code_simp
  ultimately show ?thesis
    by (simp add: buildScanConfig_def rules settings seedSettings_def Let_def)
qed

end
