(* ===== verification/Api_Domain.thy ===== *)
theory Api_Domain
  imports Prelude
begin

text \<open>
  The domain check of the API, \<open>domainRe\<close> and \<open>isValidDomain\<close> of
  \<^verbatim>\<open>internal/api/handler.go\<close>. The regular expression is kept as its syntax tree and matched
  by derivatives; the properties give it a meaning in terms of labels.
\<close>

section \<open>Regular expressions\<close>

datatype rexp =
    RNone
  | REps
  | RClass "char list"
  | RSeq rexp rexp
  | RAlt rexp rexp
  | RStar rexp

fun nullable :: "rexp \<Rightarrow> bool" where
  "nullable RNone = False"
| "nullable REps = True"
| "nullable (RClass cs) = False"
| "nullable (RSeq r s) = (nullable r \<and> nullable s)"
| "nullable (RAlt r s) = (nullable r \<or> nullable s)"
| "nullable (RStar r) = True"

fun deriv :: "char \<Rightarrow> rexp \<Rightarrow> rexp" where
  "deriv c RNone = RNone"
| "deriv c REps = RNone"
| "deriv c (RClass cs) = (if c \<in> set cs then REps else RNone)"
| "deriv c (RSeq r s) =
     (if nullable r then RAlt (RSeq (deriv c r) s) (deriv c s) else RSeq (deriv c r) s)"
| "deriv c (RAlt r s) = RAlt (deriv c r) (deriv c s)"
| "deriv c (RStar r) = RSeq (deriv c r) (RStar r)"

definition MatchString :: "rexp \<Rightarrow> string \<Rightarrow> bool" where
  "MatchString r s = nullable (fold deriv s r)"

definition ROpt :: "rexp \<Rightarrow> rexp" where "ROpt r = RAlt REps r"
definition RPlus :: "rexp \<Rightarrow> rexp" where "RPlus r = RSeq r (RStar r)"

section \<open>The pattern\<close>

definition alnum :: "char list" where
  "alnum = ''abcdefghijklmnopqrstuvwxyz0123456789''"

definition labelRe :: rexp where
  "labelRe = RSeq (RClass alnum) (ROpt (RSeq (RStar (RClass (alnum @ ''-''))) (RClass alnum)))"

definition domainRe :: rexp where
  "domainRe =
     RSeq (ROpt (RSeq (RClass ''*'') (RClass ''.'')))
       (RSeq (RPlus (RSeq labelRe (RClass ''.'')))
         (RSeq (RClass alnum) (RSeq (RClass alnum) (RStar (RClass alnum)))))"

definition isValidDomain :: "string \<Rightarrow> bool" where
  "isValidDomain domain = MatchString domainRe domain"

section \<open>Languages\<close>

inductive_set star_of :: "string set \<Rightarrow> string set" for A where
  nil: "[] \<in> star_of A"
| app: "a \<in> A \<Longrightarrow> b \<in> star_of A \<Longrightarrow> a @ b \<in> star_of A"

fun lang :: "rexp \<Rightarrow> string set" where
  "lang RNone = {}"
| "lang REps = {[]}"
| "lang (RClass cs) = {[c] | c. c \<in> set cs}"
| "lang (RSeq r s) = {a @ b | a b. a \<in> lang r \<and> b \<in> lang s}"
| "lang (RAlt r s) = lang r \<union> lang s"
| "lang (RStar r) = star_of (lang r)"

lemma nullable_iff: "nullable r \<longleftrightarrow> [] \<in> lang r"
  by (induction r) (auto intro: star_of.nil)

lemma star_of_Cons: "w \<in> star_of A \<Longrightarrow> w = c # s \<Longrightarrow> \<exists>a b. c # a \<in> A \<and> b \<in> star_of A \<and> s = a @ b"
proof (induction arbitrary: s rule: star_of.induct)
  case (app a b)
  then show ?case by (cases a) auto
qed simp

lemma deriv_iff: "s \<in> lang (deriv c r) \<longleftrightarrow> c # s \<in> lang r"
proof (induction r arbitrary: s)
  case (RSeq r1 r2)
  have "c # s \<in> lang (RSeq r1 r2) \<longleftrightarrow>
      (\<exists>a b. s = a @ b \<and> c # a \<in> lang r1 \<and> b \<in> lang r2) \<or> ([] \<in> lang r1 \<and> c # s \<in> lang r2)"
    by (auto simp: Cons_eq_append_conv)
  then show ?case
    using RSeq by (auto simp: nullable_iff)
next
  case (RStar r)
  show ?case
  proof
    assume "s \<in> lang (deriv c (RStar r))"
    then obtain a b where "s = a @ b" "c # a \<in> lang r" "b \<in> star_of (lang r)"
      using RStar by auto
    then show "c # s \<in> lang (RStar r)"
      using star_of.app [of "c # a" "lang r" b] by simp
  next
    assume "c # s \<in> lang (RStar r)"
    then show "s \<in> lang (deriv c (RStar r))"
      using star_of_Cons [of "c # s" "lang r" c s] RStar by fastforce
  qed
qed auto

lemma fold_deriv_iff: "t \<in> lang (fold deriv s r) \<longleftrightarrow> s @ t \<in> lang r"
  by (induction s arbitrary: r) (simp_all add: deriv_iff)

lemma MatchString_iff: "MatchString r s \<longleftrightarrow> s \<in> lang r"
  using fold_deriv_iff [of "[]" s r] by (simp add: MatchString_def nullable_iff)

section \<open>Labels\<close>

definition validLabel :: "string \<Rightarrow> bool" where
  "validLabel l \<longleftrightarrow> l \<noteq> [] \<and> set l \<subseteq> set (alnum @ ''-'') \<and> hd l \<in> set alnum \<and> last l \<in> set alnum"

definition validTLD :: "string \<Rightarrow> bool" where
  "validTLD l \<longleftrightarrow> 2 \<le> length l \<and> set l \<subseteq> set alnum"

lemma star_class: "w \<in> star_of {[c] | c. P c} \<longleftrightarrow> (\<forall>c \<in> set w. P c)"
proof
  show "w \<in> star_of {[c] | c. P c} \<Longrightarrow> \<forall>c \<in> set w. P c"
    by (induction rule: star_of.induct) auto
  show "\<forall>c \<in> set w. P c \<Longrightarrow> w \<in> star_of {[c] | c. P c}"
  proof (induction w)
    case (Cons c w)
    then show ?case
      using star_of.app [of "[c]" "{[c] | c. P c}" w] by auto
  qed (auto intro: star_of.nil)
qed

lemma lang_labelRe: "l \<in> lang labelRe \<longleftrightarrow> validLabel l"
proof
  assume "l \<in> lang labelRe"
  then obtain c t where ct: "l = [c] @ t" "c \<in> set alnum"
      "t = [] \<or> (\<exists>m d. t = m @ [d] \<and> (\<forall>x \<in> set m. x \<in> set (alnum @ ''-'')) \<and> d \<in> set alnum)"
    unfolding labelRe_def ROpt_def lang.simps star_class by blast
  from ct(3) show "validLabel l"
  proof (elim disjE exE conjE)
    assume "t = []"
    with ct(1,2) show ?thesis by (simp add: validLabel_def)
  next
    fix m d
    assume "t = m @ [d]" "\<forall>x \<in> set m. x \<in> set (alnum @ ''-'')" "d \<in> set alnum"
    with ct(1,2) show ?thesis by (auto simp: validLabel_def)
  qed
next
  assume l: "validLabel l"
  then obtain c t where ct: "l = c # t" "c \<in> set alnum"
    by (cases l) (auto simp: validLabel_def)
  show "l \<in> lang labelRe"
  proof (cases t rule: rev_cases)
    case Nil
    with ct show ?thesis by (auto simp: labelRe_def ROpt_def)
  next
    case (snoc m d)
    with l ct have "set m \<subseteq> set (alnum @ ''-'')" "d \<in> set alnum"
      by (auto simp: validLabel_def)
    then have "m @ [d] \<in> lang (ROpt (RSeq (RStar (RClass (alnum @ ''-''))) (RClass alnum)))"
      unfolding ROpt_def lang.simps star_class by blast
    then have "[c] @ (m @ [d]) \<in> lang labelRe"
      using ct(2) unfolding labelRe_def lang.simps(4) [of "RClass alnum"] lang.simps(3) by blast
    with ct snoc show ?thesis by simp
  qed
qed

lemma lang_TLD: "t \<in> lang (RSeq (RClass alnum) (RSeq (RClass alnum) (RStar (RClass alnum)))) \<longleftrightarrow> validTLD t"
proof
  assume "t \<in> lang (RSeq (RClass alnum) (RSeq (RClass alnum) (RStar (RClass alnum))))"
  then show "validTLD t"
    by (auto simp: validTLD_def star_class)
next
  assume "validTLD t"
  then obtain a b m where "t = [a] @ [b] @ m" "a \<in> set alnum" "b \<in> set alnum" "set m \<subseteq> set alnum"
    by (cases t; cases "tl t") (auto simp: validTLD_def)
  then show "t \<in> lang (RSeq (RClass alnum) (RSeq (RClass alnum) (RStar (RClass alnum))))"
    unfolding lang.simps star_class by blast
qed

lemma star_dotted: "w \<in> star_of {l @ ''.'' | l. P l} \<longleftrightarrow> (\<exists>ls. (\<forall>l \<in> set ls. P l) \<and> w = concat (map (\<lambda>l. l @ ''.'') ls))"
proof
  show "w \<in> star_of {l @ ''.'' | l. P l} \<Longrightarrow> \<exists>ls. (\<forall>l \<in> set ls. P l) \<and> w = concat (map (\<lambda>l. l @ ''.'') ls)"
  proof (induction rule: star_of.induct)
    case nil
    show ?case by (intro exI [of _ "[]"]) simp
  next
    case (app a b)
    then obtain l ls where "P l" "a = l @ ''.''" "\<forall>l \<in> set ls. P l" "b = concat (map (\<lambda>l. l @ ''.'') ls)"
      by auto
    then show ?case by (intro exI [of _ "l # ls"]) simp
  qed
next
  assume "\<exists>ls. (\<forall>l \<in> set ls. P l) \<and> w = concat (map (\<lambda>l. l @ ''.'') ls)"
  then obtain ls where "\<forall>l \<in> set ls. P l" "w = concat (map (\<lambda>l. l @ ''.'') ls)" by blast
  then show "w \<in> star_of {l @ ''.'' | l. P l}"
  proof (induction ls arbitrary: w)
    case (Cons l ls)
    then show ?case
      using star_of.app [of "l @ ''.''" "{l @ ''.'' | l. P l}" "concat (map (\<lambda>l. l @ ''.'') ls)"] by auto
  qed (simp add: star_of.nil)
qed

text \<open>The labels of a dotted name are what \<open>strings.Split\<close> finds.\<close>

lemma Split_dotted:
  assumes "\<forall>l \<in> set ls. CHR ''.'' \<notin> set l" "CHR ''.'' \<notin> set t"
  shows "Split CHR ''.'' (concat (map (\<lambda>l. l @ ''.'') ls) @ t) = ls @ [t]"
  using assms
  by (induction ls) (simp_all add: Split_append_sep)

lemma dotted_Join: "ls \<noteq> [] \<Longrightarrow> concat (map (\<lambda>l. l @ ''.'') (butlast ls)) @ last ls = Join CHR ''.'' ls"
  by (induction ls rule: list_nonempty_induct) (simp_all add: Join_Cons)

lemma valid_no_dot: "validLabel l \<Longrightarrow> CHR ''.'' \<notin> set l" "validTLD l \<Longrightarrow> CHR ''.'' \<notin> set l"
    "validLabel l \<Longrightarrow> hd l \<noteq> CHR ''*''"
proof -
  have chars: "CHR ''.'' \<notin> set (alnum @ ''-'')" "CHR ''.'' \<notin> set alnum" "CHR ''*'' \<notin> set alnum"
    by (simp_all add: alnum_def)
  show "validLabel l \<Longrightarrow> CHR ''.'' \<notin> set l" "validTLD l \<Longrightarrow> CHR ''.'' \<notin> set l"
    using chars(1,2) unfolding validLabel_def validTLD_def by blast+
  show "validLabel l \<Longrightarrow> hd l \<noteq> CHR ''*''"
    using chars(3) unfolding validLabel_def by metis
qed

definition validName :: "string \<Rightarrow> bool" where
  "validName b \<longleftrightarrow>
     (let ls = Split CHR ''.'' b in 2 \<le> length ls \<and> (\<forall>l \<in> set (butlast ls). validLabel l) \<and> validTLD (last ls))"

lemma validName_iff:
  "validName b \<longleftrightarrow> (\<exists>ls t. ls \<noteq> [] \<and> (\<forall>l \<in> set ls. validLabel l) \<and> validTLD t \<and> b = concat (map (\<lambda>l. l @ ''.'') ls) @ t)"
proof
  assume v: "validName b"
  let ?ls = "Split CHR ''.'' b"
  have "b = concat (map (\<lambda>l. l @ ''.'') (butlast ?ls)) @ last ?ls"
    using dotted_Join [of ?ls] Join_Split [of "CHR ''.''" b] Split_not_Nil [of "CHR ''.''" b] by metis
  moreover have "butlast ?ls \<noteq> []"
    using v by (simp add: validName_def Let_def flip: length_greater_0_conv)
  ultimately show "\<exists>ls t. ls \<noteq> [] \<and> (\<forall>l \<in> set ls. validLabel l) \<and> validTLD t \<and> b = concat (map (\<lambda>l. l @ ''.'') ls) @ t"
    using v unfolding validName_def Let_def by blast
next
  assume "\<exists>ls t. ls \<noteq> [] \<and> (\<forall>l \<in> set ls. validLabel l) \<and> validTLD t \<and> b = concat (map (\<lambda>l. l @ ''.'') ls) @ t"
  then obtain ls t where b: "ls \<noteq> []" "\<forall>l \<in> set ls. validLabel l" "validTLD t" "b = concat (map (\<lambda>l. l @ ''.'') ls) @ t"
    by blast
  then have "Split CHR ''.'' b = ls @ [t]"
    using Split_dotted valid_no_dot by simp
  with b show "validName b"
    by (cases ls) (simp_all add: validName_def)
qed

lemma lang_domainRe: "d \<in> lang domainRe \<longleftrightarrow> (\<exists>b. (d = b \<or> d = ''*.'' @ b) \<and> validName b)"
proof -
  let ?tld = "RSeq (RClass alnum) (RSeq (RClass alnum) (RStar (RClass alnum)))"
  have dotted: "lang (RSeq labelRe (RClass ''.'')) = {l @ ''.'' | l. validLabel l}"
    by (auto simp: lang_labelRe)
  have "w \<in> lang (RSeq (RPlus (RSeq labelRe (RClass ''.''))) ?tld) \<longleftrightarrow> validName w" for w
  proof -
    have plus: "v \<in> lang (RPlus (RSeq labelRe (RClass ''.''))) \<longleftrightarrow>
        (\<exists>ls. ls \<noteq> [] \<and> (\<forall>l \<in> set ls. validLabel l) \<and> v = concat (map (\<lambda>l. l @ ''.'') ls))" for v
    proof
      assume "v \<in> lang (RPlus (RSeq labelRe (RClass ''.'')))"
      then obtain l ls where "validLabel l" "\<forall>l \<in> set ls. validLabel l" "v = (l @ ''.'') @ concat (map (\<lambda>l. l @ ''.'') ls)"
        unfolding RPlus_def lang.simps(4) [of "RSeq labelRe (RClass ''.'')"] lang.simps(6) dotted star_dotted by blast
      then show "\<exists>ls. ls \<noteq> [] \<and> (\<forall>l \<in> set ls. validLabel l) \<and> v = concat (map (\<lambda>l. l @ ''.'') ls)"
        by (intro exI [of _ "l # ls"]) simp
    next
      assume "\<exists>ls. ls \<noteq> [] \<and> (\<forall>l \<in> set ls. validLabel l) \<and> v = concat (map (\<lambda>l. l @ ''.'') ls)"
      then obtain l ls where "validLabel l" "\<forall>l \<in> set ls. validLabel l" "v = (l @ ''.'') @ concat (map (\<lambda>l. l @ ''.'') ls)"
        by (metis concat.simps(2) list.set_intros list.simps(9) neq_Nil_conv)
      then show "v \<in> lang (RPlus (RSeq labelRe (RClass ''.'')))"
        unfolding RPlus_def lang.simps(4) [of "RSeq labelRe (RClass ''.'')"] lang.simps(6) dotted star_dotted by blast
    qed
    show ?thesis
      unfolding validName_iff lang.simps(4) [of "RPlus (RSeq labelRe (RClass ''.''))"] plus lang_TLD by blast
  qed
  moreover have "lang (ROpt (RSeq (RClass ''*'') (RClass ''.''))) = {[], ''*.''}"
    by (auto simp: ROpt_def)
  ultimately have "d \<in> lang domainRe \<longleftrightarrow> (\<exists>a b. d = a @ b \<and> a \<in> {[], ''*.''} \<and> validName b)"
    unfolding domainRe_def lang.simps(4) [of "ROpt (RSeq (RClass ''*'') (RClass ''.''))"] by blast
  also have "\<dots> \<longleftrightarrow> (\<exists>b. (d = b \<or> d = ''*.'' @ b) \<and> validName b)"
    by (metis append_Nil insert_iff singleton_iff)
  finally show ?thesis .
qed

lemma validName_no_star: "validName b \<Longrightarrow> \<not> HasPrefix b ''*.''"
proof
  assume v: "validName b" and "HasPrefix b ''*.''"
  then obtain r where "b = ''*.'' @ r"
    by (auto simp: HasPrefix_iff)
  then have "butlast (Split CHR ''.'' b) = ''*'' # butlast (Split CHR ''.'' r)"
    by simp
  with v have "validLabel ''*''"
    by (simp add: validName_def Let_def)
  then show False
    using valid_no_dot(3) by fastforce
qed

lemma isValidDomain_labels: "isValidDomain d \<longleftrightarrow> validName (TrimPrefix d ''*.'')"
proof (cases "HasPrefix d ''*.''")
  case True
  then obtain r where r: "d = ''*.'' @ r"
    by (auto simp: HasPrefix_iff)
  have "\<not> validName d"
    using True validName_no_star by blast
  then show ?thesis
    unfolding isValidDomain_def MatchString_iff lang_domainRe r TrimPrefix_append by auto
next
  case False
  then have "d \<noteq> ''*.'' @ b" for b
    by (auto simp: HasPrefix_iff)
  with False show ?thesis
    by (auto simp: isValidDomain_def MatchString_iff lang_domainRe TrimPrefix_def)
qed

text \<open>The characters of a valid domain; in particular it is its own lower-case, trimmed form.\<close>

lemma validName_chars: "validName b \<Longrightarrow> set b \<subseteq> set (alnum @ ''-.'')"
proof -
  assume "validName b"
  then obtain ls t where "\<forall>l \<in> set ls. set l \<subseteq> set (alnum @ ''-'')" "set t \<subseteq> set alnum" "b = concat (map (\<lambda>l. l @ ''.'') ls) @ t"
    unfolding validName_iff validLabel_def validTLD_def by blast
  moreover from this have "set (concat (map (\<lambda>l. l @ ''.'') ls)) \<subseteq> set (alnum @ ''-.'')"
    by (induction ls arbitrary: b) auto
  ultimately show "set b \<subseteq> set (alnum @ ''-.'')"
    by auto
qed

lemma isValidDomain_chars: "isValidDomain d \<Longrightarrow> set d \<subseteq> set (alnum @ ''-.*'')"
  using validName_chars [of "TrimPrefix d ''*.''"] isValidDomain_labels [of d]
  by (cases "HasPrefix d ''*.''") (auto simp: TrimPrefix_def HasPrefix_iff)

lemma domain_char_lower:
  "\<forall>c \<in> set (alnum @ ''-.*''). is_ascii c \<and> ascii_lower c = c \<and> \<not> ascii_space c"
  by code_simp

lemma dropWhile_none: "\<forall>c \<in> set s. \<not> P c \<Longrightarrow> dropWhile P s = s"
  by (cases s) auto

lemma isValidDomain_normal:
  assumes "isValidDomain d"
  shows "ToLower u d = d" "TrimSpace u d = d" "d \<noteq> []"
proof -
  have chars: "\<forall>c \<in> set d. is_ascii c \<and> ascii_lower c = c \<and> \<not> ascii_space c"
    using isValidDomain_chars [OF assms] domain_char_lower by blast
  then show "ToLower u d = d"
    by (simp add: ToLower_def list_all_iff map_idI)
  show "TrimSpace u d = d"
    using chars by (simp add: TrimSpace_def list_all_iff dropWhile_none)
  show "d \<noteq> []"
    using assms isValidDomain_labels [of "[]"] by (auto simp: TrimPrefix_def HasPrefix_def validName_def)
qed

section \<open>Properties\<close>

text \<open>
  Property C28. The regular expression accepts exactly the names of at least two labels, with an
  optional leading \<open>*.\<close>, whose labels consist of lower-case letters, digits and inner hyphens and
  whose last label has at least two letters or digits and no hyphen.
\<close>

theorem isValidDomain_iff_labels:
  "isValidDomain d \<longleftrightarrow>
     (let ls = Split CHR ''.'' (TrimPrefix d ''*.'') in
      2 \<le> length ls \<and> (\<forall>l \<in> set (butlast ls). validLabel l) \<and> validTLD (last ls))"
  by (simp add: isValidDomain_labels validName_def)

theorem isValidDomain_iff_labels_witness:
  "isValidDomain ''*.example.com'' \<and> \<not> isValidDomain ''example.xn--p1ai''"
proof -
  have "Split CHR ''.'' (TrimPrefix ''*.example.com'' ''*.'') = [''example'', ''com'']"
      "Split CHR ''.'' (TrimPrefix ''example.xn--p1ai'' ''*.'') = [''example'', ''xn--p1ai'']"
    by (simp_all add: TrimPrefix_def HasPrefix_def)
  then show ?thesis
    by (simp add: isValidDomain_iff_labels validLabel_def validTLD_def alnum_def)
qed

end
