(* ===== verification/Api_Handler.thy ===== *)
theory Api_Handler
  imports Api_Store Api_Domain Http_Types
begin

text \<open>
  The HTTP handlers of the management API, \<^verbatim>\<open>internal/api/handler.go\<close>: routing, bearer
  authentication, validation, and the status code of every outcome of the store.

  A request carries its path as \<open>http.ServeMux\<close> sees it, cut into decoded segments, and its
  body as the JSON value that was parsed, if any. Struct fields are matched by their exact names;
  a null or missing field keeps its zero value and a value of the wrong type is a decoding error.
\<close>

section \<open>Requests\<close>

record api_request =
  ar_method :: string
  ar_path :: string
  ar_segs :: "string list"
  ar_header :: header
  ar_query :: "(string \<times> string list) list"
  ar_json :: "json option"

record api_env =
  ae_unicode :: unicode
  ae_pg :: pg
  ae_marshal :: "ScanConfig \<Rightarrow> bytes"
  ae_time :: "int \<Rightarrow> string"

definition queryGet :: "api_request \<Rightarrow> string \<Rightarrow> string" where
  "queryGet r k = (case map_of (ar_query r) k of Some (v # _) \<Rightarrow> v | _ \<Rightarrow> [])"

definition queryInt :: "api_request \<Rightarrow> string \<Rightarrow> int" where
  "queryInt r k = ParseInt (queryGet r k)"

text \<open>Decoding of one struct field; the outer \<open>None\<close> is a decoding error.\<close>

definition jsonField :: "json \<Rightarrow> string \<Rightarrow> json option option" where
  "jsonField j k =
     (case j of
        JObj fs \<Rightarrow> Some (case map_of (rev fs) k of Some JNull \<Rightarrow> None | v \<Rightarrow> v)
      | JNull \<Rightarrow> Some None
      | _ \<Rightarrow> None)"

definition fieldOptStr :: "json \<Rightarrow> string \<Rightarrow> string option option" where
  "fieldOptStr j k =
     (case jsonField j k of None \<Rightarrow> None | Some None \<Rightarrow> Some None | Some (Some (JStr s)) \<Rightarrow> Some (Some s) | _ \<Rightarrow> None)"

definition fieldOptBool :: "json \<Rightarrow> string \<Rightarrow> bool option option" where
  "fieldOptBool j k =
     (case jsonField j k of None \<Rightarrow> None | Some None \<Rightarrow> Some None | Some (Some (JBool b)) \<Rightarrow> Some (Some b) | _ \<Rightarrow> None)"

definition fieldStr :: "json \<Rightarrow> string \<Rightarrow> string option" where
  "fieldStr j k = map_option (\<lambda>v. case v of Some s \<Rightarrow> s | None \<Rightarrow> []) (fieldOptStr j k)"

definition decode3 :: "'a option \<Rightarrow> 'b option \<Rightarrow> 'c option \<Rightarrow> ('a \<times> 'b \<times> 'c) option" where
  "decode3 a b c = (case (a, b, c) of (Some x, Some y, Some z) \<Rightarrow> Some (x, y, z) | _ \<Rightarrow> None)"

text \<open>\<open>url.PathUnescape\<close>.\<close>

fun hexDigit :: "char \<Rightarrow> nat option" where
  "hexDigit c =
     (let n = (of_char c :: nat) in
      if 48 \<le> n \<and> n \<le> 57 then Some (n - 48)
      else if 97 \<le> n \<and> n \<le> 102 then Some (n - 87)
      else if 65 \<le> n \<and> n \<le> 70 then Some (n - 55)
      else None)"

fun PathUnescape :: "string \<Rightarrow> string option" where
  "PathUnescape [] = Some []"
| "PathUnescape (c # s) =
     (if c \<noteq> CHR ''%'' then map_option ((#) c) (PathUnescape s)
      else (case s of
              a # b # s' \<Rightarrow>
                (case (hexDigit a, hexDigit b) of
                   (Some x, Some y) \<Rightarrow> map_option ((#) (char_of (16 * x + y))) (PathUnescape s')
                 | _ \<Rightarrow> None)
            | _ \<Rightarrow> None))"

section \<open>Replies\<close>

definition jsonReply :: "int \<Rightarrow> json \<Rightarrow> reply" where
  "jsonReply code v = \<lparr>rp_code = code, rp_header = [(''Content-Type'', [''application/json''])], rp_body = JsonBody v\<rparr>"

definition jsonOK :: "json \<Rightarrow> reply" where
  "jsonOK v = jsonReply 200 v"

definition jsonError :: "string \<Rightarrow> int \<Rightarrow> reply" where
  "jsonError msg code = jsonReply code (JObj [(''error'', JStr msg)])"

definition emptyReply :: "int \<Rightarrow> reply" where
  "emptyReply code = \<lparr>rp_code = code, rp_header = [], rp_body = BytesBody []\<rparr>"

definition entryJson :: "api_env \<Rightarrow> Entry \<Rightarrow> json" where
  "entryJson ae e = JObj
     [(''id'', JNum (en_ID e)), (''domain'', JStr (en_Domain e)), (''enabled'', JBool (en_Enabled e)),
      (''comment'', JStr (en_Comment e)), (''created_by'', JStr (en_CreatedBy e)), (''created_at'', JStr (ae_time ae (en_CreatedAt e))),
      (''updated_by'', JStr (en_UpdatedBy e)), (''updated_at'', JStr (ae_time ae (en_UpdatedAt e)))]"

definition auditJson :: "api_env \<Rightarrow> AuditEntry \<Rightarrow> json" where
  "auditJson ae e = JObj
     [(''id'', JNum (au_ID e)), (''domain'', JStr (au_Domain e)), (''action'', JStr (au_Action e)),
      (''actor'', JStr (au_Actor e)), (''comment'', JStr (au_Comment e)), (''occurred_at'', JStr (ae_time ae (au_OccurredAt e)))]"

definition mimeJson :: "api_env \<Rightarrow> MimeTypeEntry \<Rightarrow> json" where
  "mimeJson ae m = JObj
     [(''id'', JNum (mi_ID m)), (''pattern'', JStr (mi_Pattern m)), (''is_prefix'', JBool (mi_IsPrefix m)),
      (''enabled'', JBool (mi_Enabled m)), (''note'', JStr (mi_Note m)), (''updated_by'', JStr (mi_UpdatedBy m)),
      (''updated_at'', JStr (ae_time ae (mi_UpdatedAt m)))]"

definition settingJson :: "api_env \<Rightarrow> ScanSettingEntry \<Rightarrow> json" where
  "settingJson ae e = JObj
     [(''key'', JStr (ss_Key e)), (''value'', JStr (ss_Value e)), (''updated_by'', JStr (ss_UpdatedBy e)),
      (''updated_at'', JStr (ae_time ae (ss_UpdatedAt e)))]"

definition pagedJson :: "('a \<Rightarrow> json) \<Rightarrow> 'a PagedResult \<Rightarrow> json" where
  "pagedJson f p = JObj
     [(''total'', JNum (pr_Total p)), (''page'', JNum (pr_Page p)), (''limit'', JNum (pr_Limit p)), (''items'', JArr (map f (pr_Items p)))]"

section \<open>Handlers\<close>

text \<open>\<open>pathDomain\<close>; the mux has already decoded the segment once.\<close>

definition pathDomain :: "unicode \<Rightarrow> string \<Rightarrow> string + string" where
  "pathDomain u encoded =
     (case PathUnescape encoded of
        None \<Rightarrow> Inl ''invalid domain encoding''
      | Some d \<Rightarrow> (let d = ToLower u (TrimSpace u d) in if d = [] then Inl ''domain is required'' else Inr d))"

definition handleList :: "api_env \<Rightarrow> op_env \<Rightarrow> api_request \<Rightarrow> apiStore \<Rightarrow> reply \<times> apiStore" where
  "handleList ae env r s =
     (let lq = \<lparr>lq_Q = queryGet r ''q'', lq_Sort = queryGet r ''sort'', lq_Order = queryGet r ''order'',
                lq_Page = queryInt r ''page'', lq_Limit = queryInt r ''limit''\<rparr>
      in (case ListEntries (ae_pg ae) env (queryGet r ''enabled'' = ''true'') lq s of
            Inl _ \<Rightarrow> jsonError ''internal error'' 500
          | Inr p \<Rightarrow> jsonOK (pagedJson (entryJson ae) p), s))"

definition handleAdd :: "api_env \<Rightarrow> op_env \<Rightarrow> api_request \<Rightarrow> apiStore \<Rightarrow> reply \<times> apiStore" where
  "handleAdd ae env r s =
     (case Option.bind (ar_json r) (\<lambda>j. decode3 (fieldStr j ''domain'') (fieldStr j ''comment'') (fieldStr j ''actor'')) of
        None \<Rightarrow> (jsonError ''invalid JSON'' 400, s)
      | Some (bdomain, comment, actor) \<Rightarrow>
          (let domain = ToLower (ae_unicode ae) (TrimSpace (ae_unicode ae) bdomain) in
           if domain = [] then (jsonError ''domain is required'' 400, s)
           else if \<not> isValidDomain domain then
             (jsonError ''invalid domain: must be a plain hostname (e.g. example.com or *.example.com), without scheme or path'' 400, s)
           else (case AddEntry env domain comment actor s of
                   (Inl ErrDuplicate, s') \<Rightarrow> (jsonError ''domain already exists'' 409, s')
                 | (Inl _, s') \<Rightarrow> (jsonError ''internal error'' 500, s')
                 | (Inr e, s') \<Rightarrow> (jsonReply 201 (entryJson ae e), s'))))"

definition handleUpdate :: "api_env \<Rightarrow> op_env \<Rightarrow> string \<Rightarrow> api_request \<Rightarrow> apiStore \<Rightarrow> reply \<times> apiStore" where
  "handleUpdate ae env seg r s =
     (case pathDomain (ae_unicode ae) seg of
        Inl msg \<Rightarrow> (jsonError msg 400, s)
      | Inr domain \<Rightarrow>
          (case Option.bind (ar_json r) (\<lambda>j. decode3 (fieldOptBool j ''enabled'') (fieldOptStr j ''comment'') (fieldStr j ''actor'')) of
             None \<Rightarrow> (jsonError ''invalid JSON'' 400, s)
           | Some (enabled, comment, actor) \<Rightarrow>
               if enabled = None \<and> comment = None then (jsonError ''at least one of enabled or comment is required'' 400, s)
               else (case UpdateEntry env domain \<lparr>ur_Enabled = enabled, ur_Comment = comment, ur_Actor = actor\<rparr> s of
                       (Inl ErrNotFound, s') \<Rightarrow> (jsonError ''domain not found'' 404, s')
                     | (Inl _, s') \<Rightarrow> (jsonError ''internal error'' 500, s')
                     | (Inr e, s') \<Rightarrow> (jsonOK (entryJson ae e), s'))))"

text \<open>
  The body of a DELETE is optional and decoding errors are ignored: a body that is no JSON value
  sets nothing, and a field of the wrong type is skipped while the others are kept.
\<close>

definition handleRemove :: "api_env \<Rightarrow> op_env \<Rightarrow> string \<Rightarrow> api_request \<Rightarrow> apiStore \<Rightarrow> reply \<times> apiStore" where
  "handleRemove ae env seg r s =
     (case pathDomain (ae_unicode ae) seg of
        Inl msg \<Rightarrow> (jsonError msg 400, s)
      | Inr domain \<Rightarrow>
          (let get = (\<lambda>k. case Option.bind (ar_json r) (\<lambda>j. fieldStr j k) of Some v \<Rightarrow> v | None \<Rightarrow> []) in
           case RemoveEntry env domain (get ''actor'') (get ''comment'') s of
             (Some ErrNotFound, s') \<Rightarrow> (jsonError ''domain not found'' 404, s')
           | (Some _, s') \<Rightarrow> (jsonError ''internal error'' 500, s')
           | (None, s') \<Rightarrow> (emptyReply 204, s')))"

definition handleAudit :: "api_env \<Rightarrow> op_env \<Rightarrow> string \<Rightarrow> api_request \<Rightarrow> apiStore \<Rightarrow> reply \<times> apiStore" where
  "handleAudit ae env seg r s =
     (case pathDomain (ae_unicode ae) seg of
        Inl msg \<Rightarrow> (jsonError msg 400, s)
      | Inr domain \<Rightarrow>
          (let lq = \<lparr>lq_Q = [], lq_Sort = [], lq_Order = [], lq_Page = queryInt r ''page'', lq_Limit = queryInt r ''limit''\<rparr>
           in (case AuditLog (ae_pg ae) env domain lq s of
                 Inl _ \<Rightarrow> jsonError ''internal error'' 500
               | Inr p \<Rightarrow> jsonOK (pagedJson (auditJson ae) p), s)))"

definition handleGetScanSettings :: "api_env \<Rightarrow> op_env \<Rightarrow> apiStore \<Rightarrow> reply \<times> apiStore" where
  "handleGetScanSettings ae env s =
     (case GetScanSettings (ae_pg ae) env s of
        Inl _ \<Rightarrow> jsonError ''internal error'' 500
      | Inr es \<Rightarrow> jsonOK (JArr (map (settingJson ae) es)), s)"

definition handlePatchScanSetting :: "api_env \<Rightarrow> op_env \<Rightarrow> api_request \<Rightarrow> apiStore \<Rightarrow> reply \<times> apiStore" where
  "handlePatchScanSetting ae env r s =
     (case Option.bind (ar_json r) (\<lambda>j. decode3 (fieldStr j ''key'') (fieldStr j ''value'') (fieldStr j ''actor'')) of
        None \<Rightarrow> (jsonError ''invalid JSON'' 400, s)
      | Some (key, val, actor) \<Rightarrow>
          if key = [] \<or> val = [] then (jsonError ''key and value are required'' 400, s)
          else (case UpdateScanSetting (ae_marshal ae) env key val actor s of
                  (Some ErrNotFound, s') \<Rightarrow> (jsonError ''setting key not found'' 404, s')
                | (Some _, s') \<Rightarrow> (jsonError ''internal error'' 500, s')
                | (None, s') \<Rightarrow> (emptyReply 204, s')))"

definition handleListMimeTypes :: "api_env \<Rightarrow> op_env \<Rightarrow> api_request \<Rightarrow> apiStore \<Rightarrow> reply \<times> apiStore" where
  "handleListMimeTypes ae env r s =
     (let lq = \<lparr>lq_Q = queryGet r ''q'', lq_Sort = queryGet r ''sort'', lq_Order = queryGet r ''order'', lq_Page = 0, lq_Limit = 0\<rparr>
      in (case ListMimeTypes (ae_pg ae) env (queryGet r ''enabled'' = ''true'') lq s of
            Inl _ \<Rightarrow> jsonError ''internal error'' 500
          | Inr es \<Rightarrow> jsonOK (JArr (map (mimeJson ae) es)), s))"

definition handlePatchMimeType :: "api_env \<Rightarrow> op_env \<Rightarrow> string \<Rightarrow> api_request \<Rightarrow> apiStore \<Rightarrow> reply \<times> apiStore" where
  "handlePatchMimeType ae env seg r s =
     (case PathUnescape seg of
        None \<Rightarrow> (jsonError ''invalid pattern'' 400, s)
      | Some pat \<Rightarrow>
          if TrimSpace (ae_unicode ae) pat = [] then (jsonError ''invalid pattern'' 400, s)
          else (case Option.bind (ar_json r) (\<lambda>j. decode3 (fieldOptBool j ''enabled'') (fieldStr j ''note'') (fieldStr j ''actor'')) of
                  None \<Rightarrow> (jsonError ''invalid JSON'' 400, s)
                | Some (enabled, note, actor) \<Rightarrow>
                    if enabled = None \<and> note = [] then (jsonError ''at least one of enabled or note is required'' 400, s)
                    else (case UpdateMimeType (ae_marshal ae) env pat enabled note actor s of
                            (Inl ErrNotFound, s') \<Rightarrow> (jsonError ''pattern not found'' 404, s')
                          | (Inl _, s') \<Rightarrow> (jsonError ''internal error'' 500, s')
                          | (Inr m, s') \<Rightarrow> (jsonOK (mimeJson ae m), s'))))"

section \<open>Routing and authentication\<close>

text \<open>The methods that have a pattern for a path; a wildcard matches one non-empty segment.\<close>

definition routeMethods :: "string list \<Rightarrow> string list" where
  "routeMethods segs =
     (case segs of
        [a] \<Rightarrow> if a = ''healthz'' then [''GET'', ''HEAD''] else []
      | [a, b, c] \<Rightarrow> if [a, b, c] = [''api'', ''v1'', ''blocklist''] then [''GET'', ''HEAD'', ''POST''] else []
      | [a, b, c, d] \<Rightarrow>
          if [a, b, c] = [''api'', ''v1'', ''blocklist''] \<and> d \<noteq> [] then [''PATCH'', ''DELETE'']
          else if [a, b, c, d] = [''api'', ''v1'', ''scan'', ''settings''] then [''GET'', ''HEAD'', ''PATCH'']
          else if [a, b, c, d] = [''api'', ''v1'', ''scan'', ''mime-types''] then [''GET'', ''HEAD'']
          else []
      | [a, b, c, d, e] \<Rightarrow>
          if [a, b, c] = [''api'', ''v1'', ''blocklist''] \<and> d \<noteq> [] \<and> e = ''audit'' then [''GET'', ''HEAD'']
          else if [a, b, c, d] = [''api'', ''v1'', ''scan'', ''mime-types''] \<and> e \<noteq> [] then [''PATCH'']
          else []
      | _ \<Rightarrow> [])"

definition muxServe :: "api_env \<Rightarrow> op_env \<Rightarrow> api_request \<Rightarrow> apiStore \<Rightarrow> reply \<times> apiStore" where
  "muxServe ae env r s =
     (let segs = ar_segs r; meth = ar_method r in
      if routeMethods segs = [] then (NotFound, s)
      else if meth \<notin> set (routeMethods segs) then (httpError ''Method Not Allowed'' 405, s)
      else if segs = [''healthz''] then (emptyReply 200, s)
      else if segs = [''api'', ''v1'', ''blocklist''] then (if meth = ''POST'' then handleAdd ae env r s else handleList ae env r s)
      else if segs = [''api'', ''v1'', ''scan'', ''settings''] then
        (if meth = ''PATCH'' then handlePatchScanSetting ae env r s else handleGetScanSettings ae env s)
      else if segs = [''api'', ''v1'', ''scan'', ''mime-types''] then handleListMimeTypes ae env r s
      else if take 4 segs = [''api'', ''v1'', ''scan'', ''mime-types''] then handlePatchMimeType ae env (segs ! 4) r s
      else if length segs = 5 then handleAudit ae env (segs ! 3) r s
      else if meth = ''PATCH'' then handleUpdate ae env (segs ! 3) r s
      else handleRemove ae env (segs ! 3) r s)"

definition bearerAuth :: "string \<Rightarrow> (api_request \<Rightarrow> apiStore \<Rightarrow> reply \<times> apiStore) \<Rightarrow> api_request \<Rightarrow> apiStore \<Rightarrow> reply \<times> apiStore" where
  "bearerAuth apiKey h r s =
     (if ar_path r = ''/healthz'' then h r s
      else (case CutPrefix (Header_Get (ar_header r) ''Authorization'') ''Bearer '' of
              (token, ok) \<Rightarrow> if \<not> ok \<or> token \<noteq> apiKey then (jsonError ''unauthorized'' 401, s) else h r s))"

definition apiServe :: "api_env \<Rightarrow> string \<Rightarrow> op_env \<Rightarrow> api_request \<Rightarrow> apiStore \<Rightarrow> reply \<times> apiStore" where
  "apiServe ae apiKey env = (if apiKey = [] then muxServe ae env else bearerAuth apiKey (muxServe ae env))"

section \<open>Lemmas\<close>

lemma rp_code_simps [simp]: "rp_code (jsonError m c) = c" "rp_code (jsonOK v) = 200" "rp_code (jsonReply c v) = c" "rp_code (emptyReply c) = c"
    "rp_code (httpError b c) = c" "rp_code NotFound = 404"
  by (simp_all add: jsonError_def jsonOK_def jsonReply_def emptyReply_def httpError_def NotFound_def)

lemma handler_codes:
  "rp_code (fst (handleList ae env r s)) \<in> {200, 500}"
  "rp_code (fst (handleAdd ae env r s)) \<in> {201, 400, 409, 500}"
  "rp_code (fst (handleUpdate ae env d r s)) \<in> {200, 400, 404, 500}"
  "rp_code (fst (handleRemove ae env d r s)) \<in> {204, 400, 404, 500}"
  "rp_code (fst (handleAudit ae env d r s)) \<in> {200, 400, 500}"
  "rp_code (fst (handleGetScanSettings ae env s)) \<in> {200, 500}"
  "rp_code (fst (handlePatchScanSetting ae env r s)) \<in> {204, 400, 404, 500}"
  "rp_code (fst (handleListMimeTypes ae env r s)) \<in> {200, 500}"
  "rp_code (fst (handlePatchMimeType ae env d r s)) \<in> {200, 400, 404, 500}"
  by (simp_all add: handleList_def handleAdd_def handleUpdate_def handleRemove_def handleAudit_def handleGetScanSettings_def
      handlePatchScanSetting_def handleListMimeTypes_def handlePatchMimeType_def Let_def
      split: option.split sum.split prod.split store_error.split if_split)

lemma handlers_not_401 [simp]:
  "rp_code (fst (handleList ae env r s)) \<noteq> 401" "rp_code (fst (handleAdd ae env r s)) \<noteq> 401"
  "rp_code (fst (handleUpdate ae env d r s)) \<noteq> 401" "rp_code (fst (handleRemove ae env d r s)) \<noteq> 401"
  "rp_code (fst (handleAudit ae env d r s)) \<noteq> 401" "rp_code (fst (handleGetScanSettings ae env s)) \<noteq> 401"
  "rp_code (fst (handlePatchScanSetting ae env r s)) \<noteq> 401" "rp_code (fst (handleListMimeTypes ae env r s)) \<noteq> 401"
  "rp_code (fst (handlePatchMimeType ae env d r s)) \<noteq> 401"
  using handler_codes(1) [of ae env r s] handler_codes(2) [of ae env r s] handler_codes(3) [of ae env d r s]
    handler_codes(4) [of ae env d r s] handler_codes(5) [of ae env d r s] handler_codes(6) [of ae env s]
    handler_codes(7) [of ae env r s] handler_codes(8) [of ae env r s] handler_codes(9) [of ae env d r s]
  by force+

lemma muxServe_not_401: "rp_code (fst (muxServe ae env r s)) \<noteq> 401"
  unfolding muxServe_def Let_def by (simp split: if_split)

lemma decode3_Some: "decode3 a b c = Some (x, y, z) \<longleftrightarrow> a = Some x \<and> b = Some y \<and> c = Some z"
  by (auto simp: decode3_def split: option.splits)

lemma handleAdd_cases:
  obtains (reject) code msg where "handleAdd ae env r s = (jsonError msg code, s)" "code \<noteq> 201"
  | (created) j b c a e s' where "ar_json r = Some j" "fieldStr j ''domain'' = Some b"
      "isValidDomain (ToLower (ae_unicode ae) (TrimSpace (ae_unicode ae) b))"
      "AddEntry env (ToLower (ae_unicode ae) (TrimSpace (ae_unicode ae) b)) c a s = (Inr e, s')"
      "handleAdd ae env r s = (jsonReply 201 (entryJson ae e), s')"
proof (cases "Option.bind (ar_json r) (\<lambda>j. decode3 (fieldStr j ''domain'') (fieldStr j ''comment'') (fieldStr j ''actor''))")
  case None
  then show thesis by (intro reject [of _ 400]) (simp_all add: handleAdd_def)
next
  case (Some t)
  obtain b c a where t: "t = (b, c, a)" by (cases t)
  from Some t obtain j where j: "ar_json r = Some j" "fieldStr j ''domain'' = Some b"
    by (cases "ar_json r") (auto simp: decode3_Some)
  define d where "d = ToLower (ae_unicode ae) (TrimSpace (ae_unicode ae) b)"
  obtain x s' where x: "AddEntry env d c a s = (x, s')" by (cases "AddEntry env d c a s")
  show thesis
  proof (cases "d = [] \<or> \<not> isValidDomain d")
    case True
    then have "\<exists>msg. handleAdd ae env r s = (jsonError msg 400, s)"
      unfolding handleAdd_def Some t by (auto simp: Let_def d_def [symmetric])
    then show thesis by (auto intro: reject [of _ 400])
  next
    case ok: False
    show thesis
    proof (cases x)
      case (Inl err)
      with x have "s' = s" by (auto elim: AddEntry_cases)
      with ok x Inl have "handleAdd ae env r s =
          (if err = ErrDuplicate then (jsonError ''domain already exists'' 409, s) else (jsonError ''internal error'' 500, s))"
        unfolding handleAdd_def Some t by (cases err) (auto simp: Let_def d_def [symmetric])
      then show thesis
        using reject [of _ 409] reject [of _ 500] by (cases "err = ErrDuplicate") auto
    next
      case (Inr e)
      with ok x have "handleAdd ae env r s = (jsonReply 201 (entryJson ae e), s')"
        unfolding handleAdd_def Some t by (simp add: Let_def d_def [symmetric])
      with ok x Inr j show thesis using created unfolding d_def by blast
    qed
  qed
qed

section \<open>Properties\<close>

text \<open>
  Property C27. With an API key set, a request to anything but the health check is served exactly when
  its Authorization header is \<open>Bearer\<close> followed by that key; any other request gets 401 and
  touches neither the database nor Redis.
\<close>

theorem api_auth_required:
  assumes "apiKey \<noteq> []" "ar_path r \<noteq> ''/healthz''"
  shows "(rp_code (fst (apiServe ae apiKey env r s)) \<noteq> 401 \<longleftrightarrow> Header_Get (ar_header r) ''Authorization'' = ''Bearer '' @ apiKey) \<and>
         (rp_code (fst (apiServe ae apiKey env r s)) = 401 \<longrightarrow> snd (apiServe ae apiKey env r s) = s)"
proof (cases "Header_Get (ar_header r) ''Authorization'' = ''Bearer '' @ apiKey")
  case True
  then have "CutPrefix (Header_Get (ar_header r) ''Authorization'') ''Bearer '' = (apiKey, True)"
    by (rule CutPrefix_True_iff [THEN iffD2])
  then have "apiServe ae apiKey env r s = muxServe ae env r s"
    using assms by (simp add: apiServe_def bearerAuth_def)
  then show ?thesis
    using True muxServe_not_401 [of ae env r s] by simp
next
  case False
  obtain token ok where cut: "CutPrefix (Header_Get (ar_header r) ''Authorization'') ''Bearer '' = (token, ok)"
    by (cases "CutPrefix (Header_Get (ar_header r) ''Authorization'') ''Bearer ''")
  have "token \<noteq> apiKey" if ok
    using cut False that CutPrefix_True_iff [of "Header_Get (ar_header r) ''Authorization''" "''Bearer ''" token] by auto
  then have "\<not> ok \<or> token \<noteq> apiKey" by blast
  then have "apiServe ae apiKey env r s = (jsonError ''unauthorized'' 401, s)"
    using assms cut by (simp add: apiServe_def bearerAuth_def)
  with False show ?thesis by simp
qed

definition demoApiEnv :: api_env where
  "demoApiEnv = \<lparr>ae_unicode = \<lparr>uni_ToLower = id, uni_TrimSpace = id\<rparr>,
     ae_pg = \<lparr>pg_ilike = \<lambda>_ _. True, pg_orderEntries = \<lambda>_ _ es. es, pg_orderAudit = id, pg_orderMimes = \<lambda>_ _ ms. ms, pg_orderSettings = id\<rparr>,
     ae_marshal = \<lambda>_. [], ae_time = \<lambda>_. []\<rparr>"

definition demoAdd :: "header \<Rightarrow> string \<Rightarrow> api_request" where
  "demoAdd h d = \<lparr>ar_method = ''POST'', ar_path = ''/api/v1/blocklist'', ar_segs = [''api'', ''v1'', ''blocklist''],
     ar_header = h, ar_query = [], ar_json = Some (JObj [(''domain'', JStr d)])\<rparr>"

theorem api_auth_required_witness:
  "rp_code (fst (apiServe demoApiEnv ''key'' demoOpEnv (demoAdd [(''Authorization'', [''Bearer wrong''])] ''example.com'') emptyStore)) = 401"
  using api_auth_required [of "''key''" "demoAdd [(''Authorization'', [''Bearer wrong''])] ''example.com''" demoApiEnv demoOpEnv emptyStore]
  by (simp add: demoAdd_def Header_Get_def)

text \<open>
  A POST that answers 201 has put exactly the normalised domain, which the domain check
  accepted, into the table as a new enabled entry and, if Redis answered, into the Redis set; any
  other answer leaves the store as it was.
\<close>

lemma handleAdd_created:
  "if rp_code (fst (handleAdd ae env r s)) = 201
   then \<exists>j b e. ar_json r = Some j \<and> fieldStr j ''domain'' = Some b \<and>
          en_Domain e = ToLower (ae_unicode ae) (TrimSpace (ae_unicode ae) b) \<and> isValidDomain (en_Domain e) \<and> en_Enabled e \<and>
          en_Domain e \<notin> en_Domain ` set (db_entries (st_db s)) \<and>
          db_entries (st_db (snd (handleAdd ae env r s))) = db_entries (st_db s) @ [e] \<and>
          rd_domains (st_rd (snd (handleAdd ae env r s))) =
            (if op_redis env then insert (en_Domain e) (rd_domains (st_rd s)) else rd_domains (st_rd s))
   else snd (handleAdd ae env r s) = s"
proof (cases rule: handleAdd_cases [of ae env r s])
  case (created j b c a e s')
  from created(4) show ?thesis
    by (cases rule: AddEntry_cases) (use created in auto)
qed simp

end
