(* ===== verification/Config_Sync.thy ===== *)
theory Config_Sync
  imports Domain_Blocklist Scan_Job
begin

text \<open>
  How the proxy follows the API: \<^verbatim>\<open>internal/proxy/blocklist_sync.go\<close> and
  \<^verbatim>\<open>internal/proxy/scanconfig_sync.go\<close>. Both files have the same shape, a \<open>load\<close>
  that reads Redis and replaces a live value, and a goroutine that subscribes to a channel, loads on
  every message, and reconnects with a growing pause.

  The system state joins the source of truth in Redis with the proxy's copy. A message reaches the
  proxy only if it was published while the subscription was up; \<open>sy_pending\<close> counts
  messages delivered to the subscription and not yet handled. An event of the proxy carries whether
  its read of Redis succeeds.
\<close>

section \<open>Loading\<close>

text \<open>The closure \<open>load\<close> of \<open>StartBlocklistSync\<close>; \<open>None\<close> is a failed SMEMBERS.\<close>

definition loadBlocklist :: "unicode \<Rightarrow> string list option \<Rightarrow> Blocklist option \<Rightarrow> Blocklist option" where
  "loadBlocklist u reply cur = (case reply of None \<Rightarrow> cur | Some members \<Rightarrow> Some (NewBlocklist u members))"

text \<open>The closure \<open>load\<close> of \<open>StartScanConfigSync\<close>, with the JSON decoder as a parameter.\<close>

definition loadScanConfig :: "(bytes \<Rightarrow> ScanConfig option) \<Rightarrow> redis_reply \<Rightarrow> Manager \<Rightarrow> Manager" where
  "loadScanConfig unmarshalConfig reply m =
     (case reply of
        RedisBytes data \<Rightarrow> (case unmarshalConfig data of Some cfg \<Rightarrow> SetConfig cfg m | None \<Rightarrow> m)
      | _ \<Rightarrow> m)"

section \<open>The synchronisation loop\<close>

datatype sync_phase = Subscribing | Subscribed | Pausing | Ended

record ('r, 'v) sync =
  sy_redis :: 'r
  sy_value :: 'v
  sy_phase :: sync_phase
  sy_pending :: nat
  sy_backoff :: nat

datatype 'r sync_event =
    Change 'r
  | SubscriptionUp
  | Message bool
  | ChannelClosed
  | PauseOver bool
  | Cancel

definition maxBackoff :: nat where
  "maxBackoff = 30"

text \<open>\<open>load r v\<close> is the effect of a successful read of \<open>r\<close>; a failed one keeps the value.\<close>

definition reload :: "('r \<Rightarrow> 'v \<Rightarrow> 'v) \<Rightarrow> bool \<Rightarrow> ('r, 'v) sync \<Rightarrow> ('r, 'v) sync" where
  "reload load ok s = (if ok then s\<lparr>sy_value := load (sy_redis s) (sy_value s)\<rparr> else s)"

fun syncStep :: "('r \<Rightarrow> 'v \<Rightarrow> 'v) \<Rightarrow> 'r sync_event \<Rightarrow> ('r, 'v) sync \<Rightarrow> ('r, 'v) sync" where
  "syncStep load (Change r) s =
     s\<lparr>sy_redis := r, sy_pending := (if sy_phase s = Subscribed then Suc (sy_pending s) else sy_pending s)\<rparr>"
| "syncStep load SubscriptionUp s =
     (if sy_phase s = Subscribing then s\<lparr>sy_phase := Subscribed, sy_pending := 0\<rparr> else s)"
| "syncStep load (Message ok) s =
     (if sy_phase s = Subscribed \<and> 0 < sy_pending s then reload load ok (s\<lparr>sy_pending := sy_pending s - 1\<rparr>) else s)"
| "syncStep load ChannelClosed s =
     (if sy_phase s = Subscribed then s\<lparr>sy_phase := Pausing, sy_pending := 0\<rparr> else s)"
| "syncStep load (PauseOver ok) s =
     (if sy_phase s = Pausing then
        (let s = reload load ok s
         in s\<lparr>sy_phase := Subscribing, sy_backoff := (if sy_backoff s < maxBackoff then sy_backoff s * 2 else sy_backoff s)\<rparr>)
      else s)"
| "syncStep load Cancel s = s\<lparr>sy_phase := Ended\<rparr>"

text \<open>\<open>StartBlocklistSync\<close> and \<open>StartScanConfigSync\<close>: one load, then the goroutine.\<close>

definition startSync :: "('r \<Rightarrow> 'v \<Rightarrow> 'v) \<Rightarrow> bool \<Rightarrow> 'r \<Rightarrow> 'v \<Rightarrow> ('r, 'v) sync" where
  "startSync load ok r v =
     reload load ok \<lparr>sy_redis = r, sy_value = v, sy_phase = Subscribing, sy_pending = 0, sy_backoff = 1\<rparr>"

definition blocklistSync :: "unicode \<Rightarrow> string list sync_event \<Rightarrow> (string list, Blocklist option) sync \<Rightarrow> (string list, Blocklist option) sync" where
  "blocklistSync u = syncStep (\<lambda>members. loadBlocklist u (Some members))"

definition scanConfigSync :: "(bytes \<Rightarrow> ScanConfig option) \<Rightarrow> bytes sync_event \<Rightarrow> (bytes, Manager) sync \<Rightarrow> (bytes, Manager) sync" where
  "scanConfigSync unmarshalConfig = syncStep (\<lambda>data. loadScanConfig unmarshalConfig (RedisBytes data))"

section \<open>The interface of a loader\<close>

text \<open>What the loop relies on of \<open>load\<close>: what it leaves behind depends on the source only, as far as \<open>view\<close> shows it.\<close>

locale sync_loader =
  fixes load :: "'r \<Rightarrow> 'v \<Rightarrow> 'v"
    and fresh :: "'r \<Rightarrow> 'v \<Rightarrow> bool"
  assumes load_fresh: "fresh r (load r v)"
begin

fun steady :: "'r sync_event \<Rightarrow> bool" where
  "steady (Message ok) = ok"
| "steady ChannelClosed = False"
| "steady Cancel = False"
| "steady _ = True"

definition current :: "('r, 'v) sync \<Rightarrow> bool" where
  "current s \<longleftrightarrow> sy_phase s = Subscribed \<and> (fresh (sy_redis s) (sy_value s) \<or> 0 < sy_pending s)"

lemma current_step: "current s \<Longrightarrow> steady ev \<Longrightarrow> current (syncStep load ev s)"
  by (cases ev) (auto simp: current_def reload_def load_fresh)

lemma current_steps: "current s \<Longrightarrow> list_all steady evs \<Longrightarrow> current (fold (syncStep load) evs s)"
  by (induction evs arbitrary: s) (auto simp: current_step)

lemma drained_fresh:
  "current s \<Longrightarrow> list_all steady evs \<Longrightarrow> sy_pending (fold (syncStep load) evs s) = 0 \<Longrightarrow>
   fresh (sy_redis (fold (syncStep load) evs s)) (sy_value (fold (syncStep load) evs s))"
  using current_steps [of s evs] by (simp add: current_def)

end

interpretation bl: sync_loader "\<lambda>members. loadBlocklist u (Some members)" "\<lambda>members v. v = Some (NewBlocklist u members)" for u
  by unfold_locales (simp add: loadBlocklist_def)

interpretation cfg: sync_loader "\<lambda>data. loadScanConfig dec (RedisBytes data)"
    "\<lambda>data m. \<forall>c. dec data = Some c \<longrightarrow> m_config m = c \<and> m_maxSize m = MaxSizeBytes c" for dec
  by unfold_locales (auto simp: loadScanConfig_def SetConfig_def split: option.splits)

section \<open>Lemmas\<close>

definition backoffs :: "nat set" where
  "backoffs = {1, 2, 4, 8, 16, 32}"

lemma backoff_step: "sy_backoff s \<in> backoffs \<Longrightarrow> sy_backoff (syncStep load ev s) \<in> backoffs \<and> sy_backoff s \<le> sy_backoff (syncStep load ev s)"
  by (cases ev) (auto simp: backoffs_def maxBackoff_def reload_def)

lemma backoff_steps: "sy_backoff s \<in> backoffs \<Longrightarrow> sy_backoff (fold (syncStep load) evs s) \<in> backoffs"
  by (induction evs arbitrary: s) (auto simp: backoff_step)

section \<open>Properties\<close>

text \<open>
  While the subscription is up and reads succeed, the proxy's blocklist is never behind
  by more than the notifications still waiting: whenever all of them have been handled, it is the
  blocklist of exactly the current members of the Redis set, after any sequence of changes.
\<close>

lemma blocklist_sync_fresh:
  assumes "sy_phase s = Subscribed" "sy_value s = Some (NewBlocklist u (sy_redis s))"
    and "list_all (\<lambda>ev. case ev of Message ok \<Rightarrow> ok | ChannelClosed \<Rightarrow> False | Cancel \<Rightarrow> False | _ \<Rightarrow> True) evs"
    and "sy_pending (fold (blocklistSync u) evs s) = 0"
  shows "sy_value (fold (blocklistSync u) evs s) = Some (NewBlocklist u (sy_redis (fold (blocklistSync u) evs s)))"
proof -
  have "steady = (\<lambda>ev :: string list sync_event. case ev of Message ok \<Rightarrow> ok | ChannelClosed \<Rightarrow> False | Cancel \<Rightarrow> False | _ \<Rightarrow> True)"
    if "\<And>ev. steady ev = bl.steady ev" for steady
    using that by (auto simp: fun_eq_iff split: sync_event.split)
  then have "list_all bl.steady evs"
    using assms(3) by metis
  moreover have "bl.current u s"
    using assms(1,2) by (simp add: bl.current_def)
  ultimately show ?thesis
    using bl.drained_fresh assms(4) unfolding blocklistSync_def by blast
qed

text \<open>
  Property C39. A change made after the initial load and before the subscription is up is missed: with
  every read succeeding and no message waiting, the proxy keeps blocking by the old set until some
  later change is published.
\<close>

theorem blocklist_sync_misses_change:
  assumes "NewBlocklist u new \<noteq> NewBlocklist u old"
  shows "let s = fold (blocklistSync u) [Change new, SubscriptionUp] (startSync (\<lambda>members. loadBlocklist u (Some members)) True old None)
         in sy_phase s = Subscribed \<and> sy_pending s = 0 \<and> sy_redis s = new \<and> sy_value s = Some (NewBlocklist u old) \<and>
            sy_value s \<noteq> Some (NewBlocklist u (sy_redis s))"
  using assms by (simp add: blocklistSync_def startSync_def reload_def loadBlocklist_def Let_def)

theorem blocklist_sync_misses_change_witness:
  "sy_value (fold (blocklistSync \<lparr>uni_ToLower = id, uni_TrimSpace = id\<rparr>) [Change [''a.test''], SubscriptionUp]
     (startSync (\<lambda>members. loadBlocklist \<lparr>uni_ToLower = id, uni_TrimSpace = id\<rparr> (Some members)) True [] None)) =
   Some (NewBlocklist \<lparr>uni_ToLower = id, uni_TrimSpace = id\<rparr> [])"
proof -
  let ?u = "\<lparr>uni_ToLower = id, uni_TrimSpace = id\<rparr>"
  have norm: "normEntry ?u ''a.test'' = ''a.test''"
    by (simp add: normEntry_def ToLower_def TrimSpace_def is_ascii_def ascii_lower_def ascii_space_def)
  have "blocks (NewBlocklist ?u [''a.test'']) ''a.test''"
    by (simp add: blocks_NewBlocklist norm entryMatches_def HasPrefix_def)
  moreover have "\<not> blocks (NewBlocklist ?u []) ''a.test''"
    by (simp add: blocks_NewBlocklist)
  ultimately have "NewBlocklist ?u [''a.test''] \<noteq> NewBlocklist ?u []"
    by metis
  from blocklist_sync_misses_change [OF this] show ?thesis
    by (simp add: Let_def)
qed

text \<open>
  The pause before reconnecting doubles from one second, is never reset, and stops at 32
  seconds, above \<open>maxBackoff\<close>: after any history it is one of six values, and five lost
  connections reach the largest.
\<close>

lemma sync_backoff_exceeds_max:
  "sy_backoff (fold (syncStep load) evs (startSync load ok r v)) \<in> {1, 2, 4, 8, 16, 32} \<and>
   sy_backoff (fold (syncStep load) (concat (replicate 5 [SubscriptionUp, ChannelClosed, PauseOver True])) (startSync load ok r v)) = 32 \<and>
   maxBackoff < 32"
proof (intro conjI)
  have five: "replicate 5 x = [x, x, x, x, x]" for x :: "'a sync_event list"
    by (simp add: numeral_eq_Suc)
  show "sy_backoff (fold (syncStep load) evs (startSync load ok r v)) \<in> {1, 2, 4, 8, 16, 32}"
    using backoff_steps [of "startSync load ok r v" load evs] by (simp add: backoffs_def startSync_def reload_def)
  show "sy_backoff (fold (syncStep load) (concat (replicate 5 [SubscriptionUp, ChannelClosed, PauseOver True])) (startSync load ok r v)) = 32"
    using five by (cases ok) (simp_all add: startSync_def reload_def maxBackoff_def)
  show "maxBackoff < 32"
    by (simp add: maxBackoff_def)
qed

end
