(* ===== verification/Api_System.thy ===== *)
theory Api_System
  imports Api_Handler Config_Sync
begin

text \<open>
  The management API as a whole and its effect on the proxies.

  First the contract of the blocklist store: it implements a finite map from domains to an enabled
  flag, and Redis holds the domains whose flag is set. Then sequences of HTTP requests: whatever is
  requested, the table keeps well-formed entries. Then API, Redis and the synchronisation loop of a
  proxy together.
\<close>

section \<open>The store implements a map of flags\<close>

definition flags :: "apiStore \<Rightarrow> string \<rightharpoonup> bool" where
  "flags s = map_of (map (\<lambda>e. (en_Domain e, en_Enabled e)) (db_entries (st_db s)))"

fun spec_apply :: "store_op \<Rightarrow> (string \<rightharpoonup> bool) \<Rightarrow> (string \<rightharpoonup> bool)" where
  "spec_apply (SAdd env d c a) m = (if op_ok env \<and> m d = None then m(d \<mapsto> True) else m)"
| "spec_apply (SUpdate env d req) m =
     (case (op_ok env, m d, ur_Enabled req) of (True, Some _, Some b) \<Rightarrow> m(d \<mapsto> b) | _ \<Rightarrow> m)"
| "spec_apply (SRemove env d a c) m = (if op_ok env then m(d := None) else m)"
| "spec_apply (SSync env) m = m"

lemma flags_None_iff: "flags s d = None \<longleftrightarrow> d \<notin> en_Domain ` set (db_entries (st_db s))"
  by (simp add: flags_def map_of_eq_None_iff image_image)

lemma map_of_flags_update:
  "map_of (map (\<lambda>e. (en_Domain e, en_Enabled e)) (map (\<lambda>e. if en_Domain e = d then updateRow env req e else e) es)) =
   (case (map_of (map (\<lambda>e. (en_Domain e, en_Enabled e)) es) d, ur_Enabled req) of
      (Some _, Some b) \<Rightarrow> (map_of (map (\<lambda>e. (en_Domain e, en_Enabled e)) es))(d \<mapsto> b)
    | _ \<Rightarrow> map_of (map (\<lambda>e. (en_Domain e, en_Enabled e)) es))"
  by (induction es) (auto simp: updateRow_def fun_eq_iff split: option.splits)

lemma map_of_flags_remove:
  "map_of (map (\<lambda>e. (en_Domain e, en_Enabled e)) (filter (\<lambda>e. en_Domain e \<noteq> d) es)) =
   (map_of (map (\<lambda>e. (en_Domain e, en_Enabled e)) es))(d := None)"
  by (induction es) (auto simp: fun_eq_iff)

lemma flags_Add: "flags (snd (AddEntry env d c a s)) = spec_apply (SAdd env d c a) (flags s)"
proof (cases "op_ok env \<and> d \<notin> en_Domain ` set (db_entries (st_db s))")
  case True
  then have "flags s d = None" by (simp add: flags_None_iff)
  with True show ?thesis
    by (auto simp: AddEntry_def op_ok_def flags_def Let_def fun_eq_iff map_add_def split: option.split)
next
  case False
  then have "snd (AddEntry env d c a s) = s"
    by (auto simp: AddEntry_def op_ok_def Let_def)
  with False show ?thesis
    by (auto simp: flags_None_iff)
qed

lemma flags_Update: "flags (snd (UpdateEntry env d req s)) = spec_apply (SUpdate env d req) (flags s)"
proof (cases "find (\<lambda>e. en_Domain e = d) (db_entries (st_db s))")
  case None
  then have "flags s d = None" by (auto simp: flags_None_iff find_None_iff)
  with None show ?thesis by (simp add: UpdateEntry_def Let_def split: bool.split)
next
  case (Some e0)
  show ?thesis
  proof (cases "op_ok env")
    case True
    with Some have "db_entries (st_db (snd (UpdateEntry env d req s))) =
        map (\<lambda>e. if en_Domain e = d then updateRow env req e else e) (db_entries (st_db s))"
      by (simp add: UpdateEntry_def op_ok_def Let_def)
    with True show ?thesis
      unfolding flags_def by (simp only: map_of_flags_update spec_apply.simps prod.case bool.case split: option.split)
  next
    case False
    with Some have "snd (UpdateEntry env d req s) = s"
      by (auto simp: UpdateEntry_def op_ok_def Let_def)
    with False show ?thesis by simp
  qed
qed

lemma flags_Remove: "flags (snd (RemoveEntry env d a c s)) = spec_apply (SRemove env d a c) (flags s)"
proof (cases "op_ok env \<and> d \<in> en_Domain ` set (db_entries (st_db s))")
  case True
  then have "db_entries (st_db (snd (RemoveEntry env d a c s))) = filter (\<lambda>e. en_Domain e \<noteq> d) (db_entries (st_db s))"
    by (simp add: RemoveEntry_def op_ok_def Let_def)
  with True show ?thesis
    unfolding flags_def by (simp only: map_of_flags_remove) simp
next
  case False
  then have "snd (RemoveEntry env d a c s) = s"
    by (auto simp: RemoveEntry_def op_ok_def Let_def)
  moreover have "(flags s)(d := None) = flags s" if "op_ok env"
    using False that flags_None_iff [of s d] by auto
  ultimately show ?thesis by simp
qed

lemma flags_apply: "flags (store_apply sop s) = spec_apply sop (flags s)"
  by (cases sop) (simp_all add: flags_Add flags_Update flags_Remove del: spec_apply.simps(1-3), simp add: syncToRedis_def flags_def)

lemma flags_history: "flags (fold store_apply ops s) = fold spec_apply ops (flags s)"
  by (induction ops arbitrary: s) (simp_all add: flags_apply)

lemma flags_enabled:
  assumes "db_wf (st_db s)"
  shows "flags s d = Some True \<longleftrightarrow> d \<in> set (enabledDomains (st_db s))"
proof -
  have "distinct (map fst (map (\<lambda>e. (en_Domain e, en_Enabled e)) (db_entries (st_db s))))"
    using assms by (simp add: db_wf_def comp_def)
  then have "flags s d = Some True \<longleftrightarrow> (d, True) \<in> set (map (\<lambda>e. (en_Domain e, en_Enabled e)) (db_entries (st_db s)))"
    unfolding flags_def by (rule map_of_eq_Some_iff)
  then show ?thesis by (auto simp: enabledDomains_def)
qed

section \<open>Requests\<close>

text \<open>The notifications on the blocklist channel.\<close>

definition blMsgs :: "apiStore \<Rightarrow> (string \<times> string) list" where
  "blMsgs s = filter (\<lambda>m. fst m = redisPubSubCh) (rd_published (st_rd s))"

definition same_blocklist :: "apiStore \<Rightarrow> apiStore \<Rightarrow> bool" where
  "same_blocklist s s' \<longleftrightarrow> db_entries (st_db s') = db_entries (st_db s) \<and> rd_domains (st_rd s') = rd_domains (st_rd s) \<and> blMsgs s' = blMsgs s"

lemma same_blocklist_refl [simp]: "same_blocklist s s"
  by (simp add: same_blocklist_def)

lemma same_blocklist_config: "same_blocklist s (snd (syncScanConfigToRedis mc env (s\<lparr>st_db := db'\<rparr>)))"
  if "db_entries db' = db_entries (st_db s)"
  using that by (simp add: same_blocklist_def syncScanConfigToRedis_def publishMsg_def blMsgs_def redisPubSubCh_def scanConfigPubSubCh_def)

lemma same_blocklist_setting: "same_blocklist s (snd (UpdateScanSetting mc env k v a s))"
  by (simp add: UpdateScanSetting_def same_blocklist_config Let_def)

lemma UpdateMimeType_effect:
  obtains "snd (UpdateMimeType mc env pat en nt a s) = s"
  | db' where "snd (UpdateMimeType mc env pat en nt a s) = snd (syncScanConfigToRedis mc env (s\<lparr>st_db := db'\<rparr>))"
      "db_entries db' = db_entries (st_db s)"
proof (cases "op_stmt env \<and> find (\<lambda>m. mi_Pattern m = pat) (db_mimes (st_db s)) \<noteq> None")
  case True
  let ?db = "(st_db s)\<lparr>db_mimes := map (\<lambda>m. if mi_Pattern m = pat then updateMime env en nt a m else m) (db_mimes (st_db s))\<rparr>"
  from True have "snd (UpdateMimeType mc env pat en nt a s) = snd (syncScanConfigToRedis mc env (s\<lparr>st_db := ?db\<rparr>))"
    by (auto simp: UpdateMimeType_def Let_def split: prod.split)
  then show thesis by (rule that(2)) simp
next
  case False
  then have "snd (UpdateMimeType mc env pat en nt a s) = s"
    by (auto simp: UpdateMimeType_def Let_def)
  then show thesis by (rule that(1))
qed

lemma same_blocklist_mime: "same_blocklist s (snd (UpdateMimeType mc env pat en nt a s))"
  by (rule UpdateMimeType_effect [of mc env pat en nt a s]) (simp_all add: same_blocklist_config)

text \<open>What any request can do to the blocklist.\<close>

datatype blocklist_effect = NoEffect | Adds string string string | Updates string UpdateRequest | Removes string string string

fun effect_is :: "op_env \<Rightarrow> apiStore \<Rightarrow> apiStore \<Rightarrow> blocklist_effect \<Rightarrow> bool" where
  "effect_is env s s' NoEffect = same_blocklist s s'"
| "effect_is env s s' (Adds d c a) = (isValidDomain d \<and> s' = snd (AddEntry env d c a s))"
| "effect_is env s s' (Updates d req) = (s' = snd (UpdateEntry env d req s))"
| "effect_is env s s' (Removes d a c) = (s' = snd (RemoveEntry env d a c s))"

lemma handleAdd_effect: "\<exists>f. effect_is env s (snd (handleAdd ae env r s)) f"
proof (cases rule: handleAdd_cases [of ae env r s])
  case (reject code msg)
  then have "effect_is env s (snd (handleAdd ae env r s)) NoEffect" by simp
  then show ?thesis ..
next
  case (created j b c a e s')
  then have "effect_is env s (snd (handleAdd ae env r s)) (Adds (ToLower (ae_unicode ae) (TrimSpace (ae_unicode ae) b)) c a)"
    by simp
  then show ?thesis ..
qed

lemma case_store_result:
  "snd (case x of (Inl ErrNotFound, s') \<Rightarrow> (f1, s') | (Inl _, s') \<Rightarrow> (f2, s') | (Inr e, s') \<Rightarrow> (f3 e, s')) = snd x"
  "snd (case y of (Some ErrNotFound, s') \<Rightarrow> (f1, s') | (Some _, s') \<Rightarrow> (f2, s') | (None, s') \<Rightarrow> (f4, s')) = snd y"
  by (auto split: prod.split sum.split option.split store_error.split)

lemma handleUpdate_effect: "\<exists>f. effect_is env s (snd (handleUpdate ae env seg r s)) f"
proof -
  have "snd (handleUpdate ae env seg r s) = s \<or> (\<exists>d req. snd (handleUpdate ae env seg r s) = snd (UpdateEntry env d req s))"
    by (auto simp: handleUpdate_def case_store_result split: sum.split option.split)
  then show ?thesis
    using effect_is.simps(1,3) same_blocklist_refl by metis
qed

lemma handleRemove_effect: "\<exists>f. effect_is env s (snd (handleRemove ae env seg r s)) f"
proof -
  have "snd (handleRemove ae env seg r s) = s \<or> (\<exists>d a c. snd (handleRemove ae env seg r s) = snd (RemoveEntry env d a c s))"
    by (auto simp: handleRemove_def case_store_result Let_def split: sum.split)
  then show ?thesis
    using effect_is.simps(1,4) same_blocklist_refl by metis
qed

lemma handlePatchScanSetting_effect: "same_blocklist s (snd (handlePatchScanSetting ae env r s))"
  by (auto simp: handlePatchScanSetting_def case_store_result same_blocklist_setting split: option.split)

lemma handlePatchMimeType_effect: "same_blocklist s (snd (handlePatchMimeType ae env seg r s))"
  by (auto simp: handlePatchMimeType_def case_store_result same_blocklist_mime split: option.split)

lemma readers_keep [simp]:
  "snd (handleList ae env r s) = s" "snd (handleAudit ae env seg r s) = s"
  "snd (handleGetScanSettings ae env s) = s" "snd (handleListMimeTypes ae env r s) = s"
  by (simp_all add: handleList_def handleAudit_def handleGetScanSettings_def handleListMimeTypes_def Let_def split: sum.split)

lemma no_effect: "same_blocklist s s' \<Longrightarrow> \<exists>f. effect_is env s s' f"
  using effect_is.simps(1) by blast

lemmas handler_effects = handleAdd_effect handleUpdate_effect handleRemove_effect
  no_effect [OF handlePatchScanSetting_effect] no_effect [OF handlePatchMimeType_effect] no_effect [OF same_blocklist_refl]

lemma muxServe_effect: "\<exists>f. effect_is env s (snd (muxServe ae env r s)) f"
  unfolding muxServe_def Let_def by (simp split: if_split add: handler_effects)

lemma apiServe_effect:
  obtains f where "effect_is env s (snd (apiServe ae apiKey env r s)) f"
proof -
  have "\<exists>f. effect_is env s (snd (apiServe ae apiKey env r s)) f"
    using muxServe_effect no_effect [OF same_blocklist_refl, of env s]
    by (auto simp: apiServe_def bearerAuth_def split: prod.split)
  then show thesis using that by blast
qed

section \<open>Invariant of the API\<close>

definition entries_ok :: "apiStore \<Rightarrow> bool" where
  "entries_ok s \<longleftrightarrow> db_wf (st_db s) \<and> (\<forall>e \<in> set (db_entries (st_db s)). isValidDomain (en_Domain e))"

definition api_inv :: "apiStore \<Rightarrow> bool" where
  "api_inv s \<longleftrightarrow> entries_ok s \<and> mirrors s"

lemma same_blocklist_inv:
  assumes "same_blocklist s s'"
  shows "entries_ok s' = entries_ok s" "mirrors s' = mirrors s"
  using assms by (simp_all add: same_blocklist_def entries_ok_def api_inv_def mirrors_def db_wf_def enabledDomains_def)

lemma entries_ok_Add: "entries_ok s \<Longrightarrow> isValidDomain d \<Longrightarrow> entries_ok (snd (AddEntry env d c a s))"
  by (cases "AddEntry env d c a s") (auto elim!: AddEntry_cases simp: entries_ok_def db_wf_def)

lemma entries_ok_Update: "entries_ok s \<Longrightarrow> entries_ok (snd (UpdateEntry env d req s))"
proof -
  assume ok: "entries_ok s"
  obtain r s' where r: "UpdateEntry env d req s = (r, s')" by (cases "UpdateEntry env d req s")
  from r show ?thesis
  proof (cases rule: UpdateEntry_cases)
    case (2 e0 act)
    have "map en_Domain (db_entries (st_db s')) = map en_Domain (db_entries (st_db s))"
      using 2(4) by simp
    then have "db_wf (st_db s') = db_wf (st_db s)" "en_Domain ` set (db_entries (st_db s')) = en_Domain ` set (db_entries (st_db s))"
      unfolding db_wf_def by (simp_all flip: set_map)
    with ok r show ?thesis
      unfolding entries_ok_def ball_simps(9) [of en_Domain, symmetric] by (simp only: snd_conv simp_thms) blast
  qed (use ok r in simp)
qed

lemma entries_ok_Remove: "entries_ok s \<Longrightarrow> entries_ok (snd (RemoveEntry env d a c s))"
  by (cases "RemoveEntry env d a c s") (auto elim!: RemoveEntry_cases simp: entries_ok_def db_wf_def distinct_map_filter)

lemma apiServe_entries_ok:
  assumes "entries_ok s"
  shows "entries_ok (snd (apiServe ae apiKey env r s))"
proof -
  obtain f where f: "effect_is env s (snd (apiServe ae apiKey env r s)) f" by (rule apiServe_effect)
  then show ?thesis
    using assms by (cases f) (auto simp: same_blocklist_inv(1) entries_ok_Add entries_ok_Update entries_ok_Remove)
qed

lemma apiServe_api_inv:
  assumes "api_inv s" "op_redis env"
  shows "api_inv (snd (apiServe ae apiKey env r s))"
proof -
  have wf: "db_wf (st_db s)" "mirrors s" "entries_ok s"
    using assms(1) by (simp_all add: api_inv_def entries_ok_def)
  obtain f where "effect_is env s (snd (apiServe ae apiKey env r s)) f" by (rule apiServe_effect)
  then show ?thesis
    using apiServe_entries_ok [OF wf(3), of ae apiKey env r] assms
      mirrors_Add [OF wf(1,2) assms(2)] mirrors_Update [OF wf(1,2) assms(2)] mirrors_Remove [OF wf(1,2) assms(2)]
    by (cases f) (auto simp: same_blocklist_inv api_inv_def)
qed

text \<open>A request that sends no notification leaves the Redis set as it is.\<close>

lemma silent_Add: "blMsgs (snd (AddEntry env d c a s)) = blMsgs s \<Longrightarrow> rd_domains (st_rd (snd (AddEntry env d c a s))) = rd_domains (st_rd s)"
  by (auto simp: AddEntry_def blMsgs_def publishMsg_def Let_def split: if_splits)

lemma silent_Update: "blMsgs (snd (UpdateEntry env d req s)) = blMsgs s \<Longrightarrow> rd_domains (st_rd (snd (UpdateEntry env d req s))) = rd_domains (st_rd s)"
  by (auto simp: UpdateEntry_def blMsgs_def publishMsg_def Let_def split: if_splits option.splits)

lemma silent_Remove: "blMsgs (snd (RemoveEntry env d a c s)) = blMsgs s \<Longrightarrow> rd_domains (st_rd (snd (RemoveEntry env d a c s))) = rd_domains (st_rd s)"
  by (auto simp: RemoveEntry_def blMsgs_def publishMsg_def Let_def split: if_splits)

lemma apiServe_silent:
  assumes "blMsgs (snd (apiServe ae apiKey env r s)) = blMsgs s"
  shows "rd_domains (st_rd (snd (apiServe ae apiKey env r s))) = rd_domains (st_rd s)"
proof -
  obtain f where "effect_is env s (snd (apiServe ae apiKey env r s)) f" by (rule apiServe_effect)
  then show ?thesis
    using assms silent_Add silent_Update silent_Remove by (cases f) (auto simp: same_blocklist_def)
qed

section \<open>API, Redis and a proxy\<close>

text \<open>
  The states of an API server, the Redis set and one proxy whose subscription is up. A request either
  sends no notification, or changes the set and queues a notification for the proxy; SMEMBERS lists
  the set in any order. The proxy handles notifications at any time later.
\<close>

inductive sysReach :: "api_env \<Rightarrow> string \<Rightarrow> unicode \<Rightarrow> apiStore \<Rightarrow> (string list, Blocklist option) sync \<Rightarrow>
    apiStore \<Rightarrow> (string list, Blocklist option) sync \<Rightarrow> bool"
  for ae apiKey u s0 y0 where
  init: "sysReach ae apiKey u s0 y0 s0 y0"
| quiet: "sysReach ae apiKey u s0 y0 s y \<Longrightarrow> op_redis env \<Longrightarrow> s' = snd (apiServe ae apiKey env r s) \<Longrightarrow>
    blMsgs s' = blMsgs s \<Longrightarrow> sysReach ae apiKey u s0 y0 s' y"
| notify: "sysReach ae apiKey u s0 y0 s y \<Longrightarrow> op_redis env \<Longrightarrow> s' = snd (apiServe ae apiKey env r s) \<Longrightarrow>
    blMsgs s' \<noteq> blMsgs s \<Longrightarrow> set members = rd_domains (st_rd s') \<Longrightarrow>
    sysReach ae apiKey u s0 y0 s' (blocklistSync u (Change members) y)"
| handle: "sysReach ae apiKey u s0 y0 s y \<Longrightarrow> sysReach ae apiKey u s0 y0 s (blocklistSync u (Message True) y)"

lemma sy_redis_Message [simp]: "sy_redis (syncStep load (Message b) y) = sy_redis y"
  by (simp add: reload_def)

lemma sysReach_inv:
  assumes "sysReach ae apiKey u s0 y0 s y" "api_inv s0" "bl.current u y0" "set (sy_redis y0) = rd_domains (st_rd s0)"
  shows "api_inv s \<and> bl.current u y \<and> set (sy_redis y) = rd_domains (st_rd s)"
  using assms
proof (induction rule: sysReach.induct)
  case (quiet s y env s' r)
  then show ?case
    using apiServe_api_inv apiServe_silent by auto
next
  case (notify s y env s' r members)
  then show ?case
    using apiServe_api_inv bl.current_step [of u y "Change members"] by (auto simp: blocklistSync_def)
next
  case (handle s y)
  then show ?case
    using bl.current_step [of u y "Message True"] by (auto simp: blocklistSync_def simp del: syncStep.simps)
qed simp

lemma sysReach_blocks:
  assumes "api_inv s0" "sy_phase y0 = Subscribed" "sy_value y0 = Some (NewBlocklist u (sy_redis y0))"
    and "set (sy_redis y0) = rd_domains (st_rd s0)"
    and "sysReach ae apiKey u s0 y0 s y" "sy_pending y = 0"
  shows "IsBlocked u (sy_value y) host \<longleftrightarrow>
           (\<exists>e \<in> set (db_entries (st_db s)). en_Enabled e \<and> entryMatches (en_Domain e) (hostOf u host))"
proof -
  have "bl.current u y0" using assms(2,3) by (simp add: bl.current_def)
  then have inv: "api_inv s" "bl.current u y" "set (sy_redis y) = rd_domains (st_rd s)"
    using sysReach_inv [OF assms(5,1) _ assms(4)] by simp_all
  from inv(2) assms(6) have "sy_value y = Some (NewBlocklist u (sy_redis y))"
    by (simp add: bl.current_def)
  then have "IsBlocked u (sy_value y) host \<longleftrightarrow> (\<exists>d \<in> rd_domains (st_rd s). entryMatches (normEntry u d) (hostOf u host))"
    using inv(3) by (simp add: IsBlocked_blocks blocks_NewBlocklist)
  also have "rd_domains (st_rd s) = set (enabledDomains (st_db s))"
    using inv(1) by (simp add: api_inv_def mirrors_def)
  also have "(\<exists>d \<in> set (enabledDomains (st_db s)). entryMatches (normEntry u d) (hostOf u host)) \<longleftrightarrow>
      (\<exists>e \<in> set (db_entries (st_db s)). en_Enabled e \<and> entryMatches (normEntry u (en_Domain e)) (hostOf u host))"
    by (auto simp: enabledDomains_def)
  also have "\<dots> \<longleftrightarrow> (\<exists>e \<in> set (db_entries (st_db s)). en_Enabled e \<and> entryMatches (en_Domain e) (hostOf u host))"
    using inv(1) isValidDomain_normal by (auto simp: api_inv_def entries_ok_def normEntry_def)
  finally show ?thesis .
qed

section \<open>The scan policy in Redis\<close>

definition same_policy :: "apiStore \<Rightarrow> apiStore \<Rightarrow> bool" where
  "same_policy s s' \<longleftrightarrow> db_settings (st_db s') = db_settings (st_db s) \<and> db_mimes (st_db s') = db_mimes (st_db s) \<and>
     rd_config (st_rd s') = rd_config (st_rd s)"

definition policy_mirrored :: "(ScanConfig \<Rightarrow> bytes) \<Rightarrow> apiStore \<Rightarrow> bool" where
  "policy_mirrored mc s \<longleftrightarrow> rd_config (st_rd s) = Some (mc (buildScanConfig (st_db s)))"

lemma same_policy_mirrored: "same_policy s s' \<Longrightarrow> policy_mirrored mc s \<Longrightarrow> policy_mirrored mc s'"
  by (simp add: same_policy_def policy_mirrored_def buildScanConfig_def settingOf_def)

lemma same_policy_ops:
  "same_policy s (snd (AddEntry env d c a s))" "same_policy s (snd (UpdateEntry env d req s))" "same_policy s (snd (RemoveEntry env d a c s))"
  by (auto simp: same_policy_def AddEntry_def UpdateEntry_def RemoveEntry_def logAudit_def publishMsg_def Let_def split: option.split)

lemma policy_mirrored_sync: "op_audit env \<Longrightarrow> op_redis env \<Longrightarrow> policy_mirrored mc (snd (syncScanConfigToRedis mc env s))"
  by (simp add: syncScanConfigToRedis_def policy_mirrored_def publishMsg_def)

lemma policy_mirrored_setting:
  "op_audit env \<Longrightarrow> op_redis env \<Longrightarrow> policy_mirrored mc s \<Longrightarrow> policy_mirrored mc (snd (UpdateScanSetting mc env k v a s))"
  by (simp add: UpdateScanSetting_def policy_mirrored_sync Let_def)

lemma policy_mirrored_mime:
  "op_audit env \<Longrightarrow> op_redis env \<Longrightarrow> policy_mirrored mc s \<Longrightarrow> policy_mirrored mc (snd (UpdateMimeType mc env pat en nt a s))"
  by (rule UpdateMimeType_effect [of mc env pat en nt a s]) (simp_all add: policy_mirrored_sync)

lemma muxServe_policy:
  assumes "op_audit env" "op_redis env" "policy_mirrored (ae_marshal ae) s"
  shows "policy_mirrored (ae_marshal ae) (snd (muxServe ae env r s))"
proof -
  have ops: "policy_mirrored (ae_marshal ae) (snd (AddEntry env d c a s))" "policy_mirrored (ae_marshal ae) (snd (UpdateEntry env d req s))"
      "policy_mirrored (ae_marshal ae) (snd (RemoveEntry env d a c s))" for d c a req
    using same_policy_ops same_policy_mirrored assms(3) by blast+
  have "policy_mirrored (ae_marshal ae) (snd (handleAdd ae env r s))"
    by (cases rule: handleAdd_cases [of ae env r s]) (use assms(3) ops(1) in \<open>metis snd_conv\<close>)+
  moreover have "policy_mirrored (ae_marshal ae) (snd (handleUpdate ae env seg r s))" for seg
    by (auto simp: handleUpdate_def case_store_result ops assms(3) split: sum.split option.split)
  moreover have "policy_mirrored (ae_marshal ae) (snd (handleRemove ae env seg r s))" for seg
    by (auto simp: handleRemove_def case_store_result ops assms(3) Let_def split: sum.split)
  moreover have "policy_mirrored (ae_marshal ae) (snd (handlePatchScanSetting ae env r s))"
    by (auto simp: handlePatchScanSetting_def case_store_result policy_mirrored_setting assms split: option.split)
  moreover have "policy_mirrored (ae_marshal ae) (snd (handlePatchMimeType ae env seg r s))" for seg
    by (auto simp: handlePatchMimeType_def case_store_result policy_mirrored_mime assms split: option.split)
  ultimately show ?thesis
    unfolding muxServe_def Let_def using assms(3) by (simp split: if_split)
qed

lemma apiServe_policy:
  assumes "op_audit env" "op_redis env" "policy_mirrored (ae_marshal ae) s"
  shows "policy_mirrored (ae_marshal ae) (snd (apiServe ae apiKey env r s))"
  using muxServe_policy [OF assms] assms(3) by (simp add: apiServe_def bearerAuth_def split: prod.split)

text \<open>A POST of one domain on an empty database.\<close>

definition demoStore :: apiStore where
  "demoStore = snd (apiServe demoApiEnv [] demoOpEnv (demoAdd [] ''a.test'') emptyStore)"

lemma demoStore_facts:
  "rd_domains (st_rd demoStore) = {''a.test''}" "blMsgs demoStore = [(redisPubSubCh, ''add:a.test'')]"
  "map (\<lambda>e. (en_Domain e, en_Enabled e)) (db_entries (st_db demoStore)) = [(''a.test'', True)]"
  by code_simp+

lemma demoStore_entry:
  obtains e where "e \<in> set (db_entries (st_db demoStore))" "en_Domain e = ''a.test''" "en_Enabled e"
  using demoStore_facts(3) by (cases "db_entries (st_db demoStore)") auto

section \<open>Properties\<close>

text \<open>
  Property C12. The store implements its specification: the tables represent a map from domains to
  flags, every sequence of calls with every outcome of the database acts on that map as specified
  (add only what is absent, switch only what is present, remove), and with Redis answering the Redis
  set is exactly the set of domains whose flag is on.
\<close>

theorem store_refines_map:
  assumes "db_wf (st_db s)" "mirrors s" "\<forall>sop \<in> set ops. op_redis (store_env sop)"
  shows "flags (fold store_apply ops s) = fold spec_apply ops (flags s) \<and>
         rd_domains (st_rd (fold store_apply ops s)) = {d. fold spec_apply ops (flags s) d = Some True}"
proof -
  have "db_wf (st_db (fold store_apply ops s))" "mirrors (fold store_apply ops s)"
    using mirrors_history [OF assms] by simp_all
  then have "rd_domains (st_rd (fold store_apply ops s)) = {d. flags (fold store_apply ops s) d = Some True}"
    using flags_enabled by (auto simp: mirrors_def)
  then show ?thesis by (simp add: flags_history)
qed

theorem store_refines_map_witness:
  "rd_domains (st_rd (fold store_apply [SAdd demoOpEnv ''a.test'' [] [], SAdd demoOpEnv ''b.test'' [] [],
      SUpdate demoOpEnv ''a.test'' \<lparr>ur_Enabled = Some False, ur_Comment = None, ur_Actor = []\<rparr>] emptyStore)) = {''b.test''}"
proof -
  have e: "op_ok demoOpEnv" "op_redis demoOpEnv" "flags emptyStore = Map.empty"
    by (simp_all add: op_ok_def demoOpEnv_def flags_def emptyStore_def emptyDB_def)
  show ?thesis
    using store_refines_map [OF emptyStore_ok, of "[SAdd demoOpEnv ''a.test'' [] [], SAdd demoOpEnv ''b.test'' [] [],
        SUpdate demoOpEnv ''a.test'' \<lparr>ur_Enabled = Some False, ur_Comment = None, ur_Actor = []\<rparr>]"]
    by (auto simp: e split: if_splits)
qed

text \<open>
  Property C25. Every sequence of HTTP requests, authorised or not and with any outcome of the database
  and Redis, leaves a table in which the domains are pairwise different and each passes the domain
  check, provided the table was so at the start.
\<close>

theorem api_keeps_entries_valid:
  assumes "distinct (map en_Domain (db_entries (st_db s)))" "\<forall>e \<in> set (db_entries (st_db s)). isValidDomain (en_Domain e)"
  shows "distinct (map en_Domain (db_entries (st_db (fold (\<lambda>(env, r) s. snd (apiServe ae apiKey env r s)) rs s)))) \<and>
         (\<forall>e \<in> set (db_entries (st_db (fold (\<lambda>(env, r) s. snd (apiServe ae apiKey env r s)) rs s))). isValidDomain (en_Domain e))"
proof -
  have "entries_ok s" using assms by (simp add: entries_ok_def db_wf_def)
  then have "entries_ok (fold (\<lambda>(env, r) s. snd (apiServe ae apiKey env r s)) rs s)"
    by (induction rs arbitrary: s) (auto simp: apiServe_entries_ok)
  then show ?thesis by (simp add: entries_ok_def db_wf_def)
qed

theorem api_keeps_entries_valid_witness:
  "distinct (map en_Domain (db_entries (st_db demoStore))) \<and> isValidDomain ''a.test''"
proof -
  obtain e where "e \<in> set (db_entries (st_db demoStore))" "en_Domain e = ''a.test''"
    by (rule demoStore_entry)
  then show ?thesis
    using api_keeps_entries_valid [of emptyStore demoApiEnv "[]" "[(demoOpEnv, demoAdd [] ''a.test'')]"]
    by (auto simp: emptyStore_def emptyDB_def demoStore_def)
qed

text \<open>
  Property C2. End to end: after any interleaving of API requests (Redis answering) and notifications
  handled by a proxy whose subscription is up, once no notification waits the proxy blocks a host
  exactly when some enabled entry of the database matches it.
\<close>

theorem system_blocks_enabled:
  assumes "api_inv s0" "sy_phase y0 = Subscribed" "sy_value y0 = Some (NewBlocklist u (sy_redis y0))"
    and "set (sy_redis y0) = rd_domains (st_rd s0)"
    and "sysReach ae apiKey u s0 y0 s y" "sy_pending y = 0"
  shows "IsBlocked u (sy_value y) host \<longleftrightarrow>
           (\<exists>e \<in> set (db_entries (st_db s)). en_Enabled e \<and> entryMatches (en_Domain e) (hostOf u host))"
  using assms by (rule sysReach_blocks)

lemma blMsgs_empty: "blMsgs emptyStore = []"
  by (simp add: blMsgs_def emptyStore_def)

definition demoSync0 :: "(string list, Blocklist option) sync" where
  "demoSync0 = \<lparr>sy_redis = [], sy_value = Some (NewBlocklist (ae_unicode demoApiEnv) []), sy_phase = Subscribed, sy_pending = 0, sy_backoff = 1\<rparr>"

definition demoSync :: "(string list, Blocklist option) sync" where
  "demoSync = blocklistSync (ae_unicode demoApiEnv) (Message True) (blocklistSync (ae_unicode demoApiEnv) (Change [''a.test'']) demoSync0)"

lemma demo_reach:
  "api_inv emptyStore" "sy_phase demoSync0 = Subscribed" "sy_value demoSync0 = Some (NewBlocklist (ae_unicode demoApiEnv) (sy_redis demoSync0))"
  "set (sy_redis demoSync0) = rd_domains (st_rd emptyStore)"
  "sysReach demoApiEnv [] (ae_unicode demoApiEnv) emptyStore demoSync0 demoStore demoSync" "sy_pending demoSync = 0"
proof -
  show "api_inv emptyStore" "set (sy_redis demoSync0) = rd_domains (st_rd emptyStore)"
    using emptyStore_ok by (simp_all add: api_inv_def entries_ok_def emptyStore_def emptyDB_def demoSync0_def)
  have "sysReach demoApiEnv [] (ae_unicode demoApiEnv) emptyStore demoSync0 demoStore (blocklistSync (ae_unicode demoApiEnv) (Change [''a.test'']) demoSync0)"
    by (rule sysReach.notify [where env = demoOpEnv and r = "demoAdd [] ''a.test''", OF sysReach.init _ demoStore_def])
       (simp_all add: demoStore_facts blMsgs_empty, simp add: demoOpEnv_def)
  then show "sysReach demoApiEnv [] (ae_unicode demoApiEnv) emptyStore demoSync0 demoStore demoSync"
    unfolding demoSync_def by (rule sysReach.handle)
qed (simp_all add: demoSync_def demoSync0_def blocklistSync_def reload_def)

lemma demo_match: "entryMatches ''a.test'' (hostOf (ae_unicode demoApiEnv) ''A.test:443'')"
  by code_simp

theorem system_blocks_enabled_witness: "IsBlocked (ae_unicode demoApiEnv) (sy_value demoSync) ''A.test:443''"
proof -
  obtain e where "e \<in> set (db_entries (st_db demoStore))" "en_Domain e = ''a.test''" "en_Enabled e"
    by (rule demoStore_entry)
  then show ?thesis
    using system_blocks_enabled [OF demo_reach, of "''A.test:443''"] demo_match by auto
qed


definition demoPolicyStore :: apiStore where
  "demoPolicyStore = emptyStore
     \<lparr>st_db := emptyDB\<lparr>db_settings := [\<lparr>ss_Key = ''enabled'', ss_Value = ''true'', ss_UpdatedBy = [], ss_UpdatedAt = 0\<rparr>],
        db_mimes := [\<lparr>mi_ID = 1, mi_Pattern = ''application/zip'', mi_IsPrefix = False, mi_Enabled = True, mi_Note = [], mi_UpdatedBy = [], mi_UpdatedAt = 0\<rparr>]\<rparr>,
      st_rd := \<lparr>rd_domains = {}, rd_config = Some [], rd_published = []\<rparr>\<rparr>"

definition demoPatch :: api_request where
  "demoPatch = \<lparr>ar_method = ''PATCH'', ar_path = ''/api/v1/scan/settings'', ar_segs = [''api'', ''v1'', ''scan'', ''settings''], ar_header = [],
     ar_query = [], ar_json = Some (JObj [(''key'', JStr ''enabled''), (''value'', JStr ''false'')])\<rparr>"

definition demoPatched :: apiStore where
  "demoPatched = snd (apiServe demoApiEnv [] demoOpEnv demoPatch demoPolicyStore)"

lemma demoPatched_facts: "settingOf (st_db demoPatched) ''enabled'' = ''false''" "rd_config (st_rd demoPatched) = Some []"
  by code_simp+


end
