(* ===== verification/Cert_Authority.thy ===== *)
theory Cert_Authority
  imports Prelude
begin

text \<open>
  The certificate authority of the proxy, \<^verbatim>\<open>internal/cert/ca.go\<close>: loaded from two PEM files, or
  generated and written to them.

  The packages crypto, x509, tls and pem are parameters, collected in the record \<open>crypto\<close>:
  keys have an arbitrary type \<open>'k\<close> and a \<open>tls.Certificate\<close> an arbitrary type
  \<open>'t\<close>; \<open>None\<close> is an error of the function or, for \<open>pem.Decode\<close>, the nil
  block. A public key is given by the private key it belongs to. \<open>Certificate\<close> has the fields
  of \<open>x509.Certificate\<close> that the code sets. Times are nanoseconds since the epoch.
\<close>

section \<open>Model\<close>

datatype keyUsage = KeyUsageDigitalSignature | KeyUsageCertSign | KeyUsageCRLSign

datatype extKeyUsage = ExtKeyUsageServerAuth

record Certificate =
  x_SerialNumber :: int
  x_CommonName :: string
  x_Organization :: "string list"
  x_DNSNames :: "string list"
  x_NotBefore :: int
  x_NotAfter :: int
  x_IsCA :: bool
  x_BasicConstraintsValid :: bool
  x_KeyUsage :: "keyUsage list"
  x_ExtKeyUsage :: "extKeyUsage list"

datatype 'k anyKey = EcdsaKey 'k | OtherKey

record ('k, 't) crypto =
  cy_pemDecode :: "bytes \<Rightarrow> bytes option"
  cy_pemEncode :: "string \<Rightarrow> bytes \<Rightarrow> bytes"
  cy_ParseCertificate :: "bytes \<Rightarrow> Certificate option"
  cy_CreateCertificate :: "Certificate \<Rightarrow> Certificate \<Rightarrow> 'k \<Rightarrow> 'k \<Rightarrow> bytes option"
  cy_ParsePKCS8 :: "bytes \<Rightarrow> 'k anyKey option"
  cy_MarshalPKCS8 :: "'k \<Rightarrow> bytes option"
  cy_X509KeyPair :: "bytes \<Rightarrow> bytes \<Rightarrow> 't option"
  cy_Leaf :: "'t \<Rightarrow> Certificate"

record 'k CA =
  ca_Cert :: "Certificate option"
  ca_CertPEM :: bytes
  ca_Key :: 'k

datatype cert_error =
    ErrNoCertBlock | ErrParseCert | ErrNoKeyBlock | ErrParseKey | ErrNotECDSA
  | ErrGenerateKey | ErrSerial | ErrCreateCert | ErrMarshalKey | ErrWriteCert | ErrWriteKey
  | ErrKeyPair | ErrParseCached | PanicNilParent

text \<open>
  What one generation draws from the random source and the clock. A failed file write leaves
  whatever it leaves: \<open>Some c\<close> is a failure with \<open>c\<close> as the content of the file, if any.
\<close>

record 'k gen_env =
  ge_key :: "'k option"
  ge_serial :: "int option"
  ge_now :: int
  ge_certFailed :: "bytes option option"
  ge_keyFailed :: "bytes option option"

type_synonym files = "string \<Rightarrow> bytes option"

definition second :: int where "second = 10 ^ 9"

definition hour :: int where "hour = 3600 * second"

definition day :: int where "day = 24 * hour"

definition parsePEM :: "('k, 't) crypto \<Rightarrow> bytes \<Rightarrow> bytes \<Rightarrow> cert_error + 'k CA" where
  "parsePEM cy certPEM keyPEM =
     (case cy_pemDecode cy certPEM of
        None \<Rightarrow> Inl ErrNoCertBlock
      | Some certDER \<Rightarrow>
          (case cy_ParseCertificate cy certDER of
             None \<Rightarrow> Inl ErrParseCert
           | Some cert \<Rightarrow>
               (case cy_pemDecode cy keyPEM of
                  None \<Rightarrow> Inl ErrNoKeyBlock
                | Some keyDER \<Rightarrow>
                    (case cy_ParsePKCS8 cy keyDER of
                       None \<Rightarrow> Inl ErrParseKey
                     | Some OtherKey \<Rightarrow> Inl ErrNotECDSA
                     | Some (EcdsaKey key) \<Rightarrow> Inr \<lparr>ca_Cert = Some cert, ca_CertPEM = certPEM, ca_Key = key\<rparr>))))"

definition caTemplate :: "int \<Rightarrow> int \<Rightarrow> Certificate" where
  "caTemplate serial now =
     \<lparr>x_SerialNumber = serial, x_CommonName = ''Filter Proxy Local CA'', x_Organization = [''njm2360''], x_DNSNames = [],
      x_NotBefore = now, x_NotAfter = now + 10 * 365 * day, x_IsCA = True, x_BasicConstraintsValid = True,
      x_KeyUsage = [KeyUsageCertSign, KeyUsageCRLSign], x_ExtKeyUsage = []\<rparr>"

text \<open>\<open>os.WriteFile\<close>.\<close>

definition writeFile :: "string \<Rightarrow> bytes \<Rightarrow> bytes option option \<Rightarrow> files \<Rightarrow> bool \<times> files" where
  "writeFile path data failed fs = (case failed of None \<Rightarrow> (True, fs(path \<mapsto> data)) | Some left \<Rightarrow> (False, fs(path := left)))"

text \<open>
  \<open>generate\<close> ignores the error of its last \<open>ParseCertificate\<close>: the certificate of the
  returned CA is nil then.
\<close>

definition generateCA :: "('k, 't) crypto \<Rightarrow> 'k gen_env \<Rightarrow> string \<Rightarrow> string \<Rightarrow> files \<Rightarrow> (cert_error + 'k CA) \<times> files" where
  "generateCA cy ge certPath keyPath fs =
     (case ge_key ge of
        None \<Rightarrow> (Inl ErrGenerateKey, fs)
      | Some key \<Rightarrow>
          (case ge_serial ge of
             None \<Rightarrow> (Inl ErrSerial, fs)
           | Some serial \<Rightarrow>
               (let tmpl = caTemplate serial (ge_now ge div second * second) in
                case cy_CreateCertificate cy tmpl tmpl key key of
                  None \<Rightarrow> (Inl ErrCreateCert, fs)
                | Some certDER \<Rightarrow>
                    (let certPEM = cy_pemEncode cy ''CERTIFICATE'' certDER in
                     case cy_MarshalPKCS8 cy key of
                       None \<Rightarrow> (Inl ErrMarshalKey, fs)
                     | Some keyDER \<Rightarrow>
                         (let keyPEM = cy_pemEncode cy ''PRIVATE KEY'' keyDER;
                              (ok1, fs1) = writeFile certPath certPEM (ge_certFailed ge) fs;
                              (ok2, fs2) = writeFile keyPath keyPEM (ge_keyFailed ge) fs1
                          in if \<not> ok1 then (Inl ErrWriteCert, fs1)
                             else if \<not> ok2 then (Inl ErrWriteKey, fs2)
                             else (Inr \<lparr>ca_Cert = cy_ParseCertificate cy certDER,
                                        ca_CertPEM = certPEM, ca_Key = key\<rparr>, fs2))))))"

definition LoadOrCreate :: "('k, 't) crypto \<Rightarrow> 'k gen_env \<Rightarrow> string \<Rightarrow> string \<Rightarrow> files \<Rightarrow> (cert_error + 'k CA) \<times> files" where
  "LoadOrCreate cy ge certPath keyPath fs =
     (case (fs certPath, fs keyPath) of
        (Some certPEM, Some keyPEM) \<Rightarrow> (parsePEM cy certPEM keyPEM, fs)
      | _ \<Rightarrow> generateCA cy ge certPath keyPath fs)"

section \<open>What the code relies on in the crypto packages\<close>

text \<open>PEM encoding is decodable, and PKCS 8 encoding of an ECDSA key parses back to it.\<close>

definition pem_ok :: "('k, 't) crypto \<Rightarrow> bool" where
  "pem_ok cy \<longleftrightarrow>
     (\<forall>ty b. cy_pemDecode cy (cy_pemEncode cy ty b) = Some b) \<and>
     (\<forall>k b. cy_MarshalPKCS8 cy k = Some b \<longrightarrow> cy_ParsePKCS8 cy b = Some (EcdsaKey k))"

text \<open>
  \<open>CreateCertificate\<close> yields DER that parses back with the template's names and with its end of
  validity cut to whole seconds, as X.509 stores it; \<open>X509KeyPair\<close> keeps the certificate of the
  PEM block.
\<close>

definition x509_ok :: "('k, 't) crypto \<Rightarrow> bool" where
  "x509_ok cy \<longleftrightarrow>
     (\<forall>tmpl parent k s der. cy_CreateCertificate cy tmpl parent k s = Some der \<longrightarrow>
        (\<exists>c. cy_ParseCertificate cy der = Some c \<and> x_DNSNames c = x_DNSNames tmpl \<and>
             x_NotAfter c = x_NotAfter tmpl div second * second)) \<and>
     (\<forall>c k t. cy_X509KeyPair cy c k = Some t \<longrightarrow>
        (\<exists>der. cy_pemDecode cy c = Some der \<and> cy_ParseCertificate cy der = Some (cy_Leaf cy t)))"

section \<open>Lemmas\<close>

lemma x509_created:
  assumes "x509_ok cy" "cy_CreateCertificate cy tmpl parent k s = Some der"
  obtains c where "cy_ParseCertificate cy der = Some c" "x_DNSNames c = x_DNSNames tmpl"
    "x_NotAfter c = x_NotAfter tmpl div second * second"
  using assms unfolding x509_ok_def by blast

lemma x509_pair:
  assumes "x509_ok cy" "cy_X509KeyPair cy c k = Some t"
  obtains der where "cy_pemDecode cy c = Some der" "cy_ParseCertificate cy der = Some (cy_Leaf cy t)"
  using assms unfolding x509_ok_def by blast

lemma writeFile_cases:
  assumes "writeFile path data failed fs = (ok, fs')"
  shows "ok \<longleftrightarrow> failed = None" "ok \<Longrightarrow> fs' = fs(path \<mapsto> data)" "p \<noteq> path \<Longrightarrow> fs' p = fs p"
  using assms by (auto simp: writeFile_def split: option.splits)

lemma generateCA_Inr:
  assumes "generateCA cy ge certPath keyPath fs = (Inr ca, fs')"
  obtains key serial certDER keyDER where "ge_key ge = Some key" "ge_serial ge = Some serial"
    "cy_CreateCertificate cy (caTemplate serial (ge_now ge div second * second)) (caTemplate serial (ge_now ge div second * second)) key key = Some certDER"
    "cy_MarshalPKCS8 cy key = Some keyDER"
    "ca_CertPEM ca = cy_pemEncode cy ''CERTIFICATE'' certDER" "ca_Key ca = key"
    "ca_Cert ca = cy_ParseCertificate cy certDER"
    "fs' = fs(certPath \<mapsto> ca_CertPEM ca, keyPath \<mapsto> cy_pemEncode cy ''PRIVATE KEY'' keyDER)"
  using assms
  by (auto simp: generateCA_def writeFile_def Let_def split: option.splits)

section \<open>Properties\<close>

text \<open>
  Property C29. A generated authority survives a restart: when the first start finds no usable files and
  succeeds in creating the authority, every later start on the files it left loads the same
  certificate, the same PEM text and the same private key, and writes nothing. The two paths must differ.
\<close>

theorem ca_survives_restart:
  assumes "pem_ok cy" "x509_ok cy" "certPath \<noteq> keyPath"
    and "fs certPath = None \<or> fs keyPath = None"
    and "LoadOrCreate cy ge certPath keyPath fs = (Inr ca, fs')"
  shows "LoadOrCreate cy ge' certPath keyPath fs' = (Inr ca, fs')"
proof -
  have "generateCA cy ge certPath keyPath fs = (Inr ca, fs')"
    using assms(4,5) by (auto simp: LoadOrCreate_def split: option.splits)
  then show ?thesis
  proof (cases rule: generateCA_Inr)
    case (1 key serial certDER keyDER)
    obtain c where c: "cy_ParseCertificate cy certDER = Some c"
      using x509_created [OF assms(2) 1(3)] by blast
    have "cy_pemDecode cy (cy_pemEncode cy ty b) = Some b" for ty b
      using assms(1) by (simp add: pem_ok_def)
    moreover have "cy_ParsePKCS8 cy keyDER = Some (EcdsaKey key)"
      using assms(1) 1(4) by (simp add: pem_ok_def)
    ultimately show ?thesis
      using assms(3) 1(5-8) c by (simp add: LoadOrCreate_def parsePEM_def)
  qed
qed

text \<open>A small instance of the crypto packages: one key, and certificates by their names and second of expiry.\<close>

definition demoCert :: "string list \<Rightarrow> int \<Rightarrow> Certificate" where
  "demoCert names na = \<lparr>x_SerialNumber = 1, x_CommonName = [], x_Organization = [], x_DNSNames = names, x_NotBefore = 0, x_NotAfter = na,
     x_IsCA = False, x_BasicConstraintsValid = True, x_KeyUsage = [], x_ExtKeyUsage = []\<rparr>"

definition demoParse :: "bytes \<Rightarrow> Certificate option" where
  "demoParse b = (if b = ''ca'' then Some (demoCert [] (3650 * day)) else if b = ''leaf'' then Some (demoCert [''a.test''] (365 * day)) else None)"

definition demoCreate :: "Certificate \<Rightarrow> bytes option" where
  "demoCreate tmpl =
     (if x_DNSNames tmpl = [] \<and> x_NotAfter tmpl div second * second = 3650 * day then Some ''ca''
      else if x_DNSNames tmpl = [''a.test''] \<and> x_NotAfter tmpl div second * second = 365 * day then Some ''leaf''
      else None)"

definition demoCrypto :: "(unit, Certificate) crypto" where
  "demoCrypto = \<lparr>cy_pemDecode = Some, cy_pemEncode = (\<lambda>_ b. b), cy_ParseCertificate = demoParse,
     cy_CreateCertificate = (\<lambda>tmpl _ _ _. demoCreate tmpl), cy_ParsePKCS8 = (\<lambda>b. Some (EcdsaKey ())), cy_MarshalPKCS8 = (\<lambda>_. Some ''key''),
     cy_X509KeyPair = (\<lambda>c _. demoParse c), cy_Leaf = id\<rparr>"

definition demoGen :: "unit gen_env" where
  "demoGen = \<lparr>ge_key = Some (), ge_serial = Some 7, ge_now = 0, ge_certFailed = None, ge_keyFailed = None\<rparr>"

lemma demoCreate_parses:
  "demoCreate tmpl = Some der \<Longrightarrow>
     \<exists>c. demoParse der = Some c \<and> x_DNSNames c = x_DNSNames tmpl \<and> x_NotAfter c = x_NotAfter tmpl div second * second"
  unfolding demoCreate_def by (auto simp: demoParse_def demoCert_def split: if_split_asm)

lemma demoCrypto_ok: "pem_ok demoCrypto" "x509_ok demoCrypto"
  unfolding pem_ok_def x509_ok_def demoCrypto_def using demoCreate_parses by auto

theorem ca_survives_restart_witness:
  "\<exists>ca fs'. LoadOrCreate demoCrypto demoGen ''ca.crt'' ''ca.key'' Map.empty = (Inr ca, fs') \<and>
            LoadOrCreate demoCrypto demoGen ''ca.crt'' ''ca.key'' fs' = (Inr ca, fs')"
proof -
  have "demoCreate (caTemplate 7 (0 div second * second)) = Some ''ca''"
    by (simp add: demoCreate_def caTemplate_def day_def hour_def second_def)
  then obtain ca fs' where first: "LoadOrCreate demoCrypto demoGen ''ca.crt'' ''ca.key'' Map.empty = (Inr ca, fs')"
    unfolding LoadOrCreate_def generateCA_def demoCrypto_def demoGen_def writeFile_def Let_def by simp
  from ca_survives_restart [OF demoCrypto_ok _ _ first] have "LoadOrCreate demoCrypto demoGen ''ca.crt'' ''ca.key'' fs' = (Inr ca, fs')"
    by simp
  with first show ?thesis by blast
qed

end
