(* ===== verification/Leaf_Cert.thy ===== *)
theory Leaf_Cert
  imports Cert_Authority Result_Cache
begin

text \<open>
  Leaf certificates for intercepted hosts, \<^verbatim>\<open>internal/cert/leaf.go\<close>: the in-memory cache in
  front of Redis, generation and the TLS settings. \<open>GetCert\<close> is the handshake callback.

  A Redis lookup is the reply function \<open>rget\<close>; the commands an operation issues are returned as
  a list. The JSON codec is a parameter. The clock readings of one call are taken as one instant.
  The model splits \<open>GetCert\<close> where other goroutines can run in between: the lookup in memory,
  the part that talks to Redis and generates, and the final store in memory.
\<close>

section \<open>Model\<close>

record 't memEntry =
  me_cert :: 't
  me_expiresAt :: int

record cachedCert =
  cc_CertPEM :: bytes
  cc_KeyPEM :: bytes
  cc_NotAfterUnix :: int

record leaf_codec =
  lj_marshal :: "cachedCert \<Rightarrow> bytes option"
  lj_unmarshal :: "bytes \<Rightarrow> cachedCert option"

record 't generatedCert =
  gc_cert :: 't
  gc_certPEM :: bytes
  gc_keyPEM :: bytes
  gc_notAfter :: int

datatype leaf_cmd = LeafDel string | LeafSet string bytes int

definition redisKeyPrefix :: string where "redisKeyPrefix = ''leafcert:''"

definition memCacheMax :: int where "memCacheMax = 2000"

definition evictExpired :: "int \<Rightarrow> 't memEntry cmap \<Rightarrow> 't memEntry cmap" where
  "evictExpired now m = cm_Evict (\<lambda>e. me_expiresAt e < now) m"

definition storeLeaf :: "string \<Rightarrow> 't \<Rightarrow> int \<Rightarrow> 't memEntry cmap \<Rightarrow> 't memEntry cmap" where
  "storeLeaf domain cert notAfter m =
     (if memCacheMax \<le> snd m then m
      else cm_Add 1 (cm_Store domain \<lparr>me_cert = cert, me_expiresAt = notAfter\<rparr> m))"

definition leafDomain :: "string \<Rightarrow> string" where
  "leafDomain serverName = (if serverName = [] then ''localhost'' else serverName)"

definition leafTemplate :: "int \<Rightarrow> int \<Rightarrow> string \<Rightarrow> Certificate" where
  "leafTemplate serial now domain =
     \<lparr>x_SerialNumber = serial, x_CommonName = domain, x_Organization = [], x_DNSNames = [domain],
      x_NotBefore = now - hour, x_NotAfter = now + 365 * day, x_IsCA = False, x_BasicConstraintsValid = False,
      x_KeyUsage = [KeyUsageDigitalSignature], x_ExtKeyUsage = [ExtKeyUsageServerAuth]\<rparr>"

text \<open>\<open>Cache.generate\<close>; signing with a nil authority certificate panics.\<close>

definition generateLeaf :: "('k, 't) crypto \<Rightarrow> 'k CA \<Rightarrow> 'k gen_env \<Rightarrow> string \<Rightarrow> cert_error + 't generatedCert" where
  "generateLeaf cy ca ge domain =
     (case ge_key ge of
        None \<Rightarrow> Inl ErrGenerateKey
      | Some key \<Rightarrow>
          (case ge_serial ge of
             None \<Rightarrow> Inl ErrSerial
           | Some serial \<Rightarrow>
               (case ca_Cert ca of
                  None \<Rightarrow> Inl PanicNilParent
                | Some parent \<Rightarrow>
                    (case cy_CreateCertificate cy (leafTemplate serial (ge_now ge) domain) parent key (ca_Key ca) of
                       None \<Rightarrow> Inl ErrCreateCert
                     | Some certDER \<Rightarrow>
                         (let certPEM = cy_pemEncode cy ''CERTIFICATE'' certDER in
                          case cy_MarshalPKCS8 cy key of
                            None \<Rightarrow> Inl ErrMarshalKey
                          | Some keyDER \<Rightarrow>
                              (let keyPEM = cy_pemEncode cy ''PRIVATE KEY'' keyDER in
                               case cy_X509KeyPair cy certPEM keyPEM of
                                 None \<Rightarrow> Inl ErrKeyPair
                               | Some tlsCert \<Rightarrow>
                                   Inr \<lparr>gc_cert = tlsCert, gc_certPEM = certPEM, gc_keyPEM = keyPEM,
                                        gc_notAfter = ge_now ge + 365 * day\<rparr>))))))"

definition saveToRedis :: "leaf_codec \<Rightarrow> int \<Rightarrow> string \<Rightarrow> 't generatedCert \<Rightarrow> leaf_cmd list" where
  "saveToRedis js now key g =
     (let ttl = gc_notAfter g - now - day in
      if ttl \<le> 0 then []
      else (case lj_marshal js \<lparr>cc_CertPEM = gc_certPEM g, cc_KeyPEM = gc_keyPEM g, cc_NotAfterUnix = gc_notAfter g div second\<rparr> of
              None \<Rightarrow> []
            | Some data \<Rightarrow> [LeafSet key data ttl]))"

definition toTLS :: "('k, 't) crypto \<Rightarrow> cachedCert \<Rightarrow> cert_error + 't" where
  "toTLS cy cc = (case cy_X509KeyPair cy (cc_CertPEM cc) (cc_KeyPEM cc) of None \<Rightarrow> Inl ErrParseCached | Some t \<Rightarrow> Inr t)"

text \<open>Step 1 of \<open>GetCert\<close>: the lookup in memory.\<close>

definition memLookup :: "int \<Rightarrow> string \<Rightarrow> 't memEntry cmap \<Rightarrow> 't option \<times> 't memEntry cmap" where
  "memLookup now domain m =
     (case cm_Load domain m of
        Some e \<Rightarrow> if now + day < me_expiresAt e then (Some (me_cert e), m) else (None, cm_Drop domain m)
      | None \<Rightarrow> (None, m))"

text \<open>Steps 2 and 3: Redis, then generation. The result is the certificate and the expiry to remember.\<close>

definition fetchOrGenerate :: "('k, 't) crypto \<Rightarrow> leaf_codec \<Rightarrow> 'k CA \<Rightarrow> (string \<Rightarrow> redis_reply) \<Rightarrow> 'k gen_env \<Rightarrow> string \<Rightarrow>
    (cert_error + 't \<times> int) \<times> leaf_cmd list" where
  "fetchOrGenerate cy js ca rget ge domain =
     (let key = redisKeyPrefix @ domain;
          gen = (\<lambda>cmds. case generateLeaf cy ca ge domain of
                   Inl err \<Rightarrow> (Inl err, cmds)
                 | Inr g \<Rightarrow> (Inr (gc_cert g, gc_notAfter g), cmds @ saveToRedis js (ge_now ge) key g))
      in case rget key of
           RedisBytes data \<Rightarrow>
             (case lj_unmarshal js data of
                None \<Rightarrow> gen [LeafDel key]
              | Some cc \<Rightarrow>
                  if ge_now ge + day < cc_NotAfterUnix cc * second then
                    (case toTLS cy cc of
                       Inl err \<Rightarrow> (Inl err, [])
                     | Inr t \<Rightarrow> (Inr (t, cc_NotAfterUnix cc * second), []))
                  else gen [LeafDel key])
         | _ \<Rightarrow> gen [])"

definition GetCert :: "('k, 't) crypto \<Rightarrow> leaf_codec \<Rightarrow> 'k CA \<Rightarrow> (string \<Rightarrow> redis_reply) \<Rightarrow> 'k gen_env \<Rightarrow> string \<Rightarrow>
    't memEntry cmap \<Rightarrow> (cert_error + 't) \<times> 't memEntry cmap \<times> leaf_cmd list" where
  "GetCert cy js ca rget ge serverName m =
     (let domain = leafDomain serverName in
      case memLookup (ge_now ge) domain m of
        (Some t, m') \<Rightarrow> (Inr t, m', [])
      | (None, m') \<Rightarrow>
          (case fetchOrGenerate cy js ca rget ge domain of
             (Inl err, cmds) \<Rightarrow> (Inl err, m', cmds)
           | (Inr (t, exp), cmds) \<Rightarrow> (Inr t, storeLeaf domain t exp m', cmds)))"

definition CACertPEM :: "'k CA \<Rightarrow> bytes" where
  "CACertPEM ca = ca_CertPEM ca"

definition CACertDER :: "('k, 't) crypto \<Rightarrow> 'k CA \<Rightarrow> bytes" where
  "CACertDER cy ca = (case cy_pemDecode cy (ca_CertPEM ca) of None \<Rightarrow> [] | Some b \<Rightarrow> b)"

text \<open>\<open>TLSConfig\<close>: the oldest version and the TLS 1.2 suites by their IANA numbers.\<close>

record tls_config =
  tc_MinVersion :: "16 word"
  tc_CipherSuites :: "16 word list"
  tc_DynamicRecordSizingDisabled :: bool

definition TLSConfig :: tls_config where
  "TLSConfig = \<lparr>tc_MinVersion = 0x0303, tc_CipherSuites = [0xC02B, 0xC02F, 0xC02C, 0xC030, 0xCCA9, 0xCCA8],
     tc_DynamicRecordSizingDisabled = True\<rparr>"

section \<open>The memory cache keeps its counter\<close>

interpretation leaf: capped_cache memCacheMax "\<lambda>k e. storeLeaf k (me_cert e) (me_expiresAt e)"
proof unfold_locales
  fix s :: "'a memEntry cmap" and k k' :: string and v :: "'a memEntry"
  let ?put = "storeLeaf k (me_cert v) (me_expiresAt v) s"
  show "counted ?put" if "counted s" "cm_Load k s = None"
    using that counted_Store_new [OF that] by (simp add: storeLeaf_def)
  show "?put = s" if "memCacheMax \<le> snd s"
    using that by (simp add: storeLeaf_def)
  show "snd ?put \<le> snd s + 1" if "snd s < memCacheMax"
    by (simp add: storeLeaf_def cm_Add_def cm_Store_def cm_Delete_def)
  show "cm_Load k ?put = Some v" if "snd s < memCacheMax" "cm_Load k s = None"
    using that by (simp add: storeLeaf_def)
  show "cm_Load k' ?put = cm_Load k' s" if "k' \<noteq> k"
    using that by (simp add: storeLeaf_def)
qed

lemma storeLeaf_put: "storeLeaf d t e = storeLeaf d (me_cert \<lparr>me_cert = t, me_expiresAt = e\<rparr>) (me_expiresAt \<lparr>me_cert = t, me_expiresAt = e\<rparr>)"
  by simp

lemma leaf_within_empty: "leaf.within ([], 0)"
  unfolding leaf.within_def counted_def by (simp add: memCacheMax_def)

lemma memLookup_None:
  assumes "memLookup now d m = (None, m')"
  shows "cm_Load d m' = None" "m' = m \<or> m' = cm_Drop d m" "k \<noteq> d \<Longrightarrow> cm_Load k m' = cm_Load k m"
  using assms by (auto simp: memLookup_def split: option.splits if_splits)

lemma memLookup_within:
  assumes "leaf.within m"
  shows "leaf.within (snd (memLookup now d m))"
  using assms leaf.within_Drop [of m d] by (auto simp: memLookup_def split: option.split)

lemma GetCert_within:
  assumes "leaf.within m"
  shows "leaf.within (fst (snd (GetCert cy js ca rget ge sn m)))"
proof -
  let ?d = "leafDomain sn"
  obtain o1 m1 where look: "memLookup (ge_now ge) ?d m = (o1, m1)" by (cases "memLookup (ge_now ge) ?d m")
  with memLookup_within [OF assms, of "ge_now ge" ?d] have m1: "leaf.within m1" by simp
  show ?thesis
  proof (cases o1)
    case None
    with look have "cm_Load ?d m1 = None" by (simp add: memLookup_None)
    then have "leaf.within (storeLeaf ?d t e m1)" for t e
      using leaf.within_put [OF m1, of ?d "\<lparr>me_cert = t, me_expiresAt = e\<rparr>"] by simp
    with look None m1 show ?thesis
      by (auto simp: GetCert_def Let_def split: prod.split sum.split)
  qed (use look m1 in \<open>simp add: GetCert_def\<close>)
qed

section \<open>Histories and trusted contents\<close>

datatype 'k leaf_op =
    OpGetCert "string \<Rightarrow> redis_reply" "'k gen_env" string
  | OpEvict int

fun leaf_apply :: "('k, 't) crypto \<Rightarrow> leaf_codec \<Rightarrow> 'k CA \<Rightarrow> 'k leaf_op \<Rightarrow> 't memEntry cmap \<Rightarrow> 't memEntry cmap" where
  "leaf_apply cy js ca (OpGetCert rget ge sn) m = fst (snd (GetCert cy js ca rget ge sn m))"
| "leaf_apply cy js ca (OpEvict now) m = evictExpired now m"

definition codec_ok :: "leaf_codec \<Rightarrow> bool" where
  "codec_ok js \<longleftrightarrow> (\<forall>cc data. lj_marshal js cc = Some data \<longrightarrow> lj_unmarshal js data = Some cc)"

text \<open>Redis holds under the key of a domain only what some proxy wrote there for it.\<close>

definition leaf_redis_ok :: "('k, 't) crypto \<Rightarrow> leaf_codec \<Rightarrow> (string \<Rightarrow> redis_reply) \<Rightarrow> bool" where
  "leaf_redis_ok cy js rget \<longleftrightarrow>
     (\<forall>d data. rget (redisKeyPrefix @ d) = RedisBytes data \<longrightarrow>
        (\<exists>ca ge g ttl. generateLeaf cy ca ge d = Inr g \<and>
           LeafSet (redisKeyPrefix @ d) data ttl \<in> set (saveToRedis js (ge_now ge) (redisKeyPrefix @ d) g)))"

fun leaf_op_ok :: "('k, 't) crypto \<Rightarrow> leaf_codec \<Rightarrow> 'k leaf_op \<Rightarrow> bool" where
  "leaf_op_ok cy js (OpGetCert rget ge sn) = leaf_redis_ok cy js rget"
| "leaf_op_ok cy js (OpEvict now) = True"

text \<open>A certificate serves a domain until (the second of) a point in time.\<close>

definition serves :: "('k, 't) crypto \<Rightarrow> 't \<Rightarrow> string \<Rightarrow> int \<Rightarrow> bool" where
  "serves cy t d exp \<longleftrightarrow> d \<in> set (x_DNSNames (cy_Leaf cy t)) \<and> exp - second < x_NotAfter (cy_Leaf cy t)"

definition mem_ok :: "('k, 't) crypto \<Rightarrow> 't memEntry cmap \<Rightarrow> bool" where
  "mem_ok cy m \<longleftrightarrow> (\<forall>d e. cm_Load d m = Some e \<longrightarrow> serves cy (me_cert e) d (me_expiresAt e))"

lemma second_pos: "0 < second"
  by (simp add: second_def)

lemma second_floor: "x div second * second \<le> x" "x - second < x div second * second"
  using div_mult_mod_eq [of x second] pos_mod_bound [OF second_pos, of x] pos_mod_sign [OF second_pos, of x] by linarith+

lemma generateLeaf_Inr:
  assumes "generateLeaf cy ca ge d = Inr g"
  obtains key serial parent der where
    "cy_CreateCertificate cy (leafTemplate serial (ge_now ge) d) parent key (ca_Key ca) = Some der"
    "gc_certPEM g = cy_pemEncode cy ''CERTIFICATE'' der" "cy_X509KeyPair cy (gc_certPEM g) (gc_keyPEM g) = Some (gc_cert g)"
    "gc_notAfter g = ge_now ge + 365 * day"
  using assms by (auto simp: generateLeaf_def Let_def split: option.splits)

lemma generateLeaf_serves:
  assumes "pem_ok cy" "x509_ok cy" "generateLeaf cy ca ge d = Inr g"
  shows "serves cy (gc_cert g) d (gc_notAfter g)"
proof -
  from assms(3) show ?thesis
  proof (cases rule: generateLeaf_Inr)
    case (1 key serial parent der)
    obtain c where c: "cy_ParseCertificate cy der = Some c" "x_DNSNames c = [d]"
        "x_NotAfter c = (ge_now ge + 365 * day) div second * second"
      using x509_created [OF assms(2) 1(1)] by (auto simp: leafTemplate_def)
    obtain der' where "cy_pemDecode cy (gc_certPEM g) = Some der'" "cy_ParseCertificate cy der' = Some (cy_Leaf cy (gc_cert g))"
      using x509_pair [OF assms(2) 1(3)] by blast
    with 1(2) assms(1) c have "cy_Leaf cy (gc_cert g) = c"
      by (simp add: pem_ok_def)
    with c 1(4) second_floor(2) show ?thesis
      by (simp add: serves_def)
  qed
qed

text \<open>What a trusted Redis reply decodes to.\<close>

lemma trusted_reply:
  assumes "pem_ok cy" "x509_ok cy" "codec_ok js" "leaf_redis_ok cy js rget" "rget (redisKeyPrefix @ d) = RedisBytes data"
  obtains cc t where "lj_unmarshal js data = Some cc" "toTLS cy cc = Inr t" "serves cy t d (cc_NotAfterUnix cc * second)"
proof -
  obtain ca ge g ttl where g: "generateLeaf cy ca ge d = Inr g"
      "LeafSet (redisKeyPrefix @ d) data ttl \<in> set (saveToRedis js (ge_now ge) (redisKeyPrefix @ d) g)"
    using assms(4,5) unfolding leaf_redis_ok_def by blast
  let ?cc = "\<lparr>cc_CertPEM = gc_certPEM g, cc_KeyPEM = gc_keyPEM g, cc_NotAfterUnix = gc_notAfter g div second\<rparr>"
  have "lj_marshal js ?cc = Some data"
    using g(2) by (auto simp: saveToRedis_def Let_def split: if_splits option.splits)
  with assms(3) have dec: "lj_unmarshal js data = Some ?cc"
    by (simp add: codec_ok_def)
  have tls: "toTLS cy ?cc = Inr (gc_cert g)"
    using g(1) by (cases rule: generateLeaf_Inr) (simp add: toTLS_def)
  have "serves cy (gc_cert g) d (gc_notAfter g)"
    using assms(1,2) g(1) by (rule generateLeaf_serves)
  then have "serves cy (gc_cert g) d (cc_NotAfterUnix ?cc * second)"
    using second_floor(1) [of "gc_notAfter g"] by (simp add: serves_def)
  with dec tls show thesis by (rule that)
qed

lemma fetchOrGenerate_serves:
  assumes "pem_ok cy" "x509_ok cy" "codec_ok js" "leaf_redis_ok cy js rget"
    and "fetchOrGenerate cy js ca rget ge d = (Inr (t, exp), cmds)"
  shows "serves cy t d exp \<and> ge_now ge + day < exp"
proof -
  have gen: "serves cy (gc_cert g) d (gc_notAfter g) \<and> ge_now ge + day < gc_notAfter g" if "generateLeaf cy ca ge d = Inr g" for g
    using generateLeaf_serves [OF assms(1,2) that] that
    by (auto elim: generateLeaf_Inr simp: day_def hour_def second_def)
  show ?thesis
  proof (cases "rget (redisKeyPrefix @ d)")
    case (RedisBytes data)
    then obtain cc t' where "lj_unmarshal js data = Some cc" "toTLS cy cc = Inr t'" "serves cy t' d (cc_NotAfterUnix cc * second)"
      using trusted_reply [OF assms(1-4)] by blast
    with RedisBytes gen assms(5) show ?thesis
      by (auto simp: fetchOrGenerate_def Let_def split: if_splits sum.splits)
  qed (use gen assms(5) in \<open>auto simp: fetchOrGenerate_def Let_def split: sum.splits\<close>)
qed

lemma mem_ok_Drop: "mem_ok cy m \<Longrightarrow> mem_ok cy (cm_Drop d m)"
  by (simp add: mem_ok_def)

lemma mem_ok_store: "mem_ok cy m \<Longrightarrow> serves cy t d exp \<Longrightarrow> mem_ok cy (storeLeaf d t exp m)"
  by (simp add: mem_ok_def storeLeaf_def)

lemma GetCert_mem_ok:
  assumes "pem_ok cy" "x509_ok cy" "codec_ok js" "leaf_redis_ok cy js rget" "mem_ok cy m"
    and "GetCert cy js ca rget ge sn m = (r, m', cmds)"
  shows "mem_ok cy m' \<and> (\<forall>t. r = Inr t \<longrightarrow> (\<exists>exp. serves cy t (leafDomain sn) exp \<and> ge_now ge + day < exp))"
proof -
  let ?d = "leafDomain sn"
  obtain o1 m1 where look: "memLookup (ge_now ge) ?d m = (o1, m1)" by (cases "memLookup (ge_now ge) ?d m")
  obtain r2 cmds2 where f: "fetchOrGenerate cy js ca rget ge ?d = (r2, cmds2)" by (cases "fetchOrGenerate cy js ca rget ge ?d")
  show ?thesis
  proof (cases o1)
    case None
    have "mem_ok cy m1"
      using memLookup_None(2) [OF look [unfolded None]] assms(5) mem_ok_Drop by blast
    with None look f assms(6) fetchOrGenerate_serves [OF assms(1-4), of ca ge ?d] show ?thesis
      by (cases r2) (auto simp: GetCert_def Let_def intro: mem_ok_store)
  next
    case (Some t)
    with look obtain e where "cm_Load ?d m = Some e" "ge_now ge + day < me_expiresAt e" "t = me_cert e" "m1 = m"
      by (auto simp: memLookup_def split: option.splits if_splits)
    with Some look assms(5,6) show ?thesis
      by (auto simp: GetCert_def mem_ok_def)
  qed
qed

lemma leaf_history_mem_ok:
  assumes "pem_ok cy" "x509_ok cy" "codec_ok js" "list_all (leaf_op_ok cy js) ops" "mem_ok cy m" "leaf.within m"
  shows "mem_ok cy (fold (leaf_apply cy js ca) ops m) \<and> leaf.within (fold (leaf_apply cy js ca) ops m)"
  using assms(4-6)
proof (induction ops arbitrary: m)
  case (Cons op ops)
  have "mem_ok cy (leaf_apply cy js ca op m) \<and> leaf.within (leaf_apply cy js ca op m)"
  proof (cases op)
    case (OpGetCert rget ge sn)
    obtain r m' cmds where g: "GetCert cy js ca rget ge sn m = (r, m', cmds)" by (cases "GetCert cy js ca rget ge sn m")
    with GetCert_mem_ok [OF assms(1-3) _ Cons.prems(2) g] GetCert_within [OF Cons.prems(3), of cy js ca rget ge sn] Cons.prems(1) OpGetCert
    show ?thesis by simp
  next
    case (OpEvict now)
    have "counted m" using Cons.prems(3) by (simp add: leaf.within_def)
    then have "mem_ok cy (evictExpired now m)"
      using Cons.prems(2) by (auto simp: mem_ok_def evictExpired_def cm_Load_Evict split: option.splits if_splits)
    with OpEvict Cons.prems(3) leaf.within_Evict show ?thesis
      by (simp add: evictExpired_def)
  qed
  with Cons.IH Cons.prems(1) show ?case by simp
qed simp

section \<open>Concurrent handshakes\<close>

text \<open>
  Handshakes as goroutines over the shared memory cache. Each step is one access as other goroutines
  can see it: the load, the removal of an entry found stale, the store of what was fetched.
\<close>

datatype handshake = Looking string | Stale string | Fetching string | Finished

inductive leafStep :: "'t memEntry cmap \<times> handshake list \<Rightarrow> 't memEntry cmap \<times> handshake list \<Rightarrow> bool" where
  arrive: "leafStep (m, hs) (m, hs @ [Looking d])"
| hit: "i < length hs \<Longrightarrow> hs ! i = Looking d \<Longrightarrow> cm_Load d m = Some e \<Longrightarrow> now + day < me_expiresAt e \<Longrightarrow>
    leafStep (m, hs) (m, hs[i := Finished])"
| stale: "i < length hs \<Longrightarrow> hs ! i = Looking d \<Longrightarrow> cm_Load d m = Some e \<Longrightarrow> \<not> now + day < me_expiresAt e \<Longrightarrow>
    leafStep (m, hs) (m, hs[i := Stale d])"
| absent: "i < length hs \<Longrightarrow> hs ! i = Looking d \<Longrightarrow> cm_Load d m = None \<Longrightarrow> leafStep (m, hs) (m, hs[i := Fetching d])"
| drop: "i < length hs \<Longrightarrow> hs ! i = Stale d \<Longrightarrow> leafStep (m, hs) (cm_Drop d m, hs[i := Fetching d])"
| store: "i < length hs \<Longrightarrow> hs ! i = Fetching d \<Longrightarrow> leafStep (m, hs) (storeLeaf d t exp m, hs[i := Finished])"
| fail: "i < length hs \<Longrightarrow> hs ! i = Fetching d \<Longrightarrow> leafStep (m, hs) (m, hs[i := Finished])"
| evict: "leafStep (m, hs) (evictExpired now m, hs)"

abbreviation leafRun :: "'t memEntry cmap \<times> handshake list \<Rightarrow> 't memEntry cmap \<times> handshake list \<Rightarrow> bool" where
  "leafRun \<equiv> leafStep\<^sup>*\<^sup>*"

text \<open>A handshake that meets no other goroutine behaves like \<open>memLookup\<close> followed by the store.\<close>

lemma alone_lookup:
  assumes "i < length hs" "hs ! i = Looking d" "memLookup now d m = (None, m')"
  shows "leafRun (m, hs) (m', hs[i := Fetching d])"
proof (cases "cm_Load d m")
  case None
  with assms show ?thesis
    by (auto simp: memLookup_def intro: leafStep.absent)
next
  case (Some e)
  with assms have e: "\<not> now + day < me_expiresAt e" "m' = cm_Drop d m"
    by (auto simp: memLookup_def split: if_splits)
  have "leafStep (m, hs) (m, hs[i := Stale d])"
    using assms(1,2) Some e(1) by (rule leafStep.stale)
  moreover have "leafStep (m, hs[i := Stale d]) (m', hs[i := Fetching d])"
    using leafStep.drop [of i "hs[i := Stale d]" d m] assms(1) e(2) by simp
  ultimately show ?thesis by (meson r_into_rtranclp rtranclp.rtrancl_into_rtrancl)
qed

lemma run_step: "leafRun x y \<Longrightarrow> leafStep y z \<Longrightarrow> leafRun x z"
  by (rule rtranclp.rtrancl_into_rtrancl)

lemma list_update_last2: "(hs @ [a, b])[length hs := x] = hs @ [x, b]" "(hs @ [a, b])[Suc (length hs) := y] = hs @ [a, y]"
  by (simp_all add: list_update_append)

lemma nth_last2: "(hs @ [a, b]) ! length hs = a" "(hs @ [a, b]) ! Suc (length hs) = b"
  by (simp_all add: nth_append)

lemmas last2 = list_update_last2 nth_last2

text \<open>Rounds of two handshakes on the last two places of the list.\<close>

lemma two_arrive: "leafRun x (m, hs) \<Longrightarrow> leafRun x (m, hs @ [Looking d, Looking d])"
  using run_step [OF run_step, OF _ leafStep.arrive [of m hs d] leafStep.arrive [of m "hs @ [Looking d]" d]] by simp

lemma two_absent:
  assumes "leafRun x (m, hs @ [Looking d, Looking d])" "cm_Load d m = None"
  shows "leafRun x (m, hs @ [Fetching d, Fetching d])"
proof -
  have "leafStep (m, hs @ [Looking d, Looking d]) (m, hs @ [Fetching d, Looking d])"
    using leafStep.absent [of "length hs" "hs @ [Looking d, Looking d]" d m] assms(2) by (simp add: last2)
  moreover have "leafStep (m, hs @ [Fetching d, Looking d]) (m, hs @ [Fetching d, Fetching d])"
    using leafStep.absent [of "Suc (length hs)" "hs @ [Fetching d, Looking d]" d m] assms(2) by (simp add: last2)
  ultimately show ?thesis using assms(1) run_step by blast
qed

lemma two_stale:
  assumes "leafRun x (m, hs @ [Looking d, Looking d])" "cm_Load d m = Some e" "\<not> now + day < me_expiresAt e"
  shows "leafRun x (cm_Drop d (cm_Drop d m), hs @ [Fetching d, Fetching d])"
proof -
  have "leafStep (m, hs @ [Looking d, Looking d]) (m, hs @ [Stale d, Looking d])"
    using leafStep.stale [of "length hs" "hs @ [Looking d, Looking d]" d m e now] assms(2,3) by (simp add: last2)
  moreover have "leafStep (m, hs @ [Stale d, Looking d]) (m, hs @ [Stale d, Stale d])"
    using leafStep.stale [of "Suc (length hs)" "hs @ [Stale d, Looking d]" d m e now] assms(2,3) by (simp add: last2)
  moreover have "leafStep (m, hs @ [Stale d, Stale d]) (cm_Drop d m, hs @ [Fetching d, Stale d])"
    using leafStep.drop [of "length hs" "hs @ [Stale d, Stale d]" d m] by (simp add: last2)
  moreover have "leafStep (cm_Drop d m, hs @ [Fetching d, Stale d]) (cm_Drop d (cm_Drop d m), hs @ [Fetching d, Fetching d])"
    using leafStep.drop [of "Suc (length hs)" "hs @ [Fetching d, Stale d]" d "cm_Drop d m"] by (simp add: last2)
  ultimately show ?thesis using assms(1) run_step by blast
qed

lemma two_store:
  assumes "leafRun x (m, hs @ [Fetching d, Fetching d])"
  shows "leafRun x (storeLeaf d t2 e2 (storeLeaf d t1 e1 m), hs @ [Finished, Finished])"
proof -
  have "leafStep (m, hs @ [Fetching d, Fetching d]) (storeLeaf d t1 e1 m, hs @ [Finished, Fetching d])"
    using leafStep.store [of "length hs" "hs @ [Fetching d, Fetching d]" d m t1 e1] by (simp add: last2)
  moreover have "leafStep (storeLeaf d t1 e1 m, hs @ [Finished, Fetching d]) (storeLeaf d t2 e2 (storeLeaf d t1 e1 m), hs @ [Finished, Finished])"
    using leafStep.store [of "Suc (length hs)" "hs @ [Finished, Fetching d]" d "storeLeaf d t1 e1 m" t2 e2] by (simp add: last2)
  ultimately show ?thesis using assms run_step by blast
qed

lemma two_fail:
  assumes "leafRun x (m, hs @ [Fetching d, Fetching d])"
  shows "leafRun x (m, hs @ [Finished, Finished])"
proof -
  have "leafStep (m, hs @ [Fetching d, Fetching d]) (m, hs @ [Finished, Fetching d])"
    using leafStep.fail [of "length hs" "hs @ [Fetching d, Fetching d]" d m] by (simp add: last2)
  moreover have "leafStep (m, hs @ [Finished, Fetching d]) (m, hs @ [Finished, Finished])"
    using leafStep.fail [of "Suc (length hs)" "hs @ [Finished, Fetching d]" d m] by (simp add: last2)
  ultimately show ?thesis using assms run_step by blast
qed

text \<open>
  Two handshakes for the same new domain, then a sweep: the counter has gained one. Two more that
  find the doubly counted entry stale take two off for one entry.
\<close>

lemma two_new:
  assumes "leafRun x (([], c) :: 't memEntry cmap, hs)"
  shows "leafRun x (storeLeaf [] t 0 (storeLeaf [] t 0 ([], c)), hs @ [Finished, Finished])"
  using two_store [OF two_absent [OF two_arrive [OF assms]]] by (simp add: cm_Load_def)

lemma storeLeaf_twice:
  "c + 1 < memCacheMax \<Longrightarrow> storeLeaf [] t 0 (storeLeaf [] t 0 ([], c)) = ([([], \<lparr>me_cert = t, me_expiresAt = 0\<rparr>)], c + 2)"
  by (simp add: storeLeaf_def cm_Add_def cm_Store_def cm_Delete_def)

lemma round_up:
  fixes x :: "'t memEntry cmap \<times> handshake list"
  assumes "leafRun x (([], c), hs)" "c + 1 < memCacheMax"
  shows "\<exists>hs'. leafRun x (([], c + 1), hs')"
proof -
  obtain t :: 't where True by blast
  have "leafRun x (evictExpired 1 (storeLeaf [] t 0 (storeLeaf [] t 0 ([], c))), hs @ [Finished, Finished])"
    using two_new [OF assms(1), of t] leafStep.evict by (rule run_step)
  moreover have "evictExpired 1 (storeLeaf [] t 0 (storeLeaf [] t 0 ([], c))) = ([], c + 1)"
    unfolding storeLeaf_twice [OF assms(2)] by (simp add: evictExpired_def cm_Evict_def cm_Drop_def cm_Add_def cm_Delete_def)
  ultimately show ?thesis by auto
qed

lemma round_down:
  fixes x :: "'t memEntry cmap \<times> handshake list"
  assumes "leafRun x (([], c), hs)" "c < memCacheMax"
  shows "\<exists>hs'. leafRun x (([], c - 1), hs')"
proof -
  obtain t :: 't where True by blast
  let ?m = "([([], \<lparr>me_cert = t, me_expiresAt = 0\<rparr>)], c + 1)"
  have s: "storeLeaf [] t 0 ([], c) = ?m"
    using assms(2) by (simp add: storeLeaf_def cm_Add_def cm_Store_def cm_Delete_def)
  have "leafRun x (([], c), hs @ [Looking []])"
    using assms(1) leafStep.arrive by (rule run_step)
  then have "leafRun x (([], c), hs @ [Fetching []])"
    using leafStep.absent [of "length hs" "hs @ [Looking []]" "[]" "([], c)"] by (auto simp: cm_Load_def intro: run_step)
  then have "leafRun x (?m, hs @ [Finished])"
    using leafStep.store [of "length hs" "hs @ [Fetching []]" "[]" "([], c)" t 0] by (auto simp: s intro: run_step)
  from two_fail [OF two_stale [OF two_arrive [OF this], of "[]" "\<lparr>me_cert = t, me_expiresAt = 0\<rparr>" 0]]
  have "leafRun x (cm_Drop [] (cm_Drop [] ?m), (hs @ [Finished]) @ [Finished, Finished])"
    by (simp add: cm_Load_def day_def hour_def second_def)
  moreover have "cm_Drop [] (cm_Drop [] ?m) = ([], c - 1)"
    by (simp add: cm_Drop_def cm_Add_def cm_Delete_def)
  ultimately show ?thesis by auto
qed

lemma rounds_up:
  assumes "int n < memCacheMax"
  shows "\<exists>hs. leafRun (([], 0) :: 't memEntry cmap, []) (([], int n), hs)"
  using assms
proof (induction n)
  case (Suc n)
  then obtain hs where "leafRun (([], 0) :: 't memEntry cmap, []) (([], int n), hs)" by auto
  from round_up [OF this] Suc.prems show ?case by (simp add: add.commute)
qed auto

lemma rounds_down: "\<exists>hs. leafRun (([], 0) :: 't memEntry cmap, []) (([], - int n), hs)"
proof (induction n)
  case (Suc n)
  then obtain hs where "leafRun (([], 0) :: 't memEntry cmap, []) (([], - int n), hs)" by auto
  from round_down [OF this] have "\<exists>hs. leafRun (([], 0) :: 't memEntry cmap, []) (([], - int n - 1), hs)"
    by (simp add: memCacheMax_def)
  moreover have "- int n - 1 = - int (Suc n)" by simp
  ultimately show ?case by (simp only:)
qed auto

section \<open>Properties\<close>

text \<open>
  Property C14. Whatever handshakes and sweeps came before, a certificate that \<open>GetCert\<close> returns
  names the requested domain and stays valid for more than 24 hours less one second, whether it comes
  from memory, from Redis or is new. Redis is taken to hold only what proxies wrote.
\<close>

theorem getcert_valid:
  assumes "pem_ok cy" "x509_ok cy" "codec_ok js" "list_all (leaf_op_ok cy js) ops" "leaf_redis_ok cy js rget"
    and "GetCert cy js ca rget ge sn (fold (leaf_apply cy js ca) ops ([], 0)) = (Inr t, m', cmds)"
  shows "leafDomain sn \<in> set (x_DNSNames (cy_Leaf cy t)) \<and> ge_now ge + day - second < x_NotAfter (cy_Leaf cy t)"
proof -
  have "mem_ok cy ([], 0)"
    by (simp add: mem_ok_def cm_Load_def)
  then have "mem_ok cy (fold (leaf_apply cy js ca) ops ([], 0))"
    using leaf_history_mem_ok [OF assms(1-4)] leaf_within_empty by blast
  from GetCert_mem_ok [OF assms(1-3,5) this assms(6)] obtain exp where
    "serves cy t (leafDomain sn) exp" "ge_now ge + day < exp" by blast
  then show ?thesis by (simp add: serves_def)
qed

definition demoCC :: cachedCert where
  "demoCC = \<lparr>cc_CertPEM = ''leaf'', cc_KeyPEM = ''key'', cc_NotAfterUnix = 365 * day div second\<rparr>"

definition demoCodec :: leaf_codec where
  "demoCodec = \<lparr>lj_marshal = (\<lambda>cc. if cc = demoCC then Some ''json'' else None),
     lj_unmarshal = (\<lambda>b. if b = ''json'' then Some demoCC else None)\<rparr>"

definition demoCA :: "unit CA" where
  "demoCA = \<lparr>ca_Cert = Some (demoCert [] (3650 * day)), ca_CertPEM = ''ca'', ca_Key = ()\<rparr>"

definition demoLeaf :: Certificate where
  "demoLeaf = demoCert [''a.test''] (365 * day)"

lemma demoCodec_ok: "codec_ok demoCodec"
  by (simp add: codec_ok_def demoCodec_def split: if_split)

lemma demo_generate:
  "generateLeaf demoCrypto demoCA demoGen ''a.test'' =
     Inr \<lparr>gc_cert = demoLeaf, gc_certPEM = ''leaf'', gc_keyPEM = ''key'', gc_notAfter = 365 * day\<rparr>"
proof -
  have "demoCreate (leafTemplate 7 0 ''a.test'') = Some ''leaf''"
    by (simp add: demoCreate_def leafTemplate_def day_def hour_def second_def)
  then show ?thesis
    unfolding generateLeaf_def demoCrypto_def demoCA_def demoGen_def Let_def
    by (simp add: demoParse_def demoLeaf_def)
qed

lemma demo_save:
  "saveToRedis demoCodec 0 ''leafcert:a.test'' \<lparr>gc_cert = demoLeaf, gc_certPEM = ''leaf'', gc_keyPEM = ''key'', gc_notAfter = 365 * day\<rparr> =
     [LeafSet ''leafcert:a.test'' ''json'' (364 * day)]"
  by (simp add: saveToRedis_def demoCodec_def demoCC_def day_def hour_def second_def)

lemma demo_GetCert:
  "GetCert demoCrypto demoCodec demoCA (\<lambda>_. RedisNil) demoGen ''a.test'' ([], 0) =
     (Inr demoLeaf, storeLeaf ''a.test'' demoLeaf (365 * day) ([], 0), [LeafSet ''leafcert:a.test'' ''json'' (364 * day)])"
proof -
  have "ge_now demoGen = 0" by (simp add: demoGen_def)
  then show ?thesis
    by (simp add: GetCert_def fetchOrGenerate_def demo_generate demo_save leafDomain_def memLookup_def cm_Load_def redisKeyPrefix_def Let_def)
qed

theorem getcert_valid_witness: "''a.test'' \<in> set (x_DNSNames demoLeaf) \<and> day - second < x_NotAfter demoLeaf"
proof -
  have "leaf_redis_ok demoCrypto demoCodec (\<lambda>_. RedisNil)"
    by (simp add: leaf_redis_ok_def)
  with getcert_valid [OF demoCrypto_ok demoCodec_ok, of "[]" "\<lambda>_. RedisNil" demoCA demoGen "''a.test''" demoLeaf] demo_GetCert
  show ?thesis by (simp add: leafDomain_def demoCrypto_def demoGen_def)
qed

text \<open>
  In any sequence of handshakes and sweeps the counter of the memory cache is the number
  of its entries and never exceeds 2000.
\<close>

lemma leaf_cache_bounded:
  "snd (fold (leaf_apply cy js ca) ops ([], 0)) = int (length (fst (fold (leaf_apply cy js ca) ops ([], 0)))) \<and>
   snd (fold (leaf_apply cy js ca) ops ([], 0)) \<le> 2000"
proof -
  have step: "leaf.within (leaf_apply cy js ca op m)" if "leaf.within m" for op m
    using GetCert_within [OF that] leaf.within_Evict [OF that] by (cases op) (auto simp: evictExpired_def)
  have "leaf.within (fold (leaf_apply cy js ca) ops m)" if "leaf.within m" for m
    using that by (induction ops arbitrary: m) (auto simp: step)
  from this [OF leaf_within_empty] show ?thesis
    unfolding leaf.within_def counted_def by (simp add: memCacheMax_def)
qed

text \<open>
  Property C30. A certificate generated by one proxy is the one another proxy serves from Redis: the
  payload written by the first handshake, read back more than 24 hours before its expiry, gives the
  same certificate, is remembered, and writes nothing.
\<close>

theorem leaf_shared_through_redis:
  assumes "codec_ok js" "cm_Load (leafDomain sn) m = None" "rget (redisKeyPrefix @ leafDomain sn) = RedisNil"
    and "GetCert cy js ca rget ge sn m = (Inr t, m1, [LeafSet key data ttl])"
    and "cm_Load (leafDomain sn) m2 = None" "rget' key = RedisBytes data"
    and "ge_now ge' + day < (ge_now ge + 365 * day) div second * second"
  shows "key = redisKeyPrefix @ leafDomain sn \<and>
         GetCert cy js ca' rget' ge' sn m2 = (Inr t, storeLeaf (leafDomain sn) t ((ge_now ge + 365 * day) div second * second) m2, [])"
proof -
  let ?d = "leafDomain sn"
  have look: "memLookup now ?d m = (None, m)" "memLookup now ?d m2 = (None, m2)" for now
    using assms(2,5) by (simp_all add: memLookup_def)
  obtain g where g: "generateLeaf cy ca ge ?d = Inr g" "gc_cert g = t"
      "saveToRedis js (ge_now ge) (redisKeyPrefix @ ?d) g = [LeafSet key data ttl]"
    using assms(3,4) look(1)
    by (auto simp: GetCert_def fetchOrGenerate_def Let_def split: sum.splits)
  let ?cc = "\<lparr>cc_CertPEM = gc_certPEM g, cc_KeyPEM = gc_keyPEM g, cc_NotAfterUnix = gc_notAfter g div second\<rparr>"
  have key: "key = redisKeyPrefix @ ?d" and "lj_marshal js ?cc = Some data"
    using g(3) by (auto simp: saveToRedis_def Let_def split: if_splits option.splits)
  with assms(1) have dec: "lj_unmarshal js data = Some ?cc"
    by (simp add: codec_ok_def)
  from g(1) have "toTLS cy ?cc = Inr t" "gc_notAfter g = ge_now ge + 365 * day"
    using g(2) by (auto elim: generateLeaf_Inr simp: toTLS_def)
  with key dec assms(6,7) look(2) show ?thesis
    by (simp add: GetCert_def fetchOrGenerate_def Let_def)
qed

theorem leaf_shared_through_redis_witness:
  "GetCert demoCrypto demoCodec demoCA (\<lambda>_. RedisBytes ''json'') demoGen ''a.test'' ([], 0) =
     (Inr demoLeaf, storeLeaf ''a.test'' demoLeaf (365 * day) ([], 0), [])"
proof -
  have e: "leafDomain ''a.test'' = ''a.test''" "cm_Load ''a.test'' ([], 0) = None" "ge_now demoGen = 0"
    by (simp_all add: leafDomain_def cm_Load_def demoGen_def)
  have n: "day < 365 * day div second * second" "365 * day div second * second = 365 * day"
    by (simp_all add: day_def hour_def second_def)
  show ?thesis
    using leaf_shared_through_redis [OF demoCodec_ok _ _ demo_GetCert, of "([], 0)" "\<lambda>_. RedisBytes ''json''" demoGen demoCA] n
    by (simp add: e)
qed



end
