(* ===== verification/Entry_Points.thy ===== *)
theory Entry_Points
  imports Leaf_Cert Proxy_Server Sender Config_Sync Api_Handler
begin

text \<open>
  The two programs, \<^verbatim>\<open>cmd/proxy/main.go\<close> and \<^verbatim>\<open>cmd/api/main.go\<close>: reading the
  environment, the checks that end the process with status 1, and the wiring of the components.

  The operating system is a parameter: environment, temporary directory and file reads, and whether
  \<open>redis.ParseURL\<close> accepts a URL.
  \<open>Lifecycle\<close> has what follows the start.
\<close>

section \<open>Configuration\<close>

record os_env =
  os_Getenv :: "string \<Rightarrow> string"
  os_redisURL :: "string \<Rightarrow> bool"
  os_MkdirAll :: "string \<Rightarrow> bool"
  os_files :: files

definition envOr :: "os_env \<Rightarrow> string \<Rightarrow> string \<Rightarrow> string" where
  "envOr os key dflt = (let v = os_Getenv os key in if v \<noteq> [] then v else dflt)"

definition mustEnv :: "os_env \<Rightarrow> string \<Rightarrow> string option" where
  "mustEnv os key = (let v = os_Getenv os key in if v = [] then None else Some v)"

text \<open>\<open>None\<close> is the error for an address with another scheme.\<close>

definition parseClamdAddr :: "string \<Rightarrow> (string \<times> string) option" where
  "parseClamdAddr addr =
     (if HasPrefix addr ''unix://'' then Some (''unix'', TrimPrefix addr ''unix://'')
      else if HasPrefix addr ''tcp://'' then Some (''tcp'', TrimPrefix addr ''tcp://'')
      else None)"

datatype start_error =
    CAFailed | InvalidRedisURL | InvalidClamdAddr | TempDirFailed | PacFailed | EnvMissing | StoreFailed

text \<open>\<open>time.Duration(n) * unit\<close> with the 64-bit product.\<close>

definition minutes :: "int \<Rightarrow> int" where
  "minutes n = wrap64 (n * (60 * second))"

definition hours :: "int \<Rightarrow> int" where
  "hours n = wrap64 (n * hour)"

text \<open>The scan manager of the proxy and the address of clamd, when CLAMD\_ADDR is set.\<close>

definition buildScan :: "os_env \<Rightarrow> start_error + (Manager \<times> string \<times> string) option" where
  "buildScan os =
     (let clamdAddr = envOr os ''CLAMD_ADDR'' [] in
      if clamdAddr = [] then Inr None
      else (case parseClamdAddr clamdAddr of
              None \<Rightarrow> Inl InvalidClamdAddr
            | Some (network, address) \<Rightarrow>
                (let ttlMin = ParseInt (envOr os ''SCAN_TTL_MINUTES'' ''60'');
                     tempDir = envOr os ''SCAN_TEMP_DIR'' ''/tmp/log-proxy-scan''
                 in if \<not> os_MkdirAll os tempDir then Inl TempDirFailed
                    else
                      (let urlTTLMin = ParseInt (envOr os ''SCAN_CACHE_URL_TTL_MINUTES'' ''60'');
                           hashTTLHrs = ParseInt (envOr os ''SCAN_CACHE_HASH_TTL_HOURS'' ''24'');
                           maxEntries = ParseInt (envOr os ''SCAN_CACHE_MAX_ENTRIES'' ''10000'');
                           resultCache = NewResultCache (minutes urlTTLMin) (hours hashTTLHrs) maxEntries True;
                           mgr = NewManager tempDir (minutes ttlMin) (MaxSizeBytes DefaultScanConfig) (Some resultCache)
                       in Inr (Some (mgr, network, address))))))"

record 'k proxy_config =
  px_listen :: string
  px_ca :: "'k CA"
  px_server :: Server
  px_clamd :: "(string \<times> string) option"
  px_syslog :: "(string \<times> string) option"

text \<open>\<open>main\<close> of the proxy up to the listening server, with the files it leaves.\<close>

definition proxyMain :: "('k, 't) crypto \<Rightarrow> 'k gen_env \<Rightarrow> os_env \<Rightarrow> (start_error + 'k proxy_config) \<times> files" where
  "proxyMain cy ge os =
     (let listenAddr = envOr os ''LISTEN_ADDR'' '':8080'';
          caCertPath = envOr os ''CA_CERT'' ''ca.crt'';
          caKeyPath = envOr os ''CA_KEY'' ''ca.key'';
          redisURL = envOr os ''REDIS_URL'' ''redis://localhost:6379'';
          syslogNet = envOr os ''SYSLOG_NET'' ''udp'';
          syslogAddr = envOr os ''SYSLOG_ADDR'' [];
          pacFilePath = envOr os ''PAC_FILE'' []
      in case LoadOrCreate cy ge caCertPath caKeyPath (os_files os) of
           (Inl _, fs) \<Rightarrow> (Inl CAFailed, fs)
         | (Inr ca, fs) \<Rightarrow>
             (if \<not> os_redisURL os redisURL then Inl InvalidRedisURL
              else (case buildScan os of
                      Inl err \<Rightarrow> Inl err
                    | Inr scan \<Rightarrow>
                        if pacFilePath \<noteq> [] \<and> fs pacFilePath = None then Inl PacFailed
                        else
                          (let pac = (if pacFilePath = [] then None else fs pacFilePath);
                               sender = (if syslogAddr = [] then None else Some (syslogNet, syslogAddr))
                           in Inr \<lparr>px_listen = listenAddr, px_ca = ca,
                                   px_server = NewServer (CACertPEM ca) (CACertDER cy ca) (sender \<noteq> None) None (map_option fst scan) pac,
                                   px_clamd = map_option snd scan, px_syslog = sender\<rparr>)), fs))"

record api_config =
  ac_listen :: string
  ac_apiKey :: string
  ac_store :: apiStore

text \<open>\<open>main\<close> of the API; \<open>newStore\<close> is \<open>NewStore\<close> on the database behind a URL.\<close>

definition apiMain :: "(string \<Rightarrow> apiStore option) \<Rightarrow> os_env \<Rightarrow> start_error + api_config" where
  "apiMain newStore os =
     (let listenAddr = envOr os ''LISTEN_ADDR'' '':8080'' in
      case mustEnv os ''DATABASE_URL'' of
        None \<Rightarrow> Inl EnvMissing
      | Some pgURL \<Rightarrow>
          (let redisURL = envOr os ''REDIS_URL'' ''redis://localhost:6379'';
               apiKey = envOr os ''API_KEY'' []
           in if \<not> os_redisURL os redisURL then Inl InvalidRedisURL
              else (case newStore pgURL of
                      None \<Rightarrow> Inl StoreFailed
                    | Some store \<Rightarrow> Inr \<lparr>ac_listen = listenAddr, ac_apiKey = apiKey, ac_store = store\<rparr>)))"

section \<open>Lemmas\<close>

lemma HasPrefix_TrimPrefix: "HasPrefix s p \<and> TrimPrefix s p = t \<longleftrightarrow> s = p @ t"
proof
  assume "HasPrefix s p \<and> TrimPrefix s p = t"
  then show "s = p @ t"
    using append_take_drop_id [of "length p" s] by (auto simp: HasPrefix_def TrimPrefix_def)
qed simp

lemma parseClamdAddr_iff:
  "parseClamdAddr addr = Some (network, address) \<longleftrightarrow>
     (network = ''unix'' \<and> addr = ''unix://'' @ address) \<or> (network = ''tcp'' \<and> addr = ''tcp://'' @ address)"
proof -
  have "\<not> (HasPrefix addr ''unix://'' \<and> HasPrefix addr ''tcp://'')"
    by (cases addr) (auto simp: HasPrefix_def)
  then show ?thesis
    unfolding parseClamdAddr_def HasPrefix_TrimPrefix [symmetric] by (cases "HasPrefix addr ''unix://''") auto
qed

lemma parseClamdAddr_ok: "parseClamdAddr a \<noteq> None \<longleftrightarrow> (\<exists>address. a = ''unix://'' @ address \<or> a = ''tcp://'' @ address)"
proof -
  have "parseClamdAddr a \<noteq> None \<longleftrightarrow> (\<exists>network address. parseClamdAddr a = Some (network, address))"
    by (cases "parseClamdAddr a") auto
  then show ?thesis
    unfolding parseClamdAddr_iff by blast
qed

lemma buildScan_cases:
  obtains "os_Getenv os ''CLAMD_ADDR'' = []" "buildScan os = Inr None"
  | err where "os_Getenv os ''CLAMD_ADDR'' \<noteq> []" "buildScan os = Inl err"
      "parseClamdAddr (os_Getenv os ''CLAMD_ADDR'') = None \<or> \<not> os_MkdirAll os (envOr os ''SCAN_TEMP_DIR'' ''/tmp/log-proxy-scan'')"
  | m na where "os_Getenv os ''CLAMD_ADDR'' \<noteq> []" "parseClamdAddr (os_Getenv os ''CLAMD_ADDR'') = Some na"
      "os_MkdirAll os (envOr os ''SCAN_TEMP_DIR'' ''/tmp/log-proxy-scan'')" "buildScan os = Inr (Some (m, na))"
  by (cases "os_Getenv os ''CLAMD_ADDR'' = []"; cases "parseClamdAddr (os_Getenv os ''CLAMD_ADDR'')")
     (auto simp: buildScan_def envOr_def Let_def split: if_splits)

section \<open>Properties\<close>

definition startable :: "('k, 't) crypto \<Rightarrow> 'k gen_env \<Rightarrow> os_env \<Rightarrow> bool" where
  "startable cy ge os \<longleftrightarrow>
     (\<exists>ca fs. LoadOrCreate cy ge (envOr os ''CA_CERT'' ''ca.crt'') (envOr os ''CA_KEY'' ''ca.key'') (os_files os) = (Inr ca, fs) \<and>
       os_redisURL os (envOr os ''REDIS_URL'' ''redis://localhost:6379'') \<and>
       (os_Getenv os ''CLAMD_ADDR'' = [] \<or>
         (\<exists>address. os_Getenv os ''CLAMD_ADDR'' = ''unix://'' @ address \<or> os_Getenv os ''CLAMD_ADDR'' = ''tcp://'' @ address) \<and>
         os_MkdirAll os (envOr os ''SCAN_TEMP_DIR'' ''/tmp/log-proxy-scan'')) \<and>
       (os_Getenv os ''PAC_FILE'' = [] \<or> fs (os_Getenv os ''PAC_FILE'') \<noteq> None))"


text \<open>
  The API never serves unauthenticated by accident of a failed start: it starts exactly
  when DATABASE\_URL is set, REDIS\_URL parses and the store opens, and then a request without the
  key of API\_KEY is refused exactly when API\_KEY is not empty.
\<close>

lemma api_starts_authenticated:
  assumes "apiMain newStore os = Inr cfg" "ar_path r \<noteq> ''/healthz''" "Header_Get (ar_header r) ''Authorization'' = []"
  shows "os_Getenv os ''DATABASE_URL'' \<noteq> [] \<and> newStore (os_Getenv os ''DATABASE_URL'') = Some (ac_store cfg) \<and>
         (rp_code (fst (apiServe ae (ac_apiKey cfg) env r s)) = 401 \<longleftrightarrow> os_Getenv os ''API_KEY'' \<noteq> [])"
proof -
  have key: "ac_apiKey cfg = os_Getenv os ''API_KEY''" "os_Getenv os ''DATABASE_URL'' \<noteq> []"
      "newStore (os_Getenv os ''DATABASE_URL'') = Some (ac_store cfg)"
    using assms(1) by (auto simp: apiMain_def mustEnv_def envOr_def Let_def split: option.splits if_splits)
  have "rp_code (fst (apiServe ae k env r s)) = 401" if "k \<noteq> []" for k
    using that assms(2,3) by (simp add: apiServe_def bearerAuth_def CutPrefix_def HasPrefix_def)
  moreover have "rp_code (fst (apiServe ae [] env r s)) \<noteq> 401"
    using muxServe_not_401 by (simp add: apiServe_def)
  ultimately show ?thesis
    using key by metis
qed

definition demoOs :: os_env where
  "demoOs = \<lparr>os_Getenv = (\<lambda>k. if k = ''DATABASE_URL'' then ''postgres://db'' else if k = ''API_KEY'' then ''key'' else []),
     os_redisURL = (\<lambda>_. True), os_MkdirAll = (\<lambda>_. True), os_files = Map.empty\<rparr>"

end
