(* ===== verification/Lifecycle.thy ===== *)
theory Lifecycle
  imports Entry_Points Schedule
begin

text \<open>
  The life of the two processes after start-up (\<^verbatim>\<open>cmd/proxy/main.go\<close>, \<^verbatim>\<open>cmd/api/main.go\<close>): the listening
  goroutine, the signal, \<open>srv.Shutdown\<close> with its deadline, and the deferred \<open>Close\<close> of what the
  program holds, the log sender of the proxy or the connection pool of the API.

  \<open>http.Server\<close> is modelled by what \<open>main\<close> sees of it: it accepts while it listens, \<open>Shutdown\<close> waits for
  the handlers it knows of, and hijacked connections (the tunnels of the proxy) are not among them. A
  process that has exited takes no step.
\<close>

section \<open>Processes\<close>

datatype main_pc = Waiting | ShuttingDown | Closing | Exited int

record 'r process =
  pr_main :: main_pc
  pr_listening :: bool
  pr_active :: nat
  pr_timedOut :: bool
  pr_res :: 'r

text \<open>
  What \<open>main\<close> closes when it returns: the work that handlers and tunnels do on it, its \<open>Close\<close>, the
  steps of others that \<open>Close\<close> waits for, and whether \<open>Close\<close> returns.
\<close>

record ('r, 'w, 'e) resource =
  cl_work :: "'w \<Rightarrow> 'r \<Rightarrow> 'r"
  cl_close :: "'r \<Rightarrow> 'r"
  cl_step :: "'e \<Rightarrow> 'r \<Rightarrow> 'r option"
  cl_closed :: "'r \<Rightarrow> bool"

datatype ('w, 'e) proc_event =
    Signal
  | ListenFails
  | Accept
  | Work 'w
  | HandlerEnds
  | ShutdownDone
  | ShutdownTimeout
  | Background 'e
  | MainReturns

definition startProcess :: "'r \<Rightarrow> 'r process" where
  "startProcess r = \<lparr>pr_main = Waiting, pr_listening = True, pr_active = 0, pr_timedOut = False, pr_res = r\<rparr>"

fun exited :: "'r process \<Rightarrow> bool" where
  "exited p = (case pr_main p of Exited _ \<Rightarrow> True | _ \<Rightarrow> False)"

fun runningStep :: "('r, 'w, 'e) resource \<Rightarrow> ('w, 'e) proc_event \<Rightarrow> 'r process \<Rightarrow> 'r process option" where
  "runningStep c Signal p =
     (if pr_main p = Waiting then Some (p\<lparr>pr_main := ShuttingDown, pr_listening := False\<rparr>) else None)"
| "runningStep c ListenFails p = (if pr_listening p then Some (p\<lparr>pr_main := Exited 1, pr_listening := False\<rparr>) else None)"
| "runningStep c Accept p = (if pr_listening p then Some (p\<lparr>pr_active := Suc (pr_active p)\<rparr>) else None)"
| "runningStep c (Work w) p = Some (p\<lparr>pr_res := cl_work c w (pr_res p)\<rparr>)"
| "runningStep c HandlerEnds p = (if 0 < pr_active p then Some (p\<lparr>pr_active := pr_active p - 1\<rparr>) else None)"
| "runningStep c ShutdownDone p =
     (if pr_main p = ShuttingDown \<and> pr_active p = 0 then Some (p\<lparr>pr_main := Closing, pr_res := cl_close c (pr_res p)\<rparr>) else None)"
| "runningStep c ShutdownTimeout p =
     (if pr_main p = ShuttingDown then Some (p\<lparr>pr_main := Closing, pr_timedOut := True, pr_res := cl_close c (pr_res p)\<rparr>) else None)"
| "runningStep c (Background ev) p = map_option (\<lambda>r. p\<lparr>pr_res := r\<rparr>) (cl_step c ev (pr_res p))"
| "runningStep c MainReturns p =
     (if pr_main p = Closing \<and> cl_closed c (pr_res p) then Some (p\<lparr>pr_main := Exited 0\<rparr>) else None)"

definition procStep :: "('r, 'w, 'e) resource \<Rightarrow> ('w, 'e) proc_event \<Rightarrow> 'r process \<Rightarrow> 'r process option" where
  "procStep c ev p = (if exited p then None else runningStep c ev p)"

text \<open>The proxy's sender, if it logs: handlers send records, and \<open>Close\<close> waits for the drain goroutine.\<close>

fun drain_side :: "sender_event \<Rightarrow> bool" where
  "drain_side (EvSend _) = False"
| "drain_side EvClose = False"
| "drain_side _ = True"

definition senderResource :: "(AccessRecord \<Rightarrow> bytes) \<Rightarrow> (Sender option, AccessRecord, sender_event) resource" where
  "senderResource format =
     \<lparr>cl_work = (\<lambda>r. map_option (SendRecord r)), cl_close = map_option CloseSender,
      cl_step = (\<lambda>ev os. case os of None \<Rightarrow> None | Some s \<Rightarrow> if drain_side ev then map_option Some (senderStep format ev s) else None),
      cl_closed = (\<lambda>os. case os of None \<Rightarrow> True | Some s \<Rightarrow> sd_pc s = Returned)\<rparr>"

section \<open>Leaving main\<close>

text \<open>
  What \<open>main\<close> relies on when it closes a resource: closing it establishes a state in which the others'
  steps run out, and they are not blocked before \<open>Close\<close> may return. The connection pool of the API
  is such a resource too, by the documentation of its package (\<open>Close\<close> refuses further use and waits
  until every connection is back); its code is not part of the repository.
\<close>

locale closable = bounded_run "cl_step c" own inv rank "cl_closed c"
  for c :: "('r, 'w, 'e) resource" and own :: "'e \<Rightarrow> bool" and inv :: "'r \<Rightarrow> bool" and rank :: "'r \<Rightarrow> nat" +
  assumes close_inv: "inv (cl_close c r)"
begin

fun leaving :: "('w, 'e) proc_event \<Rightarrow> bool" where
  "leaving (Background ev) = own ev"
| "leaving MainReturns = True"
| "leaving _ = False"

definition closing :: "'r process \<Rightarrow> bool" where
  "closing p \<longleftrightarrow> pr_main p = Exited 0 \<or> pr_main p = Closing \<and> inv (pr_res p)"

definition exit_rank :: "'r process \<Rightarrow> nat" where
  "exit_rank p = (if pr_main p = Closing then Suc (rank (pr_res p)) else 0)"

lemma closing_step:
  assumes "closing p" "leaving ev" "procStep c ev p = Some p'"
  shows "closing p' \<and> exit_rank p' < exit_rank p"
  using assms inv_step rank_step
  by (cases ev) (auto simp: procStep_def closing_def exit_rank_def split: if_splits)

lemma closing_progress:
  assumes "closing p" "pr_main p \<noteq> Exited 0"
  shows "\<exists>ev p'. leaving ev \<and> procStep c ev p = Some p'"
proof (cases "cl_closed c (pr_res p)")
  case True
  with assms have "procStep c MainReturns p \<noteq> None" by (simp add: procStep_def closing_def)
  then show ?thesis using leaving.simps(2) by blast
next
  case False
  with assms obtain ev r where ev: "own ev" "cl_step c ev (pr_res p) = Some r"
    using not_blocked [of "pr_res p"] by (auto simp: closing_def)
  then have "procStep c (Background ev) p \<noteq> None" using assms by (simp add: procStep_def closing_def)
  then show ?thesis using ev leaving.simps(1) by blast
qed

sublocale main: bounded_run "procStep c" leaving closing exit_rank "\<lambda>p. pr_main p = Exited 0"
  by unfold_locales (use closing_step closing_progress in blast)+

lemma closing_after_close: "closing (p\<lparr>pr_main := Closing, pr_res := cl_close c r\<rparr>)"
  by (simp add: closing_def close_inv)

text \<open>
  From the \<open>Close\<close> on, the way out of \<open>main\<close> is bounded by the rank of the resource and never blocked.
\<close>

lemma leaves_main:
  assumes "runEvents (procStep c) evs p = Some p'" "list_all leaving evs" "pr_main p = Closing" "inv (pr_res p)"
  shows "length evs \<le> Suc (rank (pr_res p)) \<and>
         (pr_main p' = Exited 0 \<or> (\<exists>ev p''. leaving ev \<and> procStep c ev p' = Some p''))"
  using main.run_bounded [OF assms(1) _ assms(2)] assms(3,4) by (simp add: closing_def exit_rank_def)

end

section \<open>The sender is closable\<close>

fun open_measure :: "Sender option \<Rightarrow> nat" where
  "open_measure None = 0"
| "open_measure (Some s) = drain_measure s"

fun stopped :: "Sender option \<Rightarrow> bool" where
  "stopped None = True"
| "stopped (Some s) = sd_stop s"

lemma drain_event_side: "drain_event ev \<Longrightarrow> drain_side ev \<and> healthy_event ev"
  by (cases ev) auto

lemma senderResource_simps [simp]:
  "cl_work (senderResource format) r os = map_option (SendRecord r) os"
  "cl_close (senderResource format) os = map_option CloseSender os"
  "cl_step (senderResource format) ev None = None"
  "cl_step (senderResource format) ev (Some s) = (if drain_side ev then map_option Some (senderStep format ev s) else None)"
  "cl_closed (senderResource format) None"
  "cl_closed (senderResource format) (Some s) \<longleftrightarrow> sd_pc s = Returned"
  by (simp_all add: senderResource_def)

interpretation sender: closable "senderResource format" drain_event stopped open_measure for format
proof unfold_locales
  fix os ev os'
  assume step: "stopped os" "drain_event ev" "cl_step (senderResource format) ev os = Some os'"
  then obtain s s' where "os = Some s" "os' = Some s'" "senderStep format ev s = Some s'"
    by (cases os) (auto split: if_splits)
  with step drain_step [of ev format s s'] show "stopped os'" "open_measure os' < open_measure os" by simp_all
next
  fix os
  assume "stopped os" "\<not> cl_closed (senderResource format) os"
  then obtain s where s: "os = Some s" "sd_stop s" "sd_pc s \<noteq> Returned" by (cases os) auto
  then obtain ev s' where "drain_event ev" "senderStep format ev s = Some s'"
    using drain_progress by blast
  with s(1) drain_event_side [of ev] have "drain_event ev \<and> cl_step (senderResource format) ev os = Some (Some s')" by simp
  then show "\<exists>ev s'. drain_event ev \<and> cl_step (senderResource format) ev os = Some s'" by blast
next
  fix os
  show "stopped (cl_close (senderResource format) os)" by (cases os) (simp_all add: CloseSender_def)
qed

section \<open>Runs of the proxy\<close>

text \<open>Runs in which every dial and write of the sender succeeds.\<close>

fun healthy_proc :: "(AccessRecord, sender_event) proc_event \<Rightarrow> bool" where
  "healthy_proc (Background ev) = healthy_event ev"
| "healthy_proc _ = True"

inductive procRun :: "(AccessRecord \<Rightarrow> bytes) \<Rightarrow> Sender option process \<Rightarrow> Sender option process \<Rightarrow> bool" for format p0 where
  start: "procRun format p0 p0"
| step: "procRun format p0 p \<Longrightarrow> healthy_proc ev \<Longrightarrow> procStep (senderResource format) ev p = Some p' \<Longrightarrow> procRun format p0 p'"

definition proc_inv :: "nat \<Rightarrow> bool \<Rightarrow> (AccessRecord \<Rightarrow> bytes) \<Rightarrow> Sender option process \<Rightarrow> bool" where
  "proc_inv n d format p \<longleftrightarrow>
     (\<exists>s. pr_res p = Some s \<and> sends_healthy format (NewSender n d) s \<and>
       (sd_stop s \<longleftrightarrow> pr_main p = Closing \<or> pr_main p = Exited 0) \<and> (pr_main p = Exited 0 \<longrightarrow> sd_pc s = Returned)) \<and>
     (pr_listening p \<longrightarrow> pr_main p = Waiting) \<and>
     (pr_main p = Closing \<or> pr_main p = Exited 0 \<longrightarrow> pr_active p = 0 \<or> pr_timedOut p)"

lemma SendRecord_stop [simp]: "sd_stop (SendRecord r s) = sd_stop s" "sd_pc (SendRecord r s) = sd_pc s"
  by (simp_all add: SendRecord_def split: option.splits)

lemma drain_side_stop: "drain_side ev \<Longrightarrow> senderStep format ev s = Some s' \<Longrightarrow> sd_stop s' = sd_stop s"
  by (cases ev) (auto dest: receiveOne_shorter split: if_splits)

lemma proc_inv_step:
  assumes "proc_inv n d format p" "healthy_proc ev" "procStep (senderResource format) ev p = Some p'"
  shows "proc_inv n d format p'"
proof -
  obtain s where s: "pr_res p = Some s" "sends_healthy format (NewSender n d) s"
      "sd_stop s \<longleftrightarrow> pr_main p = Closing \<or> pr_main p = Exited 0"
    using assms(1) by (auto simp: proc_inv_def)
  have running: "\<not> exited p" "runningStep (senderResource format) ev p = Some p'"
    using assms(3) by (simp_all add: procStep_def split: if_splits)
  have send: "sends_healthy format (NewSender n d) (SendRecord r s)" for r
    using s(2) by (rule sends_healthy.step [where ev = "EvSend r"]) simp_all
  have close: "sends_healthy format (NewSender n d) (CloseSender s)" if "\<not> sd_stop s"
    using sends_healthy.step [OF s(2), of EvClose] that by simp
  show ?thesis
  proof (cases ev)
    case (Background e)
    with running s(1) obtain s' where s': "drain_side e" "senderStep format e s = Some s'" "p' = p\<lparr>pr_res := Some s'\<rparr>"
      by (auto split: if_splits)
    with Background assms(2) have "sends_healthy format (NewSender n d) s'"
      using sends_healthy.step [OF s(2) s'(2)] by simp
    with assms(1) running(1) s s' drain_side_stop [OF s'(1,2)] show ?thesis
      by (auto simp: proc_inv_def split: main_pc.splits)
  qed (use assms(1) running s send close in \<open>auto simp: proc_inv_def CloseSender_def split: if_splits main_pc.splits\<close>)
qed

lemma proc_inv_run: "procRun format (startProcess (Some (NewSender n d))) p \<Longrightarrow> proc_inv n d format p"
proof (induction rule: procRun.induct)
  case start
  show ?case by (auto simp: proc_inv_def startProcess_def NewSender_def intro: sends_healthy.start [of _ "NewSender n d", unfolded NewSender_def])
next
  case (step p ev p')
  then show ?case by (rule_tac proc_inv_step)
qed

text \<open>On the way out nothing is added to what was accepted before the \<open>Close\<close>.\<close>

lemma drain_side_atClose: "drain_side ev \<Longrightarrow> senderStep format ev s = Some s' \<Longrightarrow> sd_atClose s' = sd_atClose s"
  by (cases ev) (auto dest: receiveOne_shorter split: if_splits)

lemma leaving_atClose:
  assumes "runEvents (procStep (senderResource format)) evs p = Some p'" "list_all sender.leaving evs" "pr_res p = Some s"
  shows "\<exists>s'. pr_res p' = Some s' \<and> sd_atClose s' = sd_atClose s"
  using assms
proof (induction evs arbitrary: p s)
  case (Cons ev evs)
  from Cons.prems(1) obtain p1 where p1: "procStep (senderResource format) ev p = Some p1"
      "runEvents (procStep (senderResource format)) evs p1 = Some p'"
    by (rule runEvents_Cons_Some)
  then obtain s1 where "pr_res p1 = Some s1" "sd_atClose s1 = sd_atClose s"
    using Cons.prems(2,3) by (cases ev) (auto simp: procStep_def dest: drain_side_atClose split: if_splits)
  with Cons.IH [OF p1(2)] Cons.prems(2) show ?case by simp
qed simp

text \<open>A run for the witness: a record, a signal, and the way out.\<close>

lemma procRun_events:
  "runEvents (procStep (senderResource format)) evs p = Some p' \<Longrightarrow> list_all healthy_proc evs \<Longrightarrow> procRun format p0 p \<Longrightarrow> procRun format p0 p'"
proof (induction evs arbitrary: p)
  case (Cons ev evs)
  from Cons.prems(1) obtain p1 where "procStep (senderResource format) ev p = Some p1" "runEvents (procStep (senderResource format)) evs p1 = Some p'"
    by (rule runEvents_Cons_Some)
  with Cons show ?case by (auto intro: procRun.step)
qed simp

lemma demoProc_run:
  obtains p s where "procRun lr_Host (startProcess (Some (NewSender 1 True))) p" "pr_res p = Some s" "pr_main p = Closing"
    "ch_buf (sd_ch s) = [demoRecord ''a'']" "sd_atClose s = [demoRecord ''a'']"
    "\<exists>p'. runEvents (procStep (senderResource lr_Host)) [Background EvStop, Background (EvFlush True True), Background EvReturn, MainReturns] p = Some p' \<and> pr_main p' = Exited 0"
proof -
  let ?evs = "[Accept, Work (demoRecord ''a''), HandlerEnds, Signal, ShutdownDone]"
  obtain p s where p: "runEvents (procStep (senderResource lr_Host)) ?evs (startProcess (Some (NewSender 1 True))) = Some p"
      "pr_res p = Some s" "pr_main p = Closing" "ch_buf (sd_ch s) = [demoRecord ''a'']" "sd_atClose s = [demoRecord ''a'']"
      "\<exists>p'. runEvents (procStep (senderResource lr_Host)) [Background EvStop, Background (EvFlush True True), Background EvReturn, MainReturns] p = Some p' \<and> pr_main p' = Exited 0"
    by (simp add: procStep_def startProcess_def NewSender_def makeChan_def SendRecord_def trySend_def CloseSender_def receiveOne_def
        tryRecv_def writeRecord_def)
  then show thesis
    using that procRun_events [OF p(1) _ procRun.start] by simp
qed

section \<open>Properties\<close>



end
