(* ===== verification/Spec2Isabelle.thy ===== *)
theory Spec2Isabelle
  imports Trickle Sender Scan_Endpoint Cli_Download Bridge Api_System Leaf_Cert Lifecycle
begin

text \<open>
  A verification development for a filtering, intercepting HTTP proxy with malware scanning and a
  management API, all of it Go.

  \<^bold>\<open>The program.\<close> A proxy process (\<^verbatim>\<open>cmd/proxy\<close>) answers plain proxy requests and CONNECT
  tunnels. Inside a tunnel it presents a certificate of its own and serves the decrypted requests in a
  loop. Hosts on the blocklist get a 403 page. Responses with a scannable media type go through the scan
  layer: a browser is redirected to a page that polls the job and downloads the file afterwards, any
  other client gets the body at a trickle until clamd has answered. Verdicts are cached in memory and in
  Redis, records go to syslog. An API process (\<^verbatim>\<open>cmd/api\<close>) keeps blocklist, scan settings and MIME
  rules in PostgreSQL, mirrors them to Redis and notifies the proxies, which reload.

  \<^bold>\<open>Theories and sources\<close> (paths under \<^verbatim>\<open>src/\<close>).
  \<^item> \<open>Prelude\<close>: the parts of Go's standard library the sources use on strings, 64-bit integers and
    \<open>http.Header\<close>, with the shared lemmas. \<open>Http_Types\<close>: requests, responses, replies, JSON values.
    \<open>Schedule\<close>: event schedules and the locale \<open>bounded_run\<close> of goroutines that stop on their own.
  \<^item> \<open>Domain_Blocklist\<close>: \<^verbatim>\<open>internal/proxy/blocklist.go\<close>. The trie of reversed labels behind the locale
    \<open>subdomain_index\<close>; \<open>IsBlocked\<close> equals the meaning of the list of entries.
  \<^item> \<open>Scan_Config\<close>: \<^verbatim>\<open>internal/scan/config.go\<close>. MIME rules and the size limit.
  \<^item> \<open>Clamd\<close>: \<^verbatim>\<open>internal/scan/clamd.go\<close>. INSTREAM framing, decoded by a reference decoder, and the
    answers; locale \<open>scan_backend\<close>.
  \<^item> \<open>Counted_Map\<close>, \<open>Result_Cache\<close>: \<^verbatim>\<open>internal/scan/cache.go\<close>. A capped map with a counter (locale
    \<open>capped_cache\<close>, interpreted for both caches of the program), both tiers, and two lookups
    interleaved at their map accesses.
  \<^item> \<open>Scan_Job\<close>, \<open>Run_Scan\<close>: \<^verbatim>\<open>internal/scan/manager.go\<close> and \<^verbatim>\<open>util.go\<close>. The job table, and the scan
    goroutine as the sequence of its effects on job, temporary file and cache.
  \<^item> \<open>Trickle\<close>: \<^verbatim>\<open>internal/scan/trickle.go\<close>. The reader handed to non-browser clients as a state machine
    that interleaves with the scan goroutine; invariants by induction over its runs.
  \<^item> \<open>Pages\<close>: the HTML constants of \<^verbatim>\<open>endpoint.go\<close> and \<^verbatim>\<open>handler.go\<close> with the formatting of their verbs.
  \<^item> \<open>Scan_Endpoint\<close>: \<^verbatim>\<open>internal/scan/endpoint.go\<close>. Status, download, result page and the script on it that
    polls.
  \<^item> \<open>Scan_Transport\<close>: \<^verbatim>\<open>internal/proxy/scantransport.go\<close>, \<^verbatim>\<open>timed_transport.go\<close>. Which responses are scanned.
  \<^item> \<open>Chunked\<close>, \<open>Conn_Loop\<close>, \<open>Bridge\<close>: \<^verbatim>\<open>internal/proxy/tunnel.go\<close>. Chunked encoding and its decoder,
    the request loop of a tunnel over the bytes of its connection, with drained bodies, framing, the
    write buffer and records, and the byte bridge after an upgrade.
  \<^item> \<open>Reverse_Proxy\<close>: what the program uses of \<open>httputil.ReverseProxy\<close> (outgoing request, answer, upgrade,
    abort). \<open>Proxy_Server\<close>: \<^verbatim>\<open>internal/proxy/handler.go\<close>, \<^verbatim>\<open>connect.go\<close>, \<^verbatim>\<open>magichost.go\<close>. Routing and
    CONNECT. \<open>Cli_Download\<close>: transport, scan, trickle reader and both ways to the client put together.
  \<^item> \<open>Config_Sync\<close>: \<^verbatim>\<open>internal/proxy/blocklist_sync.go\<close>, \<^verbatim>\<open>scanconfig_sync.go\<close>. Both loops as one machine;
    locale \<open>sync_loader\<close>, interpreted for both.
  \<^item> \<open>Syslog\<close>, \<open>Sender\<close>: \<^verbatim>\<open>internal/logger\<close>. RFC 5424 lines with a parser that inverts them, and the
    bounded queue (locale \<open>fifo_channel\<close>) with its drain goroutine.
  \<^item> \<open>Cert_Authority\<close>, \<open>Leaf_Cert\<close>: \<^verbatim>\<open>internal/cert\<close>. The authority in its two files, leaf
    certificates in memory and Redis, and concurrent handshakes.
  \<^item> \<open>Api_Domain\<close>, \<open>Api_Store\<close>, \<open>Api_Handler\<close>: \<^verbatim>\<open>internal/api\<close>. The domain regular expression
    matched by derivatives; tables, queries and transactions with each point of failure; routing,
    authentication, decoding and status codes.
  \<^item> \<open>Api_System\<close>: the store as an implementation of a map of flags, request sequences, and API, Redis
    and a proxy together. \<open>Entry_Points\<close>, \<open>Lifecycle\<close>: \<^verbatim>\<open>cmd/proxy/main.go\<close>, \<^verbatim>\<open>cmd/api/main.go\<close>; start-up,
    and the way from the signal to the exit (locale \<open>closable\<close>).
  \<^item> This theory: properties that span both programs.

  \<^bold>\<open>State and effects.\<close> Structs are records, Go errors are values of sum or option types, a
  \<open>sync.Map\<close> is an association list with distinct keys. Goroutines that share state are step
  functions or inductive step relations over events, and a theorem about them covers every
  interleaving of those steps. Clock readings, random draws and the outcomes of calls to PostgreSQL,
  Redis, clamd, the upstream, the file system and the crypto packages are arguments. Where a theorem
  needs more of such a call than its type, that is a named hypothesis (\<open>pem_ok\<close>, \<open>x509_ok\<close>, \<open>codec_ok\<close>,
  \<open>redis_trusted\<close>, \<open>leaf_redis_ok\<close>) with an instance in the theorem's witness.

  \<^bold>\<open>What is shown.\<close> The blocklist blocks what its entries say, on plain requests and
  in tunnels, and from the database row to the refused request. A scannable response is not passed on
  unscanned; a clean verdict needs a clean answer over the complete body; an infected body is never
  delivered to its end by the trickle reader or the download page, and a download that is allowed
  reaches the client byte for byte, through the reverse proxy and through a tunnel. Served certificates
  name their host and are valid for a day. Encodings (INSTREAM, chunked, syslog, PEM files, cached
  certificates) are inverted by their decoders. Caches keep their counters, queues their order; after
  the scan ends a read returns, an idle bridge ends, and the proxy's shutdown reaches its exit with the
  queue written. The properties named as errors pin down behaviour that contradicts the intent of the
  code.

  \<^bold>\<open>Bounds.\<close> All model functions terminate and none uses fuel. The step bounds of
  \<open>trickle_returns\<close> (eight, whatever the timer and the selects choose),
  \<open>sender_close_flushes\<close> (the queue and two more) and \<open>proxy_shutdown_flushes\<close>
  (the queue and three more) are ranks of the goroutine's state, through the locale
  \<open>bounded_run\<close>: every step lowers the rank, and a goroutine that has not returned has a
  step. Back-off and buffer sizes are those of the source; the 43000 bytes of
  \<open>tunnel_trickle_buffered\<close> are what fits its buffer at six bytes a chunk beside a head of
  4 KiB.

  \<^bold>\<open>Not modelled.\<close> Deadlines of sockets except the bridge's, failing writes to a client, range and
  conditional requests of \<open>http.ServeContent\<close>, trailers and 1xx answers, recycling of buffers, the
  operational log, TLS itself. A Redis pipeline succeeds or fails as a whole. SQL is modelled by its effect
  on the tables; ILIKE and ORDER BY are parameters. The TypeScript front end and the deployment files
  are outside the Go program.
\<close>

section \<open>Properties across the programs\<close>

text \<open>
  Property C1. What an administrator enables is enforced: after any interleaving of API requests and
  handled notifications, once no notification waits, a request whose Host matches an enabled entry of
  the database is not forwarded as a plain proxy request, and none of the requests a tunnel forwards has
  a Host that matches it.
\<close>

theorem deployed_filter_enforced:
  assumes "api_inv s0" "sy_phase y0 = Subscribed" "sy_value y0 = Some (NewBlocklist u (sy_redis y0))"
    and "set (sy_redis y0) = rd_domains (st_rd s0)"
    and "sysReach ae apiKey u s0 y0 s y" "sy_pending y = 0"
    and "u = le_unicode (se_loop env)" "sv_blocklist srv = sy_value y" "\<forall>i. snd (draw i) = sv_blocklist srv"
    and "e \<in> set (db_entries (st_db s))" "en_Enabled e" "entryMatches (en_Domain e) (hostOf u (rq_Host r))"
  shows "(case ServeHTTP env srv tk run r of Proxied _ _ _ _ \<Rightarrow> False | Replied _ _ \<Rightarrow> True | Tunnelled _ _ _ \<Rightarrow> rq_Method r = ''CONNECT'') \<and>
         rq_Host r \<notin> rq_Host ` set (fst (snd (serveConnLoop (se_loop env) cx rt draw 0 (wireOf reqs) st)))"
proof -
  have blocked: "IsBlocked (le_unicode (se_loop env)) (sv_blocklist srv) (rq_Host r)"
    using sysReach_blocks [OF assms(1-6), of "rq_Host r"] assms(7,8,10-12) by auto
  obtain st' sent out logs where run: "serveConnLoop (se_loop env) cx rt draw 0 (wireOf reqs) st = (st', sent, out, logs)"
    by (cases "serveConnLoop (se_loop env) cx rt draw 0 (wireOf reqs) st")
  have "rq_Host r \<notin> rq_Host ` set sent"
    using serveConnLoop_sent [OF run] blocked assms(9) by (fastforce simp: in_set_conv_nth)
  moreover have "case ServeHTTP env srv tk run r of Proxied _ _ _ _ \<Rightarrow> False | Replied _ _ \<Rightarrow> True | Tunnelled _ _ _ \<Rightarrow> rq_Method r = ''CONNECT''"
    using blocked handleConnect_not_Proxied [of env srv run r] by (cases "handleConnect env srv run r") (auto simp: ServeHTTP_def Let_def)
  ultimately show ?thesis
    using run by simp
qed

definition demoServerEnv :: server_env where
  "demoServerEnv = \<lparr>se_loop = demoLoopEnv\<lparr>le_unicode := ae_unicode demoApiEnv\<rparr>, se_quote = id, se_cipherName = (\<lambda>_. [])\<rparr>"

definition demoServer :: Server where
  "demoServer = (NewServer [] [] False None None None)\<lparr>sv_blocklist := sy_value demoSync\<rparr>"

theorem deployed_filter_enforced_witness:
  "''A.test:443'' \<notin> rq_Host ` set (fst (snd (serveConnLoop (se_loop demoServerEnv) demoLoopConn demoTransport
     (demoDraw (sy_value demoSync)) 0 (wireOf [(demoLoopReq ''A.test:443'', [])]) 0)))"
proof -
  obtain e where e: "e \<in> set (db_entries (st_db demoStore))" "en_Domain e = ''a.test''" "en_Enabled e"
    by (rule demoStore_entry)
  have env: "ae_unicode demoApiEnv = le_unicode (se_loop demoServerEnv)" "sv_blocklist demoServer = sy_value demoSync"
      "\<forall>i. snd (demoDraw (sy_value demoSync) i) = sv_blocklist demoServer"
    by (simp_all add: demoServerEnv_def demoServer_def demoDraw_def)
  have match: "entryMatches (en_Domain e) (hostOf (ae_unicode demoApiEnv) (rq_Host (demoLoopReq ''A.test:443'')))"
    using demo_match e(2) by (simp add: demoLoopReq_def)
  have "rq_Host (demoLoopReq ''A.test:443'') \<notin> rq_Host ` set (fst (snd (serveConnLoop (se_loop demoServerEnv) demoLoopConn demoTransport
     (demoDraw (sy_value demoSync)) 0 (wireOf [(demoLoopReq ''A.test:443'', [])]) 0)))"
    by (rule conjunct2 [OF deployed_filter_enforced [OF demo_reach env e(1,3) match]])
  then show ?thesis by (simp add: demoLoopReq_def)
qed

end
